(* ===== verification/Prelude.thy ===== *)
theory Prelude
  imports Main "HOL-Library.AList" "HOL-Library.Word"
begin

text \<open>
  Shared vocabulary of the development: results of fallible operations, saturating machine
  arithmetic, and the laws of association lists that stand for the program's hash maps.

  \<^item> \<open>'e + 'a\<close> is Rust's \<open>Result<'a, 'e>\<close> (\<open>Inl\<close> the error). \<open>and_then\<close>, \<open>map_err\<close>
    and \<open>ok_or\<close> are the combinators of the same names; \<open>and_then\<close> is also the \<open>?\<close> operator.
  \<^item> \<open>sat_add\<close>, \<open>sat_sub\<close>, \<open>sat_mul\<close> are the saturating operations of the unsigned types.
  \<^item> A \<open>HashMap\<close>, \<open>BTreeMap\<close> or \<open>DashMap\<close> is an association list with distinct keys, read
    through \<open>map_of\<close> and written by \<open>AList.update\<close> and \<open>AList.delete\<close>.

  Collections: \<open>result_simps\<close> reduces equations between results, \<open>alist_simps\<close> reads an updated
  association list, \<open>validate_simps\<close> gathers what a successful validation implies.
\<close>

named_theorems result_simps
named_theorems alist_simps
named_theorems validate_simps

subsection \<open>Results\<close>

definition and_then :: "'e + 'a \<Rightarrow> ('a \<Rightarrow> 'e + 'b) \<Rightarrow> 'e + 'b" where
  "and_then m f = (case m of Inl e \<Rightarrow> Inl e | Inr a \<Rightarrow> f a)"

definition map_err :: "('e \<Rightarrow> 'f) \<Rightarrow> 'e + 'a \<Rightarrow> 'f + 'a" where
  "map_err g m = (case m of Inl e \<Rightarrow> Inl (g e) | Inr a \<Rightarrow> Inr a)"

definition ok_or :: "'e \<Rightarrow> 'a option \<Rightarrow> 'e + 'a" where
  "ok_or e m = (case m of None \<Rightarrow> Inl e | Some a \<Rightarrow> Inr a)"

definition is_ok :: "'e + 'a \<Rightarrow> bool" where
  "is_ok m = (case m of Inl _ \<Rightarrow> False | Inr _ \<Rightarrow> True)"

lemma and_then_simps [simp]:
  "and_then (Inl e) f = Inl e"
  "and_then (Inr a) f = f a"
  by (simp_all add: and_then_def)

lemma map_err_simps [simp]:
  "map_err g (Inl e) = Inl (g e)"
  "map_err g (Inr a) = Inr a"
  by (simp_all add: map_err_def)

lemma ok_or_simps [simp]:
  "ok_or e None = Inl e"
  "ok_or e (Some a) = Inr a"
  by (simp_all add: ok_or_def)

lemma is_ok_simps [simp]:
  "\<not> is_ok (Inl e)"
  "is_ok (Inr a)"
  by (simp_all add: is_ok_def)

lemma and_then_Inr [result_simps]:
  "and_then m f = Inr b \<longleftrightarrow> (\<exists>a. m = Inr a \<and> f a = Inr b)"
  by (cases m) simp_all

lemma and_then_Inl [result_simps]:
  "and_then m f = Inl e \<longleftrightarrow> m = Inl e \<or> (\<exists>a. m = Inr a \<and> f a = Inl e)"
  by (cases m) simp_all

lemma map_err_Inr [result_simps]: "map_err g m = Inr a \<longleftrightarrow> m = Inr a"
  by (cases m) simp_all

lemma map_err_Inl [result_simps]: "map_err g m = Inl e \<longleftrightarrow> (\<exists>d. m = Inl d \<and> e = g d)"
  by (cases m) auto

lemma ok_or_Inr [result_simps]: "ok_or e m = Inr a \<longleftrightarrow> m = Some a"
  by (cases m) simp_all

lemma ok_or_Inl [result_simps]: "ok_or e m = Inl d \<longleftrightarrow> m = None \<and> d = e"
  by (cases m) auto

lemma is_ok_iff: "is_ok m \<longleftrightarrow> (\<exists>a. m = Inr a)"
  by (cases m) simp_all

lemma result_unit_cases: "m = Inr () \<or> (\<exists>e. m = Inl e)"
  by (cases m) simp_all

subsection \<open>Saturating arithmetic\<close>

definition sat_add :: "'a::len word \<Rightarrow> 'a word \<Rightarrow> 'a word" where
  "sat_add a b = (if unat a + unat b < 2 ^ LENGTH('a) then a + b else - 1)"

definition sat_sub :: "'a::len word \<Rightarrow> 'a word \<Rightarrow> 'a word" where
  "sat_sub a b = (if b \<le> a then a - b else 0)"

definition sat_mul :: "'a::len word \<Rightarrow> 'a word \<Rightarrow> 'a word" where
  "sat_mul a b = (if unat a * unat b < 2 ^ LENGTH('a) then a * b else - 1)"

text \<open>The largest value of \<open>usize\<close>, where a \<open>nat\<close> stands for a \<open>usize\<close> that may saturate.\<close>

definition usize_max :: nat where
  "usize_max = 2 ^ 64 - 1"

lemma unat_minus_one_word_eq: "unat (- 1 :: 'a::len word) = 2 ^ LENGTH('a) - 1"
  by (simp add: unsigned_minus_1_eq_mask mask_eq_exp_minus_1)

lemma unat_sat_add:
  "unat (sat_add a b) = min (unat a + unat b) (2 ^ LENGTH('a) - 1)" for a :: "'a::len word"
  by (auto simp: sat_add_def unat_word_ariths unat_minus_one_word_eq min_def)

lemma unat_sat_mul:
  "unat (sat_mul a b) = min (unat a * unat b) (2 ^ LENGTH('a) - 1)" for a :: "'a::len word"
proof (cases "unat a * unat b < 2 ^ LENGTH('a)")
  case True
  then show ?thesis by (simp add: sat_mul_def unat_word_ariths)
next
  case False
  then have "min (unat a * unat b) (2 ^ LENGTH('a) - 1) = 2 ^ LENGTH('a) - 1" by linarith
  with False show ?thesis by (simp add: sat_mul_def unat_minus_one_word_eq)
qed

lemma unat_sat_sub: "unat (sat_sub a b) = unat a - unat b"
  by (auto simp: sat_sub_def unat_sub word_le_nat_alt)

lemma sat_sub_of_nat:
  assumes "m \<le> n" and "n < 2 ^ LENGTH('a)"
  shows "sat_sub (of_nat n) (of_nat m :: 'a::len word) = of_nat (n - m)"
proof -
  have "unat (of_nat n :: 'a word) = n" and "unat (of_nat m :: 'a word) = m"
    using assms by (simp_all add: unat_of_nat)
  then show ?thesis using assms
    by (simp add: sat_sub_def word_le_nat_alt of_nat_diff)
qed

subsection \<open>Association lists\<close>

lemmas alist_lookup [alist_simps] = update_conv' delete_conv'

lemma map_of_Some_iff_mem:
  "distinct (map fst al) \<Longrightarrow> map_of al k = Some v \<longleftrightarrow> (k, v) \<in> set al"
  by auto

text \<open>Maps are reasoned about through lookups, not through the entries of the list.\<close>

declare map_of_eq_Some_iff [simp del] Some_eq_map_of_iff [simp del]

lemma alist_all_iff:
  "distinct (map fst al) \<Longrightarrow> (\<forall>(k, v)\<in>set al. P k v) \<longleftrightarrow> (\<forall>k v. map_of al k = Some v \<longrightarrow> P k v)"
  by (auto simp: map_of_Some_iff_mem)

lemma alist_update_nonempty: "AList.update k v al \<noteq> []"
  by (cases al) auto

lemma alist_nonempty_lookup: "distinct (map fst al) \<Longrightarrow> al \<noteq> [] \<longleftrightarrow> (\<exists>k v. map_of al k = Some v)"
  by (cases al) auto

lemma alist_update_fresh:
  "map_of al k = None \<Longrightarrow> AList.update k v al = al @ [(k, v)]"
  by (induction al) (auto split: if_splits)

lemma alist_delete_fresh: "map_of al k = None \<Longrightarrow> AList.delete k al = al"
  by (induction al) (auto split: if_splits)

lemma alist_delete_snoc: "map_of al k = None \<Longrightarrow> AList.delete k (al @ [(k, v)]) = al"
  by (induction al) (auto split: if_splits)

lemma alist_length_update:
  "length (AList.update k v al) = (if map_of al k = None then Suc (length al) else length al)"
  by (induction al) auto

lemma alist_length_delete:
  "distinct (map fst al) \<Longrightarrow>
   length (AList.delete k al) = (if map_of al k = None then length al else length al - 1)"
proof (induction al)
  case Nil
  then show ?case by simp
next
  case (Cons p al)
  show ?case
  proof (cases "fst p = k")
    case True
    with Cons.prems have "map_of al k = None" by (auto simp: map_of_eq_None_iff)
    with True show ?thesis by (cases p) (simp add: alist_delete_fresh)
  next
    case False
    with Cons show ?thesis by (cases p; cases al) auto
  qed
qed

lemma alist_length_delete_member:
  "distinct (map fst al) \<Longrightarrow> map_of al k = Some v \<Longrightarrow> Suc (length (AList.delete k al)) = length al"
  using alist_length_delete [of al k] by (cases "length al") auto

lemma alist_set_delete: "set (AList.delete k al) \<subseteq> set al"
  by (induction al) auto

text \<open>
  Cardinalities of the maps (how many connections, how many subscriptions of a tenant) are sums
  over their entries. An update or a deletion moves such a sum by the entry it replaces.
\<close>

lemma alist_sum_update:
  fixes g :: "'k \<times> 'v \<Rightarrow> nat"
  assumes "distinct (map fst al)" and "map_of al k = Some w"
  shows "sum_list (map g (AList.update k v al)) + g (k, w) = sum_list (map g al) + g (k, v)"
  using assms by (induction al) (auto split: if_splits)

lemma alist_sum_delete:
  fixes g :: "'k \<times> 'v \<Rightarrow> nat"
  assumes "distinct (map fst al)" and "map_of al k = Some w"
  shows "sum_list (map g (AList.delete k al)) + g (k, w) = sum_list (map g al)"
  using assms
proof (induction al)
  case Nil
  then show ?case by simp
next
  case (Cons p al)
  show ?case
  proof (cases "fst p = k")
    case True
    with Cons.prems have "map_of al k = None" and "p = (k, w)"
      by (auto simp: map_of_eq_None_iff)
    then show ?thesis by (simp add: alist_delete_fresh)
  next
    case False
    with Cons show ?thesis by (cases p) auto
  qed
qed

lemma alist_sum_fresh:
  fixes g :: "'k \<times> 'v \<Rightarrow> nat"
  assumes "map_of al k = None"
  shows "sum_list (map g (AList.update k v al)) = sum_list (map g al) + g (k, v)"
  using assms by (simp add: alist_update_fresh)

lemma alist_sum_member_le:
  fixes g :: "'k \<times> 'v \<Rightarrow> nat"
  assumes "map_of al k = Some w"
  shows "g (k, w) \<le> sum_list (map g al)"
  using member_le_sum_list [of "g (k, w)" "map g al"] map_of_SomeD [OF assms] by force

lemma length_filter_sum: "length (filter P xs) = (\<Sum>x\<leftarrow>xs. if P x then 1 else 0)"
  by (induction xs) auto

end
