(* ===== verification/Rust_Str.thy ===== *)
theory Rust_Str
  imports Prelude
begin

text \<open>
  What the program uses of Rust's string library. A Rust \<open>str\<close> is a byte sequence that is valid
  UTF-8, so \<open>string\<close> (a list of 8-bit characters) holds its bytes: \<open>str::len\<close> is \<open>length\<close>,
  \<open>str::as_bytes\<close> is the identity and \<open>==\<close> compares bytes. \<open>from_utf8\<close> checks well-formedness
  (Unicode, Table 3-7); \<open>str_chars\<close> is the sequence of scalar values with the bytes of each, on
  which \<open>trim\<close> and \<open>char::is_control\<close> work. Bytes that are not UTF-8 never occur in a \<open>str\<close>; the
  functions read such a byte as a character of its own, which keeps them total.
\<close>

subsection \<open>UTF-8\<close>

definition in_range :: "nat \<Rightarrow> nat \<Rightarrow> char \<Rightarrow> bool" where
  "in_range lo hi c \<longleftrightarrow> lo \<le> of_char c \<and> of_char c \<le> hi"

definition cont :: "char \<Rightarrow> nat" where
  "cont c = of_char c mod 64"

text \<open>The first scalar value of \<open>b # s\<close>, its bytes and what follows it; \<open>None\<close> when ill-formed.\<close>

definition utf8_next :: "char \<Rightarrow> string \<Rightarrow> (nat \<times> string \<times> string) option" where
  "utf8_next b s =
    (let n = of_char b :: nat in
     if n < 0x80 then Some (n, [b], s)
     else if 0xC2 \<le> n \<and> n \<le> 0xDF then
       (case s of
          c1 # r \<Rightarrow>
            if in_range 0x80 0xBF c1 then Some ((n - 0xC0) * 64 + cont c1, [b, c1], r) else None
        | _ \<Rightarrow> None)
     else if 0xE0 \<le> n \<and> n \<le> 0xEF then
       (case s of
          c1 # c2 # r \<Rightarrow>
            if in_range (if n = 0xE0 then 0xA0 else 0x80) (if n = 0xED then 0x9F else 0xBF) c1
               \<and> in_range 0x80 0xBF c2
            then Some ((n - 0xE0) * 4096 + cont c1 * 64 + cont c2, [b, c1, c2], r) else None
        | _ \<Rightarrow> None)
     else if 0xF0 \<le> n \<and> n \<le> 0xF4 then
       (case s of
          c1 # c2 # c3 # r \<Rightarrow>
            if in_range (if n = 0xF0 then 0x90 else 0x80) (if n = 0xF4 then 0x8F else 0xBF) c1
               \<and> in_range 0x80 0xBF c2 \<and> in_range 0x80 0xBF c3
            then Some ((n - 0xF0) * 262144 + cont c1 * 4096 + cont c2 * 64 + cont c3,
                       [b, c1, c2, c3], r) else None
        | _ \<Rightarrow> None)
     else None)"

lemma utf8_next_split: "utf8_next b s = Some (n, bs, r) \<Longrightarrow> b # s = bs @ r \<and> bs \<noteq> []"
  by (auto simp: utf8_next_def Let_def split: if_splits list.splits)

lemma utf8_next_shorter: "utf8_next b s = Some (n, bs, r) \<Longrightarrow> length r < Suc (length s)"
  by (drule utf8_next_split) (metis length_append length_Cons length_greater_0_conv less_add_same_cancel2)

function utf8_valid :: "string \<Rightarrow> bool" where
  "utf8_valid [] = True"
| "utf8_valid (b # s) = (case utf8_next b s of None \<Rightarrow> False | Some (n, bs, r) \<Rightarrow> utf8_valid r)"
  by pat_completeness auto
termination
  by (relation "measure length") (auto simp: utf8_next_shorter)

function str_chars :: "string \<Rightarrow> (nat \<times> string) list" where
  "str_chars [] = []"
| "str_chars (b # s) =
    (case utf8_next b s of
       None \<Rightarrow> (of_char b, [b]) # str_chars s
     | Some (n, bs, r) \<Rightarrow> (n, bs) # str_chars r)"
  by pat_completeness auto
termination
  by (relation "measure length") (auto simp: utf8_next_shorter)

definition from_utf8 :: "string \<Rightarrow> string option" where
  "from_utf8 bs = (if utf8_valid bs then Some bs else None)"

lemma concat_str_chars: "concat (map snd (str_chars s)) = s"
  by (induction s rule: str_chars.induct) (auto split: option.splits dest: utf8_next_split)

lemma str_chars_nonempty_bytes: "p \<in> set (str_chars s) \<Longrightarrow> snd p \<noteq> []"
  by (induction s rule: str_chars.induct) (force split: option.splits dest: utf8_next_split)+

lemma str_chars_eq_Nil [simp]: "str_chars s = [] \<longleftrightarrow> s = []"
  by (cases s) (auto split: option.splits)

subsection \<open>Ascii strings\<close>

text \<open>Bytes below 128 are scalar values of their own.\<close>

definition ascii_str :: "string \<Rightarrow> bool" where
  "ascii_str s \<longleftrightarrow> (\<forall>c\<in>set s. of_char c < (128::nat))"

lemma utf8_next_ascii: "of_char b < (128::nat) \<Longrightarrow> utf8_next b s = Some (of_char b, [b], s)"
  by (simp add: utf8_next_def)

lemma str_chars_ascii: "ascii_str s \<Longrightarrow> str_chars s = map (\<lambda>c. (of_char c, [c])) s"
  by (induction s) (simp_all add: utf8_next_ascii ascii_str_def)

lemma utf8_valid_ascii: "ascii_str s \<Longrightarrow> utf8_valid s"
  by (induction s) (simp_all add: utf8_next_ascii ascii_str_def)

lemma ascii_str_simps [simp]:
  "ascii_str []"
  "ascii_str (c # s) \<longleftrightarrow> of_char c < (128::nat) \<and> ascii_str s"
  "ascii_str (s @ t) \<longleftrightarrow> ascii_str s \<and> ascii_str t"
  by (auto simp: ascii_str_def)

text \<open>Concatenation splits at a character boundary when the left part is well-formed.\<close>

lemma utf8_next_append:
  "utf8_next b s = Some (n, bs, r) \<Longrightarrow> utf8_next b (s @ t) = Some (n, bs, r @ t)"
  by (auto simp: utf8_next_def Let_def split: if_splits list.splits)

lemma str_chars_append: "utf8_valid s \<Longrightarrow> str_chars (s @ t) = str_chars s @ str_chars t"
  by (induction s rule: utf8_valid.induct) (auto simp: utf8_next_append split: option.splits)

lemma utf8_valid_append: "utf8_valid s \<Longrightarrow> utf8_valid (s @ t) = utf8_valid t"
  by (induction s rule: utf8_valid.induct) (auto simp: utf8_next_append split: option.splits)

subsection \<open>Character classes, trim, case\<close>

text \<open>\<open>char::is_whitespace\<close> (the White\_Space property) and \<open>char::is_control\<close> (category Cc).\<close>

definition is_whitespace :: "nat \<Rightarrow> bool" where
  "is_whitespace n \<longleftrightarrow> (9 \<le> n \<and> n \<le> 13) \<or> n = 0x20 \<or> n = 0x85 \<or> n = 0xA0 \<or> n = 0x1680
     \<or> (0x2000 \<le> n \<and> n \<le> 0x200A) \<or> n = 0x2028 \<or> n = 0x2029 \<or> n = 0x202F \<or> n = 0x205F
     \<or> n = 0x3000"

definition is_control :: "nat \<Rightarrow> bool" where
  "is_control n \<longleftrightarrow> n < 0x20 \<or> (0x7F \<le> n \<and> n \<le> 0x9F)"

definition chars :: "string \<Rightarrow> nat list" where
  "chars s = map fst (str_chars s)"

definition trim_chars :: "(nat \<times> string) list \<Rightarrow> (nat \<times> string) list" where
  "trim_chars cs = rev (dropWhile (is_whitespace \<circ> fst) (rev (dropWhile (is_whitespace \<circ> fst) cs)))"

definition trim :: "string \<Rightarrow> string" where
  "trim s = concat (map snd (trim_chars (str_chars s)))"

lemma trim_chars_Nil: "trim_chars cs = [] \<longleftrightarrow> (\<forall>p\<in>set cs. is_whitespace (fst p))"
proof
  assume "trim_chars cs = []"
  then have *: "\<forall>p\<in>set (dropWhile (is_whitespace \<circ> fst) cs). is_whitespace (fst p)"
    by (simp add: trim_chars_def dropWhile_eq_Nil_conv)
  then have "dropWhile (is_whitespace \<circ> fst) cs = []"
    using hd_dropWhile [of "is_whitespace \<circ> fst" cs] by (metis comp_apply hd_in_set)
  then show "\<forall>p\<in>set cs. is_whitespace (fst p)" by (simp add: dropWhile_eq_Nil_conv)
next
  assume "\<forall>p\<in>set cs. is_whitespace (fst p)"
  then have "dropWhile (is_whitespace \<circ> fst) cs = []" by (simp add: dropWhile_eq_Nil_conv)
  then show "trim_chars cs = []" by (simp only: trim_chars_def) simp
qed

lemma trim_chars_subset: "set (trim_chars cs) \<subseteq> set cs"
  by (auto simp: trim_chars_def dest!: set_dropWhileD)

lemma trim_empty_iff: "trim s = [] \<longleftrightarrow> (\<forall>n\<in>set (chars s). is_whitespace n)"
proof -
  have "trim s = [] \<longleftrightarrow> trim_chars (str_chars s) = []"
    using trim_chars_subset [of "str_chars s"] str_chars_nonempty_bytes [of _ s]
    by (cases "trim_chars (str_chars s)") (auto simp: trim_def)
  then show ?thesis by (auto simp: trim_chars_Nil chars_def)
qed

text \<open>A trimmed string is cut out at character boundaries, so trimming it again changes nothing.\<close>

lemma utf8_next_prefix: "utf8_next b s = Some (n, bs, r) \<Longrightarrow> utf8_next b (tl bs @ t) = Some (n, bs, t)"
  by (auto simp: utf8_next_def Let_def split: if_splits list.splits)

lemma str_chars_drop: "str_chars (concat (map snd (drop k (str_chars s)))) = drop k (str_chars s)"
proof (induction s arbitrary: k rule: str_chars.induct)
  case (2 b s)
  show ?case
  proof (cases "k = 0")
    case True
    have "str_chars (concat (map snd (str_chars (b # s)))) = str_chars (b # s)" by (simp only: concat_str_chars)
    with True show ?thesis by (simp only: drop_0)
  next
    case False
    with 2 show ?thesis by (auto simp: drop_Cons' split: option.splits)
  qed
qed simp

lemma str_chars_take: "str_chars (concat (map snd (take k (str_chars s)))) = take k (str_chars s)"
proof (induction s arbitrary: k rule: str_chars.induct)
  case (2 b s)
  show ?case
  proof (cases "k = 0")
    case pos: False
    show ?thesis
    proof (cases "utf8_next b s")
      case None
      let ?p = "concat (map snd (take (k - 1) (str_chars s)))"
      have "?p @ concat (map snd (drop (k - 1) (str_chars s))) = s"
        by (simp add: concat_str_chars flip: concat_append map_append)
      then have "utf8_next b ?p = None" using None utf8_next_append [of b ?p] by (metis not_None_eq prod_cases3)
      with None pos 2(1) show ?thesis by (simp add: take_Cons')
    next
      case (Some nbr)
      obtain n bs r where nbr: "nbr = (n, bs, r)" by (metis prod_cases3)
      let ?p = "concat (map snd (take (k - 1) (str_chars r)))"
      have bs: "bs = b # tl bs" using utf8_next_split [of b s n bs r] Some nbr by (cases bs) auto
      have "str_chars (bs @ ?p) = (n, bs) # str_chars ?p"
        using utf8_next_prefix [of b s n bs r ?p] Some nbr by (subst bs) simp
      with Some nbr pos 2(2) show ?thesis by (simp add: take_Cons')
    qed
  qed simp
qed simp

lemma trim_chars_slice: "\<exists>m k. trim_chars cs = take m (drop k cs)"
  unfolding trim_chars_def dropWhile_eq_drop [of _ "rev xs" for xs] rev_drop rev_rev_ident
  unfolding dropWhile_eq_drop by blast

lemma str_chars_trim: "str_chars (trim s) = trim_chars (str_chars s)"
proof -
  obtain m k where mk: "trim_chars (str_chars s) = take m (drop k (str_chars s))" using trim_chars_slice by blast
  have "str_chars (concat (map snd (take m (drop k (str_chars s))))) = take m (drop k (str_chars s))"
    using str_chars_take [of m "concat (map snd (drop k (str_chars s)))"] by (simp add: str_chars_drop)
  then show ?thesis by (simp add: trim_def mk)
qed

lemma strip_ends_idem:
  assumes "dropWhile P ys = ys" and "rev zs = dropWhile P (rev ys)"
  shows "rev (dropWhile P (rev (dropWhile P zs))) = zs"
proof (cases "zs = []")
  case False
  have "rev ys = takeWhile P (rev ys) @ rev zs" using assms(2) by simp
  then have "ys = zs @ rev (takeWhile P (rev ys))" by (metis rev_append rev_swap)
  with False have "hd ys = hd zs" "ys \<noteq> []" by (metis hd_append2, auto)
  with assms(1) False have "dropWhile P zs = zs" by (simp add: dropWhile_eq_self_iff)
  moreover have "rev (dropWhile P (rev ys)) = zs" using arg_cong [OF assms(2), of rev] by simp
  ultimately show ?thesis using assms(2) by simp
qed simp

lemma trim_chars_idem: "trim_chars (trim_chars cs) = trim_chars cs"
  unfolding trim_chars_def
  by (rule strip_ends_idem [of _ "dropWhile (is_whitespace \<circ> fst) cs"]) (simp_all only: dropWhile_idem rev_rev_ident)

lemma trim_trim [simp]: "trim (trim s) = trim s"
  by (simp add: trim_def [of "trim s"] str_chars_trim trim_chars_idem) (simp add: trim_def)

definition to_ascii_lowercase :: "char \<Rightarrow> char" where
  "to_ascii_lowercase c =
    (if 65 \<le> (of_char c :: nat) \<and> (of_char c :: nat) \<le> 90 then char_of ((of_char c :: nat) + 32) else c)"

definition eq_ignore_ascii_case :: "string \<Rightarrow> string \<Rightarrow> bool" where
  "eq_ignore_ascii_case a b \<longleftrightarrow> map to_ascii_lowercase a = map to_ascii_lowercase b"

lemma eq_ignore_ascii_case_refl [simp]: "eq_ignore_ascii_case a a"
  by (simp add: eq_ignore_ascii_case_def)

subsection \<open>Decimal rendering (\<open>Display\<close> of the integer types)\<close>

definition digit_char :: "nat \<Rightarrow> char" where
  "digit_char d = char_of (48 + d)"

fun show_nat :: "nat \<Rightarrow> string" where
  "show_nat n = (if n < 10 then [digit_char n] else show_nat (n div 10) @ [digit_char (n mod 10)])"

declare show_nat.simps [simp del]

definition show_int :: "int \<Rightarrow> string" where
  "show_int i = (if i < 0 then ''-'' @ show_nat (nat (- i)) else show_nat (nat i))"

lemma of_char_digit: "d < 10 \<Longrightarrow> of_char (digit_char d) = 48 + d"
  by (simp add: digit_char_def)

lemma show_nat_nonempty: "show_nat n \<noteq> []" "[] \<noteq> show_nat n"
  by (subst show_nat.simps, simp)+

lemma show_nat_digits: "c \<in> set (show_nat n) \<Longrightarrow> 48 \<le> (of_char c :: nat) \<and> (of_char c :: nat) \<le> 57"
proof (induction n rule: show_nat.induct)
  case (1 n)
  show ?case
  proof (cases "n < 10")
    case True
    with "1.prems" show ?thesis by (simp add: show_nat.simps [of n] of_char_digit)
  next
    case False
    with "1.prems" "1.IH" show ?thesis
      by (auto simp: show_nat.simps [of n] of_char_digit)
  qed
qed

lemma show_nat_ascii: "ascii_str (show_nat n)"
  using show_nat_digits by (fastforce simp: ascii_str_def)

lemma digit_char_inj: "d < 10 \<Longrightarrow> e < 10 \<Longrightarrow> digit_char d = digit_char e \<longleftrightarrow> d = e"
  by (metis add_left_cancel of_char_digit)

text \<open>Different numbers are rendered differently.\<close>

lemma show_nat_inj: "show_nat m = show_nat n \<Longrightarrow> m = n"
proof (induction m arbitrary: n rule: show_nat.induct)
  case (1 m)
  have eq: "(if m < 10 then [digit_char m] else show_nat (m div 10) @ [digit_char (m mod 10)])
     = (if n < 10 then [digit_char n] else show_nat (n div 10) @ [digit_char (n mod 10)])"
    using "1.prems" by (simp only: show_nat.simps [symmetric])
  show ?case
  proof (cases "m < 10")
    case True
    with eq show ?thesis by (auto simp: digit_char_inj show_nat_nonempty split: if_splits)
  next
    case False
    with eq have "\<not> n < 10" by (auto simp: show_nat_nonempty split: if_splits)
    with eq False have "show_nat (m div 10) = show_nat (n div 10)" and "m mod 10 = n mod 10"
      by (simp_all add: digit_char_inj)
    with "1.IH" [OF False] show ?thesis by (metis div_mult_mod_eq)
  qed
qed

end
