(* ===== verification/Identifiers.thy ===== *)
theory Identifiers
  imports Rust_Str
begin

text \<open>
  Core errors and identifiers (\<open>router-core/src/error.rs\<close>, \<open>ids.rs\<close>, \<open>protocol.rs\<close>). A connection
  id is the 128-bit UUID of the source; ids are drawn by the \<open>uuid\<close> crate, so operations that
  create one take it as an argument. \<open>validate_identifier\<close> is the check every routed string
  passes; \<open>identifier_ok\<close> is its meaning and \<open>validate_fields\<close> the loop over optional fields that
  message metadata, route filters and publish commands share.
\<close>

datatype CoreError =
    InvalidIdentifier string string
  | ConnectionNotFound
  | SubscriptionExists
  | SubscriptionNotFound
  | TenantMismatch
  | SubscriptionLimitReached
  | ConnectionLimitReached
  | GlobalSubscriptionLimitReached
  | InvalidQueueCapacity nat nat
  | IncompleteRecipient
  | MissingField string

datatype DeliveryProtocol = WebSocket | Sse | Grpc | HttpWebhook

definition protocol_str :: "DeliveryProtocol \<Rightarrow> string" where
  "protocol_str p =
    (case p of
       WebSocket \<Rightarrow> ''websocket''
     | Sse \<Rightarrow> ''sse''
     | Grpc \<Rightarrow> ''grpc''
     | HttpWebhook \<Rightarrow> ''http_webhook'')"

lemma protocol_str_inj: "protocol_str p = protocol_str q \<longleftrightarrow> p = q"
  by (cases p; cases q) (simp_all add: protocol_str_def)

type_synonym connection_id = "128 word"

definition validate_identifier :: "string \<Rightarrow> string \<Rightarrow> nat \<Rightarrow> CoreError + unit" where
  "validate_identifier field value max_len =
    (if trim value = [] then Inl (InvalidIdentifier field ''must not be empty'')
     else if length value > max_len then
       Inl (InvalidIdentifier field (''must not exceed '' @ show_nat max_len @ '' bytes''))
     else if (\<exists>c\<in>set (chars value). is_control c) then
       Inl (InvalidIdentifier field ''must not contain control characters'')
     else Inr ())"

datatype SubscriptionId = SubscriptionId (as_str: string)

definition subscription_id_new :: "string \<Rightarrow> CoreError + SubscriptionId" where
  "subscription_id_new value =
    and_then (validate_identifier ''subscription_id'' value 128) (\<lambda>_. Inr (SubscriptionId value))"

text \<open>
  The loop \<open>for (field, value) in [..] { if let Some(value) = value { validate_identifier(..)? } }\<close>.
\<close>

fun validate_fields :: "nat \<Rightarrow> (string \<times> string option) list \<Rightarrow> CoreError + unit" where
  "validate_fields max_len [] = Inr ()"
| "validate_fields max_len ((field, None) # rest) = validate_fields max_len rest"
| "validate_fields max_len ((field, Some value) # rest) =
     and_then (validate_identifier field value max_len) (\<lambda>_. validate_fields max_len rest)"

subsection \<open>What the checks mean\<close>

definition identifier_ok :: "nat \<Rightarrow> string \<Rightarrow> bool" where
  "identifier_ok max_len value \<longleftrightarrow>
    (\<exists>c\<in>set (chars value). \<not> is_whitespace c) \<and> length value \<le> max_len
    \<and> (\<forall>c\<in>set (chars value). \<not> is_control c)"

lemma validate_identifier_Inr [validate_simps]:
  "validate_identifier field value n = Inr u \<longleftrightarrow> identifier_ok n value"
  by (auto simp: validate_identifier_def identifier_ok_def trim_empty_iff)

lemma validate_identifier_Inl:
  "validate_identifier field value n = Inl e \<Longrightarrow>
     (\<exists>r. e = InvalidIdentifier field r) \<and> \<not> identifier_ok n value"
  by (auto simp: validate_identifier_def identifier_ok_def trim_empty_iff split: if_splits)

lemma validate_fields_Inr [validate_simps]:
  "validate_fields n fs = Inr u \<longleftrightarrow> (\<forall>(f, v)\<in>set fs. \<forall>x. v = Some x \<longrightarrow> identifier_ok n x)"
  by (induction n fs rule: validate_fields.induct) (auto simp: result_simps validate_simps)

lemma validate_fields_Inl:
  "validate_fields n fs = Inl e \<Longrightarrow>
     \<exists>f v r. (f, Some v) \<in> set fs \<and> e = InvalidIdentifier f r \<and> \<not> identifier_ok n v"
  by (induction n fs rule: validate_fields.induct)
    (auto simp: result_simps dest!: validate_identifier_Inl)

lemma subscription_id_new_Inr [validate_simps]:
  "subscription_id_new v = Inr sid \<longleftrightarrow> sid = SubscriptionId v \<and> identifier_ok 128 v"
  by (auto simp: subscription_id_new_def result_simps validate_simps)

lemma identifier_ok_nonempty: "identifier_ok n v \<Longrightarrow> v \<noteq> []"
  by (auto simp: identifier_ok_def chars_def)

lemma identifier_ok_mono: "identifier_ok m v \<Longrightarrow> m \<le> n \<Longrightarrow> identifier_ok n v"
  by (auto simp: identifier_ok_def)

lemma identifier_ok_printable:
  assumes "\<forall>c\<in>set v. 0x21 \<le> (of_char c :: nat) \<and> (of_char c :: nat) \<le> 0x7E"
    and "v \<noteq> []" and "length v \<le> n"
  shows "identifier_ok n v"
proof -
  have "ascii_str v" using assms(1) by (auto simp: ascii_str_def)
  then have "chars v = map of_char v" by (simp add: chars_def str_chars_ascii o_def)
  moreover have "\<not> is_whitespace k" "\<not> is_control k" if "0x21 \<le> k" "k \<le> 0x7E" for k :: nat
    using that by (auto simp: is_whitespace_def is_control_def)
  ultimately show ?thesis using assms by (cases v) (auto simp: identifier_ok_def)
qed

text \<open>The validator decides exactly \<open>identifier_ok\<close>, on ascii input by looking at the bytes.\<close>

lemma identifier_ok_ascii [simp]:
  "ascii_str v \<Longrightarrow> identifier_ok n v \<longleftrightarrow>
    (\<exists>c\<in>set v. \<not> is_whitespace (of_char c)) \<and> length v \<le> n \<and> (\<forall>c\<in>set v. \<not> is_control (of_char c))"
  by (auto simp: identifier_ok_def chars_def str_chars_ascii)

end
