(* ===== verification/Message.thy ===== *)
theory Message
  imports Identifiers
begin

text \<open>
  Routed messages (\<open>router-core/src/message.rs\<close>). Strings shared through \<open>Arc<str>\<close> are values;
  the lazily filled \<open>cached_payload_json\<close> cell is a cache of a function of the payload and content
  type and is left out of the record. Timestamps and Kafka coordinates are signed machine integers
  that the router never computes with.
\<close>

record KafkaPosition =
  kp_topic :: string
  kp_partition :: int
  kp_offset :: int

record RoutingMetadata =
  md_message_id :: string
  md_tenant_id :: string
  md_kind :: "string option"
  md_message_type :: "string option"
  md_channel :: "string option"
  md_actor_id :: "string option"
  md_recipient_type :: "string option"
  md_recipient_identity :: "string option"
  md_content_type :: string
  md_timestamp_ms :: "int option"
  md_source :: "KafkaPosition option"

definition metadata_validate :: "RoutingMetadata \<Rightarrow> CoreError + unit" where
  "metadata_validate md =
    and_then (validate_identifier ''message_id'' (md_message_id md) 256) (\<lambda>_.
    and_then (validate_identifier ''tenant_id'' (md_tenant_id md) 256) (\<lambda>_.
    and_then (validate_identifier ''content_type'' (md_content_type md) 256) (\<lambda>_.
    and_then (validate_fields 256
      [(''kind'', md_kind md), (''type'', md_message_type md), (''channel'', md_channel md),
       (''actor_id'', md_actor_id md), (''recipient_type'', md_recipient_type md),
       (''recipient_identity'', md_recipient_identity md)]) (\<lambda>_.
    if (md_recipient_type md \<noteq> None) \<noteq> (md_recipient_identity md \<noteq> None)
    then Inl IncompleteRecipient else Inr ()))))"

record TraceContext =
  tc_traceparent :: string
  tc_tracestate :: "string option"

definition trace_context_new :: "string \<Rightarrow> string option \<Rightarrow> CoreError + TraceContext" where
  "trace_context_new traceparent tracestate =
    and_then (validate_identifier ''traceparent'' traceparent 256) (\<lambda>_.
    and_then (case tracestate of None \<Rightarrow> Inr ()
              | Some ts \<Rightarrow> validate_identifier ''tracestate'' ts 512) (\<lambda>_.
    Inr \<lparr>tc_traceparent = traceparent, tc_tracestate = tracestate\<rparr>))"

text \<open>The \<open>Extractor\<close> the OpenTelemetry propagator reads the headers through.\<close>

definition extractor_get :: "TraceContext \<Rightarrow> string \<Rightarrow> string option" where
  "extractor_get tc key =
    (if key = ''traceparent'' then Some (tc_traceparent tc)
     else if key = ''tracestate'' then tc_tracestate tc else None)"

definition extractor_keys :: "TraceContext \<Rightarrow> string list" where
  "extractor_keys tc =
    (if tc_tracestate tc \<noteq> None then [''traceparent'', ''tracestate''] else [''traceparent''])"

record RoutedMessage =
  rm_metadata :: RoutingMetadata
  rm_payload :: string
  rm_trace_context :: "TraceContext option"

definition message_new_with_trace_context ::
  "RoutingMetadata \<Rightarrow> string \<Rightarrow> TraceContext option \<Rightarrow> CoreError + RoutedMessage" where
  "message_new_with_trace_context metadata payload trace_context =
    and_then (metadata_validate metadata) (\<lambda>_.
    Inr \<lparr>rm_metadata = metadata, rm_payload = payload, rm_trace_context = trace_context\<rparr>)"

definition message_new :: "RoutingMetadata \<Rightarrow> string \<Rightarrow> CoreError + RoutedMessage" where
  "message_new metadata payload = message_new_with_trace_context metadata payload None"

definition has_trace_context :: "RoutedMessage \<Rightarrow> bool" where
  "has_trace_context m \<longleftrightarrow> rm_trace_context m \<noteq> None"

subsection \<open>What a constructed message satisfies\<close>

definition opt_identifier_ok :: "string option \<Rightarrow> bool" where
  "opt_identifier_ok v \<longleftrightarrow> (case v of None \<Rightarrow> True | Some x \<Rightarrow> identifier_ok 256 x)"

lemma opt_identifier_ok_simps [simp]:
  "opt_identifier_ok None" "opt_identifier_ok (Some x) \<longleftrightarrow> identifier_ok 256 x"
  by (simp_all add: opt_identifier_ok_def)

definition metadata_valid :: "RoutingMetadata \<Rightarrow> bool" where
  "metadata_valid md \<longleftrightarrow>
    identifier_ok 256 (md_message_id md) \<and> identifier_ok 256 (md_tenant_id md)
    \<and> identifier_ok 256 (md_content_type md) \<and> opt_identifier_ok (md_kind md)
    \<and> opt_identifier_ok (md_message_type md) \<and> opt_identifier_ok (md_channel md)
    \<and> opt_identifier_ok (md_actor_id md) \<and> opt_identifier_ok (md_recipient_type md)
    \<and> opt_identifier_ok (md_recipient_identity md)
    \<and> (md_recipient_type md = None \<longleftrightarrow> md_recipient_identity md = None)"

definition message_valid :: "RoutedMessage \<Rightarrow> bool" where
  "message_valid m \<longleftrightarrow> metadata_valid (rm_metadata m)"

lemma metadata_validate_Inr [validate_simps]: "metadata_validate md = Inr u \<longleftrightarrow> metadata_valid md"
  by (auto simp: metadata_validate_def metadata_valid_def opt_identifier_ok_def result_simps
      validate_simps split: option.splits if_splits)

lemma message_new_with_trace_context_Inr [validate_simps]:
  "message_new_with_trace_context md p tc = Inr m \<longleftrightarrow>
     m = \<lparr>rm_metadata = md, rm_payload = p, rm_trace_context = tc\<rparr> \<and> metadata_valid md"
  by (auto simp: message_new_with_trace_context_def result_simps validate_simps)

lemma trace_context_new_Inr [validate_simps]:
  "trace_context_new tp ts = Inr tc \<longleftrightarrow>
     tc = \<lparr>tc_traceparent = tp, tc_tracestate = ts\<rparr> \<and> identifier_ok 256 tp
     \<and> (case ts of None \<Rightarrow> True | Some t \<Rightarrow> identifier_ok 512 t)"
  by (auto simp: trace_context_new_def result_simps validate_simps split: option.splits)

lemma extractor_keys_get:
  "k \<in> set (extractor_keys tc) \<longleftrightarrow> extractor_get tc k \<noteq> None"
  by (auto simp: extractor_keys_def extractor_get_def)

end
