(* ===== verification/Publish.thy ===== *)
theory Publish
  imports Message
begin

text \<open>
  The transport-neutral publish API (\<open>router-core/src/publisher.rs\<close>) and the display texts of the
  core errors (\<open>error.rs\<close>). Parsing a MIME type is done by the \<open>mime\<close> crate: \<open>mime_parse\<close> is a
  parameter that returns the type and the subtype, or \<open>None\<close>.
\<close>

fun core_error_display :: "CoreError \<Rightarrow> string" where
  "core_error_display (InvalidIdentifier field reason) = ''invalid '' @ field @ '': '' @ reason"
| "core_error_display ConnectionNotFound = ''connection does not exist''"
| "core_error_display SubscriptionExists = ''subscription already exists''"
| "core_error_display SubscriptionNotFound = ''subscription does not exist''"
| "core_error_display TenantMismatch = ''subscription tenant differs from connection tenant''"
| "core_error_display SubscriptionLimitReached = ''connection subscription limit reached''"
| "core_error_display ConnectionLimitReached = ''connection limit reached''"
| "core_error_display GlobalSubscriptionLimitReached = ''subscription limit reached''"
| "core_error_display (InvalidQueueCapacity requested maximum) =
     ''queue capacity '' @ show_nat requested @ '' must be between 1 and '' @ show_nat maximum"
| "core_error_display IncompleteRecipient =
     ''recipient_type and recipient_identity must either both be set or both be absent''"
| "core_error_display (MissingField f) = ''missing mandatory routing field: '' @ f"

record PublishCommand =
  pc_message_id :: string
  pc_tenant_id :: string
  pc_kind :: "string option"
  pc_message_type :: "string option"
  pc_channel :: "string option"
  pc_actor_id :: "string option"
  pc_recipient_type :: "string option"
  pc_recipient_identity :: "string option"
  pc_ordering_key :: "string option"
  pc_content_type :: string
  pc_payload :: string

record PublishReceipt =
  pr_message_id :: string
  pr_topic :: string
  pr_partition :: int
  pr_offset :: int

datatype PublishErrorKind = InvalidInput | Timeout | QueueFull | Backend

record PublishError =
  pe_kind :: PublishErrorKind
  pe_message :: string

definition publish_error_invalid_input :: "string \<Rightarrow> PublishError" where
  "publish_error_invalid_input msg = \<lparr>pe_kind = InvalidInput, pe_message = msg\<rparr>"

definition publish_error_backend :: "string \<Rightarrow> PublishError" where
  "publish_error_backend msg = \<lparr>pe_kind = Backend, pe_message = msg\<rparr>"

definition publish_error_timeout :: "string \<Rightarrow> PublishError" where
  "publish_error_timeout msg = \<lparr>pe_kind = Timeout, pe_message = msg\<rparr>"

definition publish_error_queue_full :: "string \<Rightarrow> PublishError" where
  "publish_error_queue_full msg = \<lparr>pe_kind = QueueFull, pe_message = msg\<rparr>"

definition command_metadata :: "PublishCommand \<Rightarrow> RoutingMetadata" where
  "command_metadata c =
    \<lparr>md_message_id = pc_message_id c, md_tenant_id = pc_tenant_id c, md_kind = pc_kind c,
     md_message_type = pc_message_type c, md_channel = pc_channel c, md_actor_id = pc_actor_id c,
     md_recipient_type = pc_recipient_type c, md_recipient_identity = pc_recipient_identity c,
     md_content_type = pc_content_type c, md_timestamp_ms = None, md_source = None\<rparr>"

definition command_validate ::
  "(string \<Rightarrow> (string \<times> string) option) \<Rightarrow> PublishCommand \<Rightarrow> PublishError + unit" where
  "command_validate mime_parse c =
    and_then (map_err (\<lambda>e. publish_error_invalid_input (core_error_display e))
      (metadata_validate (command_metadata c))) (\<lambda>_.
    case mime_parse (pc_content_type c) of
      None \<Rightarrow> Inl (publish_error_invalid_input ''content_type must be a valid MIME type'')
    | Some (type, subtype) \<Rightarrow>
        if type = ''*'' \<or> subtype = ''*''
        then Inl (publish_error_invalid_input ''content_type wildcards are not allowed'')
        else (case pc_ordering_key c of
                None \<Rightarrow> Inr ()
              | Some k \<Rightarrow> map_err (\<lambda>e. publish_error_invalid_input (core_error_display e))
                  (validate_identifier ''ordering_key'' k 256)))"

lemma command_validate_Inr [validate_simps]:
  "command_validate mime c = Inr u \<longleftrightarrow>
     metadata_valid (command_metadata c)
     \<and> (case mime (pc_content_type c) of None \<Rightarrow> False | Some (a, b) \<Rightarrow> a \<noteq> ''*'' \<and> b \<noteq> ''*'')
     \<and> (case pc_ordering_key c of None \<Rightarrow> True | Some k \<Rightarrow> identifier_ok 256 k)"
  by (auto simp: command_validate_def result_simps validate_simps split: option.splits)

text \<open>Every validation failure is reported as invalid input, never as a backend failure.\<close>

lemma command_validate_Inl:
  "command_validate mime c = Inl e \<Longrightarrow> pe_kind e = InvalidInput"
  by (auto simp: command_validate_def result_simps publish_error_invalid_input_def
      split: option.splits if_splits)

end
