(* ===== verification/Route.thy ===== *)
theory Route
  imports Message
begin

text \<open>
  Route filters and the compiled index keys (\<open>router-core/src/route.rs\<close>). \<open>filter_matches\<close> is the
  reference matcher, \<open>route_key_of\<close> the key a filter is stored under and \<open>candidates\<close> the keys a
  message is looked up under. The main lemma, \<open>route_key_candidate_iff\<close>, is that the direct hash
  lookups find exactly the filters the reference matcher accepts.
\<close>

record RouteFilter =
  rf_tenant_id :: string
  rf_kind :: "string option"
  rf_message_type :: "string option"
  rf_channel :: "string option"
  rf_actor_id :: "string option"
  rf_recipient_type :: "string option"
  rf_recipient_identity :: "string option"

definition filter_validate :: "RouteFilter \<Rightarrow> CoreError + unit" where
  "filter_validate f =
    and_then (validate_identifier ''tenant_id'' (rf_tenant_id f) 256) (\<lambda>_.
    and_then (validate_fields 256
      [(''kind'', rf_kind f), (''type'', rf_message_type f), (''channel'', rf_channel f),
       (''actor_id'', rf_actor_id f), (''recipient_type'', rf_recipient_type f),
       (''recipient_identity'', rf_recipient_identity f)]) (\<lambda>_.
    if (rf_recipient_type f \<noteq> None) \<noteq> (rf_recipient_identity f \<noteq> None)
    then Inl IncompleteRecipient else Inr ()))"

definition optional_matches :: "string option \<Rightarrow> string option \<Rightarrow> bool" where
  "optional_matches expected actual \<longleftrightarrow>
    (case expected of None \<Rightarrow> True | Some e \<Rightarrow> actual = Some e)"

definition recipient_matches ::
  "string option \<Rightarrow> string option \<Rightarrow> string option \<Rightarrow> string option \<Rightarrow> bool" where
  "recipient_matches expected_type expected_identity actual_type actual_identity \<longleftrightarrow>
    (case (expected_type, expected_identity) of
       (None, None) \<Rightarrow> True
     | (Some et, Some ei) \<Rightarrow> actual_type = Some et \<and> actual_identity = Some ei
     | _ \<Rightarrow> False)"

definition filter_matches :: "RouteFilter \<Rightarrow> RoutingMetadata \<Rightarrow> bool" where
  "filter_matches f md \<longleftrightarrow>
    rf_tenant_id f = md_tenant_id md
    \<and> optional_matches (rf_kind f) (md_kind md)
    \<and> optional_matches (rf_message_type f) (md_message_type md)
    \<and> optional_matches (rf_channel f) (md_channel md)
    \<and> optional_matches (rf_actor_id f) (md_actor_id md)
    \<and> recipient_matches (rf_recipient_type f) (rf_recipient_identity f)
        (md_recipient_type md) (md_recipient_identity md)"

record RecipientKey =
  rk_recipient_type :: string
  rk_recipient_identity :: string

definition recipient_key :: "string option \<Rightarrow> string option \<Rightarrow> RecipientKey option" where
  "recipient_key recipient_type recipient_identity =
    (case (recipient_type, recipient_identity) of
       (Some t, Some i) \<Rightarrow> Some \<lparr>rk_recipient_type = t, rk_recipient_identity = i\<rparr>
     | _ \<Rightarrow> None)"

record RouteKey =
  rk_tenant_id :: string
  rk_kind :: "string option"
  rk_message_type :: "string option"
  rk_channel :: "string option"
  rk_actor_id :: "string option"
  rk_recipient :: "RecipientKey option"

definition route_key_of :: "RouteFilter \<Rightarrow> RouteKey" where
  "route_key_of f =
    \<lparr>rk_tenant_id = rf_tenant_id f, rk_kind = rf_kind f, rk_message_type = rf_message_type f,
     rk_channel = rf_channel f, rk_actor_id = rf_actor_id f,
     rk_recipient = recipient_key (rf_recipient_type f) (rf_recipient_identity f)\<rparr>"

text \<open>
  The macro \<open>branch_wildcard!\<close>: the loop over \<open>0..original_len\<close> appends, for every key present
  before it, the same key with one field set to the wildcard.
\<close>

definition branch_wildcard :: "(RouteKey \<Rightarrow> RouteKey) \<Rightarrow> bool \<Rightarrow> RouteKey list \<Rightarrow> RouteKey list" where
  "branch_wildcard clear populated keys = (if populated then keys @ map clear keys else keys)"

definition exact_key :: "RoutingMetadata \<Rightarrow> RouteKey" where
  "exact_key md =
    \<lparr>rk_tenant_id = md_tenant_id md, rk_kind = md_kind md, rk_message_type = md_message_type md,
     rk_channel = md_channel md, rk_actor_id = md_actor_id md,
     rk_recipient = recipient_key (md_recipient_type md) (md_recipient_identity md)\<rparr>"

definition candidates :: "RoutingMetadata \<Rightarrow> RouteKey list" where
  "candidates md =
    (let keys = [exact_key md];
         keys = branch_wildcard (rk_kind_update (\<lambda>_. None)) (md_kind md \<noteq> None) keys;
         keys = branch_wildcard (rk_message_type_update (\<lambda>_. None)) (md_message_type md \<noteq> None) keys;
         keys = branch_wildcard (rk_channel_update (\<lambda>_. None)) (md_channel md \<noteq> None) keys;
         keys = branch_wildcard (rk_actor_id_update (\<lambda>_. None)) (md_actor_id md \<noteq> None) keys;
         keys = branch_wildcard (rk_recipient_update (\<lambda>_. None)) (md_recipient_type md \<noteq> None) keys
     in keys)"

subsection \<open>Validated filters\<close>

definition filter_valid :: "RouteFilter \<Rightarrow> bool" where
  "filter_valid f \<longleftrightarrow>
    identifier_ok 256 (rf_tenant_id f) \<and> opt_identifier_ok (rf_kind f)
    \<and> opt_identifier_ok (rf_message_type f) \<and> opt_identifier_ok (rf_channel f)
    \<and> opt_identifier_ok (rf_actor_id f) \<and> opt_identifier_ok (rf_recipient_type f)
    \<and> opt_identifier_ok (rf_recipient_identity f)
    \<and> (rf_recipient_type f = None \<longleftrightarrow> rf_recipient_identity f = None)"

lemma filter_validate_Inr [validate_simps]: "filter_validate f = Inr u \<longleftrightarrow> filter_valid f"
  by (auto simp: filter_validate_def filter_valid_def opt_identifier_ok_def result_simps
      validate_simps split: option.splits if_splits)

lemma filter_valid_recipient:
  "filter_valid f \<Longrightarrow> rf_recipient_type f = None \<longleftrightarrow> rf_recipient_identity f = None"
  by (simp add: filter_valid_def)

lemma metadata_valid_recipient:
  "metadata_valid md \<Longrightarrow> md_recipient_type md = None \<longleftrightarrow> md_recipient_identity md = None"
  by (simp add: metadata_valid_def)

subsection \<open>Candidates and the reference matcher\<close>

text \<open>
  A key is \<open>generalises\<close> the exact key of a message when each of its fields is the wildcard or the
  message's value. This is the set of candidates, whatever the populated dimensions are.
\<close>

definition generalises :: "RouteKey \<Rightarrow> RouteKey \<Rightarrow> bool" where
  "generalises k e \<longleftrightarrow>
    rk_tenant_id k = rk_tenant_id e
    \<and> (rk_kind k = None \<or> rk_kind k = rk_kind e)
    \<and> (rk_message_type k = None \<or> rk_message_type k = rk_message_type e)
    \<and> (rk_channel k = None \<or> rk_channel k = rk_channel e)
    \<and> (rk_actor_id k = None \<or> rk_actor_id k = rk_actor_id e)
    \<and> (rk_recipient k = None \<or> rk_recipient k = rk_recipient e)"

lemma length_branch_wildcard:
  "length (branch_wildcard c p ks) = (if p then 2 else 1) * length ks"
  by (simp add: branch_wildcard_def)

text \<open>
  One branching step on a field that is read by \<open>get\<close> and written by \<open>upd\<close>: when the keys so far
  are those with property \<open>Q\<close>, which does not look at the field, and value \<open>v\<close> in it, the new keys
  are those with \<open>Q\<close> and either \<open>v\<close> or the wildcard, each once.
\<close>

lemma branch_wildcard_step:
  fixes get :: "RouteKey \<Rightarrow> 'a option" and upd :: "'a option \<Rightarrow> RouteKey \<Rightarrow> RouteKey"
  assumes lens: "\<And>x y k. upd x (upd y k) = upd x k" "\<And>k. upd (get k) k = k" "\<And>x k. get (upd x k) = x"
    and Q: "\<And>x k. Q (upd x k) = Q k"
    and ks: "distinct ks" "\<And>k. k \<in> set ks \<longleftrightarrow> Q k \<and> get k = v"
    and p: "p \<longleftrightarrow> v \<noteq> None"
  shows "distinct (branch_wildcard (upd None) p ks)
    \<and> (\<forall>k. k \<in> set (branch_wildcard (upd None) p ks) \<longleftrightarrow> Q k \<and> (get k = None \<or> get k = v))"
proof (cases p)
  case False
  with ks p show ?thesis by (auto simp: branch_wildcard_def)
next
  case True
  have restore: "upd v (upd None k) = k" if "k \<in> set ks" for k
    using that ks(2) lens(1,2) by metis
  then have "inj_on (upd None) (set ks)" by (metis inj_onI)
  moreover have "set ks \<inter> upd None ` set ks = {}"
    using ks(2) lens(3) p True by fastforce
  moreover have "k \<in> upd None ` set ks \<longleftrightarrow> Q k \<and> get k = None" for k
  proof
    assume "k \<in> upd None ` set ks"
    then show "Q k \<and> get k = None" using ks(2) Q lens(3) by auto
  next
    assume "Q k \<and> get k = None"
    then have "upd v k \<in> set ks" and "upd None (upd v k) = k"
      using ks(2) Q lens by (auto, metis)
    then show "k \<in> upd None ` set ks" by (metis imageI)
  qed
  ultimately show ?thesis using ks True by (auto simp: branch_wildcard_def distinct_map)
qed

text \<open>
  The five steps; \<open>wild\<close> abbreviates "the wildcard or the value".
\<close>

abbreviation wild :: "'a option \<Rightarrow> 'a option \<Rightarrow> bool" where
  "wild x v \<equiv> x = None \<or> x = v"

lemma candidates_distinct_set:
  assumes paired: "md_recipient_type md = None \<longleftrightarrow> md_recipient_identity md = None"
  shows "distinct (candidates md) \<and> (\<forall>k. k \<in> set (candidates md) \<longleftrightarrow> generalises k (exact_key md))"
proof -
  obtain t kd mt ch ac rc where e: "exact_key md = \<lparr>rk_tenant_id = t, rk_kind = kd,
      rk_message_type = mt, rk_channel = ch, rk_actor_id = ac, rk_recipient = rc\<rparr>"
    by (cases "exact_key md") blast
  have pop: "md_kind md \<noteq> None \<longleftrightarrow> kd \<noteq> None" "md_message_type md \<noteq> None \<longleftrightarrow> mt \<noteq> None"
    "md_channel md \<noteq> None \<longleftrightarrow> ch \<noteq> None" "md_actor_id md \<noteq> None \<longleftrightarrow> ac \<noteq> None"
    "md_recipient_type md \<noteq> None \<longleftrightarrow> rc \<noteq> None"
    using e paired by (auto simp: exact_key_def recipient_key_def split: option.splits)
  define k1 where "k1 = branch_wildcard (rk_kind_update (\<lambda>_. None)) (kd \<noteq> None) [exact_key md]"
  define k2 where "k2 = branch_wildcard (rk_message_type_update (\<lambda>_. None)) (mt \<noteq> None) k1"
  define k3 where "k3 = branch_wildcard (rk_channel_update (\<lambda>_. None)) (ch \<noteq> None) k2"
  define k4 where "k4 = branch_wildcard (rk_actor_id_update (\<lambda>_. None)) (ac \<noteq> None) k3"
  define k5 where "k5 = branch_wildcard (rk_recipient_update (\<lambda>_. None)) (rc \<noteq> None) k4"
  have s1: "distinct k1 \<and> (\<forall>k. k \<in> set k1 \<longleftrightarrow> (rk_tenant_id k = t \<and> rk_message_type k = mt
      \<and> rk_channel k = ch \<and> rk_actor_id k = ac \<and> rk_recipient k = rc) \<and> wild (rk_kind k) kd)"
    unfolding k1_def e
    by (rule branch_wildcard_step [where upd = "\<lambda>x. rk_kind_update (\<lambda>_. x)"])
      (auto intro: RouteKey.equality)
  have s2: "distinct k2 \<and> (\<forall>k. k \<in> set k2 \<longleftrightarrow> (rk_tenant_id k = t \<and> wild (rk_kind k) kd
      \<and> rk_channel k = ch \<and> rk_actor_id k = ac \<and> rk_recipient k = rc) \<and> wild (rk_message_type k) mt)"
    unfolding k2_def
    by (rule branch_wildcard_step [where upd = "\<lambda>x. rk_message_type_update (\<lambda>_. x)"])
      (simp_all add: s1 conj_ac)
  have s3: "distinct k3 \<and> (\<forall>k. k \<in> set k3 \<longleftrightarrow> (rk_tenant_id k = t \<and> wild (rk_kind k) kd
      \<and> wild (rk_message_type k) mt \<and> rk_actor_id k = ac \<and> rk_recipient k = rc) \<and> wild (rk_channel k) ch)"
    unfolding k3_def
    by (rule branch_wildcard_step [where upd = "\<lambda>x. rk_channel_update (\<lambda>_. x)"])
      (simp_all add: s2 conj_ac)
  have s4: "distinct k4 \<and> (\<forall>k. k \<in> set k4 \<longleftrightarrow> (rk_tenant_id k = t \<and> wild (rk_kind k) kd
      \<and> wild (rk_message_type k) mt \<and> wild (rk_channel k) ch \<and> rk_recipient k = rc) \<and> wild (rk_actor_id k) ac)"
    unfolding k4_def
    by (rule branch_wildcard_step [where upd = "\<lambda>x. rk_actor_id_update (\<lambda>_. x)"])
      (simp_all add: s3 conj_ac)
  have s5: "distinct k5 \<and> (\<forall>k. k \<in> set k5 \<longleftrightarrow> (rk_tenant_id k = t \<and> wild (rk_kind k) kd
      \<and> wild (rk_message_type k) mt \<and> wild (rk_channel k) ch \<and> wild (rk_actor_id k) ac) \<and> wild (rk_recipient k) rc)"
    unfolding k5_def
    by (rule branch_wildcard_step [where upd = "\<lambda>x. rk_recipient_update (\<lambda>_. x)"])
      (simp_all add: s4 conj_ac)
  have "candidates md = k5"
    unfolding candidates_def Let_def k1_def k2_def k3_def k4_def k5_def pop ..
  then show ?thesis using s5 by (simp add: generalises_def e conj_ac)
qed

lemmas candidates_distinct = candidates_distinct_set [THEN conjunct1]
lemmas set_candidates = candidates_distinct_set [THEN conjunct2, rule_format]

lemma optional_matches_wild: "optional_matches x v \<longleftrightarrow> wild x v"
  by (cases x) (auto simp: optional_matches_def)

lemma recipient_matches_wild:
  "a = None \<longleftrightarrow> b = None \<Longrightarrow>
   recipient_matches a b c d \<longleftrightarrow> wild (recipient_key a b) (recipient_key c d)"
  by (cases a; cases b; cases c; cases d) (auto simp: recipient_matches_def recipient_key_def)

lemma generalises_iff_matches:
  assumes "rf_recipient_type f = None \<longleftrightarrow> rf_recipient_identity f = None"
  shows "generalises (route_key_of f) (exact_key md) \<longleftrightarrow> filter_matches f md"
  by (simp only: generalises_def route_key_of_def exact_key_def filter_matches_def
      optional_matches_wild recipient_matches_wild [OF assms] RouteKey.simps)

lemma route_key_candidate_iff:
  assumes "filter_valid f" and "metadata_valid md"
  shows "route_key_of f \<in> set (candidates md) \<longleftrightarrow> filter_matches f md"
  using assms
  by (simp add: set_candidates generalises_iff_matches filter_valid_recipient metadata_valid_recipient)

text \<open>The number of lookups: doubled by every populated dimension, so at most 32.\<close>

definition populated_dimensions :: "RoutingMetadata \<Rightarrow> nat" where
  "populated_dimensions md =
    length (filter (\<lambda>v. v \<noteq> None)
      [md_kind md, md_message_type md, md_channel md, md_actor_id md, md_recipient_type md])"

lemma length_candidates: "length (candidates md) = 2 ^ populated_dimensions md"
  by (simp add: candidates_def length_branch_wildcard populated_dimensions_def)

lemma populated_dimensions_le: "populated_dimensions md \<le> 5"
  by (simp add: populated_dimensions_def)

lemma branch_wildcard_tenant:
  assumes "\<And>k. rk_tenant_id (c k) = rk_tenant_id k" and "\<forall>k\<in>set ks. rk_tenant_id k = t"
  shows "\<forall>k\<in>set (branch_wildcard c p ks). rk_tenant_id k = t"
  using assms by (auto simp: branch_wildcard_def)

lemma candidate_tenant: "\<forall>k\<in>set (candidates md). rk_tenant_id k = md_tenant_id md"
  unfolding candidates_def Let_def
  by (intro branch_wildcard_tenant) (simp_all add: exact_key_def)

lemma matches_tenant: "filter_matches f md \<Longrightarrow> rf_tenant_id f = md_tenant_id md"
  by (simp add: filter_matches_def)

text \<open>The key determines a validated filter, so a bucket of the index belongs to one filter.\<close>

lemma recipient_key_inj:
  assumes "a = None \<longleftrightarrow> b = None" and "c = None \<longleftrightarrow> d = None" and "recipient_key a b = recipient_key c d"
  shows "a = c \<and> b = d"
  using assms by (cases a; cases b; cases c; cases d) (simp_all add: recipient_key_def)

lemma route_key_of_inj:
  assumes "filter_valid f" and "filter_valid g" and "route_key_of f = route_key_of g"
  shows "f = g"
proof -
  have "recipient_key (rf_recipient_type f) (rf_recipient_identity f)
      = recipient_key (rf_recipient_type g) (rf_recipient_identity g)"
    using assms(3) by (simp add: route_key_of_def)
  from recipient_key_inj [OF filter_valid_recipient [OF assms(1)] filter_valid_recipient [OF assms(2)] this]
  have "rf_recipient_type f = rf_recipient_type g"
    and "rf_recipient_identity f = rf_recipient_identity g"
    by simp_all
  with assms(3) show ?thesis by (intro RouteFilter.equality) (simp_all add: route_key_of_def)
qed

end
