(* ===== verification/Metrics.thy ===== *)
theory Metrics
  imports Identifiers
begin

text \<open>
  Process counters (\<open>router-core/src/metrics.rs\<close>). An \<open>AtomicU64\<close> is a 64-bit word: \<open>fetch_add\<close>
  wraps, \<open>decrement\<close> saturates at 0. The gauges \<open>active_connections\<close> and \<open>active_subscriptions\<close>
  are arrays indexed by \<open>protocol_index\<close>. A duration is its exact number of nanoseconds: the
  bucket bounds of the source are decimal fractions of a second, every one of them a whole number
  of nanoseconds, and \<open>as_secs_f64\<close> is a monotone function whose value at such a bound is the
  double the literal denotes, so comparing nanoseconds decides the source's comparison of doubles.
  A snapshot loads every counter; the loads of one call are read at one moment.
\<close>

type_synonym u64 = "64 word"

subsection \<open>Histograms\<close>

definition latency_buckets_nanos :: "nat list" where
  "latency_buckets_nanos =
    [10000, 50000, 100000, 250000, 500000, 1000000, 2500000, 5000000, 10000000, 25000000,
     50000000, 100000000, 500000000, 1000000000]"

datatype LatencyStage =
  Decode | Match | Enqueue | ProtocolWrite | WebhookAttempt | Publish | EndToEnd

definition latency_all :: "LatencyStage list" where
  "latency_all = [Decode, Match, Enqueue, ProtocolWrite, WebhookAttempt, Publish, EndToEnd]"

definition latency_index :: "LatencyStage \<Rightarrow> nat" where
  "latency_index s =
    (case s of Decode \<Rightarrow> 0 | Match \<Rightarrow> 1 | Enqueue \<Rightarrow> 2 | ProtocolWrite \<Rightarrow> 3
     | WebhookAttempt \<Rightarrow> 4 | Publish \<Rightarrow> 5 | EndToEnd \<Rightarrow> 6)"

definition latency_label :: "LatencyStage \<Rightarrow> string" where
  "latency_label s =
    (case s of
       Decode \<Rightarrow> ''decode''
     | Match \<Rightarrow> ''match''
     | Enqueue \<Rightarrow> ''enqueue''
     | ProtocolWrite \<Rightarrow> ''protocol_write''
     | WebhookAttempt \<Rightarrow> ''webhook_attempt''
     | Publish \<Rightarrow> ''publish''
     | EndToEnd \<Rightarrow> ''end_to_end'')"

record Histogram =
  hg_buckets :: "u64 list"
  hg_count :: u64
  hg_sum_micros :: u64

definition histogram_default :: Histogram where
  "histogram_default =
    \<lparr>hg_buckets = replicate (length latency_buckets_nanos) 0, hg_count = 0, hg_sum_micros = 0\<rparr>"

text \<open>\<open>Iterator::position\<close>: the index of the first element with the property.\<close>

fun position :: "('a \<Rightarrow> bool) \<Rightarrow> 'a list \<Rightarrow> nat option" where
  "position p [] = None"
| "position p (x # xs) = (if p x then Some 0 else map_option Suc (position p xs))"

definition observe :: "nat \<Rightarrow> Histogram \<Rightarrow> Histogram" where
  "observe nanos h =
    (let h = (case position (\<lambda>upper. nanos \<le> upper) latency_buckets_nanos of
                Some bucket \<Rightarrow> h\<lparr>hg_buckets := (hg_buckets h)[bucket := hg_buckets h ! bucket + 1]\<rparr>
              | None \<Rightarrow> h);
         h = h\<lparr>hg_count := hg_count h + 1\<rparr>;
         micros = (if nanos div 1000 < 2 ^ 64 then of_nat (nanos div 1000) else - 1)
     in h\<lparr>hg_sum_micros := hg_sum_micros h + micros\<rparr>)"

subsection \<open>The registry\<close>

datatype PublishProtocol = PublishHttp | PublishGrpc

record Metrics =
  mt_kafka_messages :: u64
  mt_kafka_bytes :: u64
  mt_kafka_commit_errors :: u64
  mt_kafka_rebalance_assignments :: u64
  mt_kafka_rebalance_revocations :: u64
  mt_kafka_rebalance_errors :: u64
  mt_valid_messages :: u64
  mt_invalid_messages :: u64
  mt_matched_subscriptions :: u64
  mt_unmatched_messages :: u64
  mt_delivered_connections :: u64
  mt_full_connections :: u64
  mt_closed_connections :: u64
  mt_slow_consumer_disconnects :: u64
  mt_security_limit_rejections :: u64
  mt_websocket_opened :: u64
  mt_sse_opened :: u64
  mt_grpc_opened :: u64
  mt_webhook_opened :: u64
  mt_webhook_attempts :: u64
  mt_webhook_successes :: u64
  mt_webhook_failures :: u64
  mt_webhook_durable_commands :: u64
  mt_webhook_retries_scheduled :: u64
  mt_webhook_recovery_replays :: u64
  mt_webhook_dead_letters :: u64
  mt_http_publish_attempts :: u64
  mt_grpc_publish_attempts :: u64
  mt_http_publish_acknowledged :: u64
  mt_grpc_publish_acknowledged :: u64
  mt_http_publish_failures :: u64
  mt_grpc_publish_failures :: u64
  mt_active_connections :: "u64 list"
  mt_active_subscriptions :: "u64 list"
  mt_kafka_assigned_partitions :: u64
  mt_kafka_lag_messages :: u64
  mt_latency :: "Histogram list"

definition metrics_default :: Metrics where
  "metrics_default =
    \<lparr>mt_kafka_messages = 0, mt_kafka_bytes = 0, mt_kafka_commit_errors = 0,
     mt_kafka_rebalance_assignments = 0, mt_kafka_rebalance_revocations = 0,
     mt_kafka_rebalance_errors = 0, mt_valid_messages = 0, mt_invalid_messages = 0,
     mt_matched_subscriptions = 0, mt_unmatched_messages = 0, mt_delivered_connections = 0,
     mt_full_connections = 0, mt_closed_connections = 0, mt_slow_consumer_disconnects = 0,
     mt_security_limit_rejections = 0, mt_websocket_opened = 0, mt_sse_opened = 0,
     mt_grpc_opened = 0, mt_webhook_opened = 0, mt_webhook_attempts = 0,
     mt_webhook_successes = 0, mt_webhook_failures = 0, mt_webhook_durable_commands = 0,
     mt_webhook_retries_scheduled = 0, mt_webhook_recovery_replays = 0,
     mt_webhook_dead_letters = 0, mt_http_publish_attempts = 0, mt_grpc_publish_attempts = 0,
     mt_http_publish_acknowledged = 0, mt_grpc_publish_acknowledged = 0,
     mt_http_publish_failures = 0, mt_grpc_publish_failures = 0,
     mt_active_connections = replicate 4 0, mt_active_subscriptions = replicate 4 0,
     mt_kafka_assigned_partitions = 0, mt_kafka_lag_messages = 0,
     mt_latency = replicate 7 histogram_default\<rparr>"

definition protocol_index :: "DeliveryProtocol \<Rightarrow> nat" where
  "protocol_index p = (case p of WebSocket \<Rightarrow> 0 | Sse \<Rightarrow> 1 | Grpc \<Rightarrow> 2 | HttpWebhook \<Rightarrow> 3)"

definition decrement :: "u64 \<Rightarrow> u64 \<Rightarrow> u64" where
  "decrement value amount = sat_sub value amount"

definition record_kafka_message :: "nat \<Rightarrow> Metrics \<Rightarrow> Metrics" where
  "record_kafka_message bytes m =
    m\<lparr>mt_kafka_messages := mt_kafka_messages m + 1,
      mt_kafka_bytes := mt_kafka_bytes m + of_nat bytes\<rparr>"

definition record_kafka_commit_error :: "Metrics \<Rightarrow> Metrics" where
  "record_kafka_commit_error m = m\<lparr>mt_kafka_commit_errors := mt_kafka_commit_errors m + 1\<rparr>"

definition record_kafka_rebalance_assignment :: "Metrics \<Rightarrow> Metrics" where
  "record_kafka_rebalance_assignment m = m\<lparr>mt_kafka_rebalance_assignments := mt_kafka_rebalance_assignments m + 1\<rparr>"

definition record_kafka_rebalance_revocation :: "Metrics \<Rightarrow> Metrics" where
  "record_kafka_rebalance_revocation m = m\<lparr>mt_kafka_rebalance_revocations := mt_kafka_rebalance_revocations m + 1\<rparr>"

definition record_kafka_rebalance_error :: "Metrics \<Rightarrow> Metrics" where
  "record_kafka_rebalance_error m = m\<lparr>mt_kafka_rebalance_errors := mt_kafka_rebalance_errors m + 1\<rparr>"

definition set_kafka_assigned_partitions :: "nat \<Rightarrow> Metrics \<Rightarrow> Metrics" where
  "set_kafka_assigned_partitions partitions m = m\<lparr>mt_kafka_assigned_partitions := of_nat partitions\<rparr>"

definition set_kafka_lag_messages :: "u64 \<Rightarrow> Metrics \<Rightarrow> Metrics" where
  "set_kafka_lag_messages lag m = m\<lparr>mt_kafka_lag_messages := lag\<rparr>"

definition record_latency :: "LatencyStage \<Rightarrow> nat \<Rightarrow> Metrics \<Rightarrow> Metrics" where
  "record_latency stage nanos m =
    m\<lparr>mt_latency := (mt_latency m)[latency_index stage := observe nanos (mt_latency m ! latency_index stage)]\<rparr>"

definition record_valid_message :: "Metrics \<Rightarrow> Metrics" where
  "record_valid_message m = m\<lparr>mt_valid_messages := mt_valid_messages m + 1\<rparr>"

definition record_invalid_message :: "Metrics \<Rightarrow> Metrics" where
  "record_invalid_message m = m\<lparr>mt_invalid_messages := mt_invalid_messages m + 1\<rparr>"

definition record_dispatch :: "nat \<Rightarrow> nat \<Rightarrow> nat \<Rightarrow> nat \<Rightarrow> Metrics \<Rightarrow> Metrics" where
  "record_dispatch matched delivered full closed m =
    (let m = m\<lparr>mt_matched_subscriptions := mt_matched_subscriptions m + of_nat matched,
               mt_delivered_connections := mt_delivered_connections m + of_nat delivered,
               mt_full_connections := mt_full_connections m + of_nat full,
               mt_closed_connections := mt_closed_connections m + of_nat closed\<rparr>
     in if matched = 0 then m\<lparr>mt_unmatched_messages := mt_unmatched_messages m + 1\<rparr> else m)"

definition record_protocol_opened :: "DeliveryProtocol \<Rightarrow> Metrics \<Rightarrow> Metrics" where
  "record_protocol_opened protocol m =
    (let m = (case protocol of
                WebSocket \<Rightarrow> m\<lparr>mt_websocket_opened := mt_websocket_opened m + 1\<rparr>
              | Sse \<Rightarrow> m\<lparr>mt_sse_opened := mt_sse_opened m + 1\<rparr>
              | Grpc \<Rightarrow> m\<lparr>mt_grpc_opened := mt_grpc_opened m + 1\<rparr>
              | HttpWebhook \<Rightarrow> m\<lparr>mt_webhook_opened := mt_webhook_opened m + 1\<rparr>);
         i = protocol_index protocol
     in m\<lparr>mt_active_connections := (mt_active_connections m)[i := mt_active_connections m ! i + 1]\<rparr>)"

definition record_protocol_closed :: "DeliveryProtocol \<Rightarrow> nat \<Rightarrow> Metrics \<Rightarrow> Metrics" where
  "record_protocol_closed protocol subscriptions m =
    (let i = protocol_index protocol
     in m\<lparr>mt_active_connections :=
            (mt_active_connections m)[i := decrement (mt_active_connections m ! i) 1],
          mt_active_subscriptions :=
            (mt_active_subscriptions m)
              [i := decrement (mt_active_subscriptions m ! i) (of_nat subscriptions)]\<rparr>)"

definition record_subscription_added :: "DeliveryProtocol \<Rightarrow> Metrics \<Rightarrow> Metrics" where
  "record_subscription_added protocol m =
    (let i = protocol_index protocol
     in m\<lparr>mt_active_subscriptions :=
            (mt_active_subscriptions m)[i := mt_active_subscriptions m ! i + 1]\<rparr>)"

definition record_subscription_removed :: "DeliveryProtocol \<Rightarrow> Metrics \<Rightarrow> Metrics" where
  "record_subscription_removed protocol m =
    (let i = protocol_index protocol
     in m\<lparr>mt_active_subscriptions :=
            (mt_active_subscriptions m)[i := decrement (mt_active_subscriptions m ! i) 1]\<rparr>)"

definition record_slow_disconnect :: "Metrics \<Rightarrow> Metrics" where
  "record_slow_disconnect m = m\<lparr>mt_slow_consumer_disconnects := mt_slow_consumer_disconnects m + 1\<rparr>"

definition record_security_limit_rejection :: "Metrics \<Rightarrow> Metrics" where
  "record_security_limit_rejection m = m\<lparr>mt_security_limit_rejections := mt_security_limit_rejections m + 1\<rparr>"

definition record_webhook_attempt :: "Metrics \<Rightarrow> Metrics" where
  "record_webhook_attempt m = m\<lparr>mt_webhook_attempts := mt_webhook_attempts m + 1\<rparr>"

definition record_webhook_success :: "Metrics \<Rightarrow> Metrics" where
  "record_webhook_success m = m\<lparr>mt_webhook_successes := mt_webhook_successes m + 1\<rparr>"

definition record_webhook_failure :: "Metrics \<Rightarrow> Metrics" where
  "record_webhook_failure m = m\<lparr>mt_webhook_failures := mt_webhook_failures m + 1\<rparr>"

definition record_webhook_durable_command :: "Metrics \<Rightarrow> Metrics" where
  "record_webhook_durable_command m = m\<lparr>mt_webhook_durable_commands := mt_webhook_durable_commands m + 1\<rparr>"

definition record_webhook_retry_scheduled :: "Metrics \<Rightarrow> Metrics" where
  "record_webhook_retry_scheduled m = m\<lparr>mt_webhook_retries_scheduled := mt_webhook_retries_scheduled m + 1\<rparr>"

definition record_webhook_recovery_replay :: "Metrics \<Rightarrow> Metrics" where
  "record_webhook_recovery_replay m = m\<lparr>mt_webhook_recovery_replays := mt_webhook_recovery_replays m + 1\<rparr>"

definition record_webhook_dead_letter :: "Metrics \<Rightarrow> Metrics" where
  "record_webhook_dead_letter m = m\<lparr>mt_webhook_dead_letters := mt_webhook_dead_letters m + 1\<rparr>"

definition record_publish_attempt :: "PublishProtocol \<Rightarrow> Metrics \<Rightarrow> Metrics" where
  "record_publish_attempt protocol m =
    (case protocol of
       PublishHttp \<Rightarrow> m\<lparr>mt_http_publish_attempts := mt_http_publish_attempts m + 1\<rparr>
     | PublishGrpc \<Rightarrow> m\<lparr>mt_grpc_publish_attempts := mt_grpc_publish_attempts m + 1\<rparr>)"

definition record_publish_acknowledged :: "PublishProtocol \<Rightarrow> Metrics \<Rightarrow> Metrics" where
  "record_publish_acknowledged protocol m =
    (case protocol of
       PublishHttp \<Rightarrow> m\<lparr>mt_http_publish_acknowledged := mt_http_publish_acknowledged m + 1\<rparr>
     | PublishGrpc \<Rightarrow> m\<lparr>mt_grpc_publish_acknowledged := mt_grpc_publish_acknowledged m + 1\<rparr>)"

definition record_publish_failure :: "PublishProtocol \<Rightarrow> Metrics \<Rightarrow> Metrics" where
  "record_publish_failure protocol m =
    (case protocol of
       PublishHttp \<Rightarrow> m\<lparr>mt_http_publish_failures := mt_http_publish_failures m + 1\<rparr>
     | PublishGrpc \<Rightarrow> m\<lparr>mt_grpc_publish_failures := mt_grpc_publish_failures m + 1\<rparr>)"

subsection \<open>Snapshots\<close>

record HistogramSnapshot =
  hn_buckets :: "u64 list"
  hn_count :: u64
  hn_sum_micros :: u64

definition histogram_snapshot :: "Histogram \<Rightarrow> HistogramSnapshot" where
  "histogram_snapshot h =
    \<lparr>hn_buckets = map (\<lambda>index. hg_buckets h ! index) [0..<length latency_buckets_nanos],
     hn_count = hg_count h, hn_sum_micros = hg_sum_micros h\<rparr>"

record MetricsSnapshot =
  sn_kafka_messages :: u64
  sn_kafka_bytes :: u64
  sn_kafka_commit_errors :: u64
  sn_kafka_rebalance_assignments :: u64
  sn_kafka_rebalance_revocations :: u64
  sn_kafka_rebalance_errors :: u64
  sn_valid_messages :: u64
  sn_invalid_messages :: u64
  sn_matched_subscriptions :: u64
  sn_unmatched_messages :: u64
  sn_delivered_connections :: u64
  sn_full_connections :: u64
  sn_closed_connections :: u64
  sn_slow_consumer_disconnects :: u64
  sn_security_limit_rejections :: u64
  sn_websocket_opened :: u64
  sn_sse_opened :: u64
  sn_grpc_opened :: u64
  sn_webhook_opened :: u64
  sn_webhook_attempts :: u64
  sn_webhook_successes :: u64
  sn_webhook_failures :: u64
  sn_http_publish_attempts :: u64
  sn_grpc_publish_attempts :: u64
  sn_http_publish_acknowledged :: u64
  sn_webhook_durable_commands :: u64
  sn_webhook_retries_scheduled :: u64
  sn_webhook_recovery_replays :: u64
  sn_webhook_dead_letters :: u64
  sn_grpc_publish_acknowledged :: u64
  sn_http_publish_failures :: u64
  sn_grpc_publish_failures :: u64
  sn_active_connections_by_protocol :: "u64 list"
  sn_active_subscriptions_by_protocol :: "u64 list"
  sn_kafka_assigned_partitions :: u64
  sn_kafka_lag_messages :: u64
  sn_latency :: "HistogramSnapshot list"

definition snapshot :: "Metrics \<Rightarrow> MetricsSnapshot" where
  "snapshot m =
    \<lparr>sn_kafka_messages = mt_kafka_messages m,
     sn_kafka_bytes = mt_kafka_bytes m,
     sn_kafka_commit_errors = mt_kafka_commit_errors m,
     sn_kafka_rebalance_assignments = mt_kafka_rebalance_assignments m,
     sn_kafka_rebalance_revocations = mt_kafka_rebalance_revocations m,
     sn_kafka_rebalance_errors = mt_kafka_rebalance_errors m,
     sn_valid_messages = mt_valid_messages m,
     sn_invalid_messages = mt_invalid_messages m,
     sn_matched_subscriptions = mt_matched_subscriptions m,
     sn_unmatched_messages = mt_unmatched_messages m,
     sn_delivered_connections = mt_delivered_connections m,
     sn_full_connections = mt_full_connections m,
     sn_closed_connections = mt_closed_connections m,
     sn_slow_consumer_disconnects = mt_slow_consumer_disconnects m,
     sn_security_limit_rejections = mt_security_limit_rejections m,
     sn_websocket_opened = mt_websocket_opened m,
     sn_sse_opened = mt_sse_opened m,
     sn_grpc_opened = mt_grpc_opened m,
     sn_webhook_opened = mt_webhook_opened m,
     sn_webhook_attempts = mt_webhook_attempts m,
     sn_webhook_successes = mt_webhook_successes m,
     sn_webhook_failures = mt_webhook_failures m,
     sn_http_publish_attempts = mt_http_publish_attempts m,
     sn_grpc_publish_attempts = mt_grpc_publish_attempts m,
     sn_http_publish_acknowledged = mt_http_publish_acknowledged m,
     sn_webhook_durable_commands = mt_webhook_durable_commands m,
     sn_webhook_retries_scheduled = mt_webhook_retries_scheduled m,
     sn_webhook_recovery_replays = mt_webhook_recovery_replays m,
     sn_webhook_dead_letters = mt_webhook_dead_letters m,
     sn_grpc_publish_acknowledged = mt_grpc_publish_acknowledged m,
     sn_http_publish_failures = mt_http_publish_failures m,
     sn_grpc_publish_failures = mt_grpc_publish_failures m,
     sn_active_connections_by_protocol = map (\<lambda>index. mt_active_connections m ! index) [0..<4],
     sn_active_subscriptions_by_protocol = map (\<lambda>index. mt_active_subscriptions m ! index) [0..<4],
     sn_kafka_assigned_partitions = mt_kafka_assigned_partitions m,
     sn_kafka_lag_messages = mt_kafka_lag_messages m,
     sn_latency = map (\<lambda>index. histogram_snapshot (mt_latency m ! index)) [0..<7]\<rparr>"

subsection \<open>Gauges\<close>

text \<open>The two gauges of a protocol, read through its index.\<close>

definition conn_gauge :: "DeliveryProtocol \<Rightarrow> Metrics \<Rightarrow> u64" where
  "conn_gauge p m = mt_active_connections m ! protocol_index p"

definition sub_gauge :: "DeliveryProtocol \<Rightarrow> Metrics \<Rightarrow> u64" where
  "sub_gauge p m = mt_active_subscriptions m ! protocol_index p"

definition metrics_shape :: "Metrics \<Rightarrow> bool" where
  "metrics_shape m \<longleftrightarrow> length (mt_active_connections m) = 4 \<and> length (mt_active_subscriptions m) = 4
     \<and> length (mt_latency m) = 7
     \<and> (\<forall>h\<in>set (mt_latency m). length (hg_buckets h) = length latency_buckets_nanos)"

lemma protocol_index_lt [simp]: "protocol_index p < 4"
  by (cases p) (simp_all add: protocol_index_def)

lemma protocol_index_inj [simp]: "protocol_index p = protocol_index q \<longleftrightarrow> p = q"
  by (cases p; cases q) (simp_all add: protocol_index_def)

lemma latency_index_lt [simp]: "latency_index s < 7"
  by (cases s) (simp_all add: latency_index_def)

lemma latency_all_index: "latency_all ! latency_index s = s"
  by (cases s) (simp_all add: latency_all_def latency_index_def)

lemma position_Some:
  "position p xs = Some i \<longleftrightarrow> i < length xs \<and> p (xs ! i) \<and> (\<forall>j<i. \<not> p (xs ! j))"
proof (induction xs arbitrary: i)
  case (Cons x xs)
  then show ?case by (cases i) (auto simp: less_Suc_eq_0_disj)
qed simp

lemma length_observe [simp]: "length (hg_buckets (observe n h)) = length (hg_buckets h)"
  by (simp add: observe_def Let_def split: option.splits)

named_theorems gauge_simps

lemmas record_defs = record_kafka_message_def record_kafka_commit_error_def
  record_valid_message_def record_invalid_message_def record_dispatch_def record_latency_def
  record_slow_disconnect_def record_security_limit_rejection_def

lemma gauge_frame [gauge_simps]:
  "conn_gauge p (record_valid_message m) = conn_gauge p m"
  "conn_gauge p (record_dispatch a b c d m) = conn_gauge p m"
  "conn_gauge p (record_latency st n m) = conn_gauge p m"
  "conn_gauge p (record_slow_disconnect m) = conn_gauge p m"
  "conn_gauge p (record_security_limit_rejection m) = conn_gauge p m"
  "sub_gauge p (record_valid_message m) = sub_gauge p m"
  "sub_gauge p (record_dispatch a b c d m) = sub_gauge p m"
  "sub_gauge p (record_latency st n m) = sub_gauge p m"
  "sub_gauge p (record_slow_disconnect m) = sub_gauge p m"
  "sub_gauge p (record_security_limit_rejection m) = sub_gauge p m"
  by (simp_all add: conn_gauge_def sub_gauge_def record_defs Let_def)

lemma shape_frame [gauge_simps]:
  "metrics_shape (record_valid_message m) = metrics_shape m"
  "metrics_shape (record_dispatch a b c d m) = metrics_shape m"
  "metrics_shape (record_slow_disconnect m) = metrics_shape m"
  "metrics_shape (record_security_limit_rejection m) = metrics_shape m"
  by (simp_all add: metrics_shape_def record_defs Let_def)

lemma shape_record_latency [gauge_simps]:
  "metrics_shape m \<Longrightarrow> metrics_shape (record_latency st n m)"
  by (auto simp: metrics_shape_def record_latency_def dest!: set_update_subset_insert [THEN subsetD])

lemma shape_protocol [gauge_simps]:
  "metrics_shape (record_protocol_opened p m) = metrics_shape m"
  "metrics_shape (record_protocol_closed p n m) = metrics_shape m"
  "metrics_shape (record_subscription_added p m) = metrics_shape m"
  "metrics_shape (record_subscription_removed p m) = metrics_shape m"
  by (simp_all add: metrics_shape_def record_protocol_opened_def record_protocol_closed_def
      record_subscription_added_def record_subscription_removed_def Let_def
      split: DeliveryProtocol.splits)

lemma gauge_protocol_opened [gauge_simps]:
  assumes "metrics_shape m"
  shows "conn_gauge q (record_protocol_opened p m) = conn_gauge q m + (if q = p then 1 else 0)"
    and "sub_gauge q (record_protocol_opened p m) = sub_gauge q m"
  using assms
  by (auto simp: metrics_shape_def conn_gauge_def sub_gauge_def record_protocol_opened_def Let_def
      nth_list_update split: DeliveryProtocol.splits)

lemma gauge_protocol_closed [gauge_simps]:
  assumes "metrics_shape m"
  shows "conn_gauge q (record_protocol_closed p n m) =
      (if q = p then decrement (conn_gauge q m) 1 else conn_gauge q m)"
    and "sub_gauge q (record_protocol_closed p n m) =
      (if q = p then decrement (sub_gauge q m) (of_nat n) else sub_gauge q m)"
  using assms
  by (auto simp: metrics_shape_def conn_gauge_def sub_gauge_def record_protocol_closed_def Let_def
      nth_list_update)

lemma gauge_subscription [gauge_simps]:
  assumes "metrics_shape m"
  shows "conn_gauge q (record_subscription_added p m) = conn_gauge q m"
    and "sub_gauge q (record_subscription_added p m) = sub_gauge q m + (if q = p then 1 else 0)"
    and "conn_gauge q (record_subscription_removed p m) = conn_gauge q m"
    and "sub_gauge q (record_subscription_removed p m) =
      (if q = p then decrement (sub_gauge q m) 1 else sub_gauge q m)"
  using assms
  by (auto simp: metrics_shape_def conn_gauge_def sub_gauge_def record_subscription_added_def
      record_subscription_removed_def Let_def nth_list_update)

lemma gauge_default [gauge_simps]:
  "metrics_shape metrics_default" "conn_gauge p metrics_default = 0" "sub_gauge p metrics_default = 0"
  by (simp add: metrics_shape_def metrics_default_def histogram_default_def)
    (cases p; simp add: metrics_default_def conn_gauge_def sub_gauge_def protocol_index_def)+

lemma decrement_of_nat: "m \<le> n \<Longrightarrow> n < 2 ^ 64 \<Longrightarrow> decrement (of_nat n) (of_nat m) = of_nat (n - m)"
  by (simp add: decrement_def sat_sub_of_nat)

end
