(* ===== verification/Router.thy ===== *)
theory Router
  imports Route Metrics
begin

text \<open>
  The routing engine (\<open>router-core/src/router.rs\<close>): connections, the compiled index from route keys
  to buckets, and the operations on them. Every operation is the whole method: its guards in the
  order of the code, the updates of both maps and the metrics it records. The mutation lock makes
  register, subscribe, unsubscribe and unregister atomic with respect to each other.

  The delivery queue of a connection is a \<open>tokio::sync::mpsc\<close> channel, code outside this
  repository. Its operations are the record \<open>mpsc_ops\<close> that the operations using a queue take as
  an argument; \<open>mpsc_laws\<close> states the documented behaviour some theorems rely on. \<open>cs_sender\<close> holds
  the state of the channel that sender and receiver share. The random connection id and the
  readings of the clock are arguments too.
\<close>

subsection \<open>The delivery queue\<close>

record Delivery =
  dv_message :: RoutedMessage
  dv_subscription_ids :: "SubscriptionId list"

datatype try_send_result = SendOk | SendFull | SendClosed

text \<open>
  \<open>ch_channel n\<close> is \<open>mpsc::channel(n)\<close>, \<open>ch_try_send\<close> is \<open>Sender::try_send\<close>. The other three observe
  a channel: what was sent and not yet received, the capacity, and whether the receiver is gone.
\<close>

record 'c mpsc_ops =
  ch_channel :: "nat \<Rightarrow> 'c"
  ch_try_send :: "'c \<Rightarrow> Delivery \<Rightarrow> try_send_result \<times> 'c"
  ch_queued :: "'c \<Rightarrow> Delivery list"
  ch_capacity :: "'c \<Rightarrow> nat"
  ch_closed :: "'c \<Rightarrow> bool"

definition mpsc_laws :: "'c mpsc_ops \<Rightarrow> bool" where
  "mpsc_laws ops \<longleftrightarrow>
    (\<forall>n. 0 < n \<longrightarrow> ch_queued ops (ch_channel ops n) = [] \<and> ch_capacity ops (ch_channel ops n) = n
        \<and> \<not> ch_closed ops (ch_channel ops n))
    \<and> (\<forall>c d. ch_capacity ops (snd (ch_try_send ops c d)) = ch_capacity ops c
        \<and> ch_closed ops (snd (ch_try_send ops c d)) = ch_closed ops c)
    \<and> (\<forall>c d. fst (ch_try_send ops c d) =
        (if ch_closed ops c then SendClosed
         else if ch_capacity ops c \<le> length (ch_queued ops c) then SendFull else SendOk))
    \<and> (\<forall>c d. ch_queued ops (snd (ch_try_send ops c d)) =
        (if fst (ch_try_send ops c d) = SendOk then ch_queued ops c @ [d] else ch_queued ops c))"

subsection \<open>State\<close>

record RouterConfig =
  rc_default_queue_capacity :: nat
  rc_max_queue_capacity :: nat
  rc_max_connections :: nat
  rc_max_connections_per_tenant :: nat
  rc_max_subscriptions :: nat
  rc_max_subscriptions_per_tenant :: nat
  rc_max_subscriptions_per_connection :: nat
  rc_slow_consumer_strikes :: "32 word"

definition router_config_default :: RouterConfig where
  "router_config_default =
    \<lparr>rc_default_queue_capacity = 256, rc_max_queue_capacity = 4096,
     rc_max_connections = 10000, rc_max_connections_per_tenant = 1000,
     rc_max_subscriptions = 100000, rc_max_subscriptions_per_tenant = 10000,
     rc_max_subscriptions_per_connection = 128, rc_slow_consumer_strikes = 3\<rparr>"

record 'c ConnectionState =
  cs_tenant_id :: string
  cs_protocol :: DeliveryProtocol
  cs_sender :: 'c
  cs_subscriptions :: "(SubscriptionId \<times> RouteFilter) list"
  cs_full_strikes :: "32 word"

type_synonym Bucket = "(connection_id \<times> SubscriptionId list) list"

record DispatchReport =
  dr_matched_subscriptions :: nat
  dr_delivered_connections :: nat
  dr_full_connections :: nat
  dr_closed_connections :: nat

record 'c Router =
  rt_config :: RouterConfig
  rt_connections :: "(connection_id \<times> 'c ConnectionState) list"
  rt_routes :: "(RouteKey \<times> Bucket) list"
  rt_metrics :: Metrics

record RouterStatus =
  st_active_connections :: nat
  st_subscriptions :: nat
  st_metrics :: MetricsSnapshot

definition router_new :: "RouterConfig \<Rightarrow> 'c Router" where
  "router_new config =
    \<lparr>rt_config = config, rt_connections = [], rt_routes = [], rt_metrics = metrics_default\<rparr>"

subsection \<open>The route index\<close>

text \<open>\<open>routes.entry(key).or_default().entry(connection).or_default().push(subscription)\<close>.\<close>

definition or_default :: "'v list option \<Rightarrow> 'v list" where
  "or_default v = (case v of None \<Rightarrow> [] | Some x \<Rightarrow> x)"

definition add_to_route ::
  "RouteKey \<Rightarrow> connection_id \<Rightarrow> SubscriptionId \<Rightarrow> (RouteKey \<times> Bucket) list \<Rightarrow> (RouteKey \<times> Bucket) list" where
  "add_to_route key cid sid routes =
    (let bucket = or_default (map_of routes key);
         ids = or_default (map_of bucket cid)
     in AList.update key (AList.update cid (ids @ [sid]) bucket) routes)"

definition remove_from_bucket :: "connection_id \<Rightarrow> SubscriptionId \<Rightarrow> Bucket \<Rightarrow> Bucket" where
  "remove_from_bucket cid sid bucket =
    (case map_of bucket cid of
       None \<Rightarrow> bucket
     | Some ids \<Rightarrow>
         let ids = filter (\<lambda>candidate. candidate \<noteq> sid) ids
         in if ids = [] then AList.delete cid bucket else AList.update cid ids bucket)"

definition remove_from_route ::
  "connection_id \<Rightarrow> SubscriptionId \<Rightarrow> RouteFilter \<Rightarrow> (RouteKey \<times> Bucket) list \<Rightarrow> (RouteKey \<times> Bucket) list" where
  "remove_from_route cid sid flt routes =
    (let key = route_key_of flt
     in case map_of routes key of
          None \<Rightarrow> routes
        | Some bucket \<Rightarrow>
            let bucket = remove_from_bucket cid sid bucket
            in if bucket = [] then AList.delete key routes else AList.update key bucket routes)"

subsection \<open>Registration\<close>

definition tenant_connections :: "string \<Rightarrow> 'c Router \<Rightarrow> nat" where
  "tenant_connections tenant r =
    length (filter (\<lambda>(cid, cs). cs_tenant_id cs = tenant) (rt_connections r))"

definition total_subscriptions :: "'c Router \<Rightarrow> nat" where
  "total_subscriptions r = (\<Sum>(cid, cs)\<leftarrow>rt_connections r. length (cs_subscriptions cs))"

definition tenant_subscriptions :: "string \<Rightarrow> 'c Router \<Rightarrow> nat" where
  "tenant_subscriptions tenant r =
    (\<Sum>(cid, cs)\<leftarrow>filter (\<lambda>(cid, cs). cs_tenant_id cs = tenant) (rt_connections r).
       length (cs_subscriptions cs))"

text \<open>
  The result carries the new state also on an error, since a rejection is counted. The receiver of
  \<open>ConnectionRegistration\<close> is the other end of \<open>cs_sender\<close>; \<open>fresh\<close> is the generated id.
\<close>

definition register_connection ::
  "'c mpsc_ops \<Rightarrow> connection_id \<Rightarrow> string \<Rightarrow> DeliveryProtocol \<Rightarrow> nat option \<Rightarrow> 'c Router
   \<Rightarrow> (CoreError + connection_id) \<times> 'c Router" where
  "register_connection ops fresh tenant protocol queue_capacity r =
    (case validate_identifier ''tenant_id'' tenant 256 of
       Inl e \<Rightarrow> (Inl e, r)
     | Inr _ \<Rightarrow>
       let capacity = (case queue_capacity of Some n \<Rightarrow> n
                       | None \<Rightarrow> rc_default_queue_capacity (rt_config r))
       in if capacity = 0 \<or> capacity > rc_max_queue_capacity (rt_config r) then
            (Inl (InvalidQueueCapacity capacity (rc_max_queue_capacity (rt_config r))), r)
          else if length (rt_connections r) \<ge> rc_max_connections (rt_config r)
                  \<or> tenant_connections tenant r \<ge> rc_max_connections_per_tenant (rt_config r) then
            (Inl ConnectionLimitReached,
             r\<lparr>rt_metrics := record_security_limit_rejection (rt_metrics r)\<rparr>)
          else
            (Inr fresh,
             r\<lparr>rt_connections := AList.update fresh
                  \<lparr>cs_tenant_id = tenant, cs_protocol = protocol, cs_sender = ch_channel ops capacity,
                   cs_subscriptions = [], cs_full_strikes = 0\<rparr> (rt_connections r),
               rt_metrics := record_protocol_opened protocol (rt_metrics r)\<rparr>))"

definition subscribe ::
  "connection_id \<Rightarrow> SubscriptionId \<Rightarrow> RouteFilter \<Rightarrow> 'c Router \<Rightarrow> (CoreError + unit) \<times> 'c Router" where
  "subscribe cid sid flt r =
    (case filter_validate flt of
       Inl e \<Rightarrow> (Inl e, r)
     | Inr _ \<Rightarrow>
       (case map_of (rt_connections r) cid of
          None \<Rightarrow> (Inl ConnectionNotFound, r)
        | Some cs \<Rightarrow>
          if total_subscriptions r \<ge> rc_max_subscriptions (rt_config r)
             \<or> tenant_subscriptions (cs_tenant_id cs) r \<ge> rc_max_subscriptions_per_tenant (rt_config r)
          then (Inl GlobalSubscriptionLimitReached,
                r\<lparr>rt_metrics := record_security_limit_rejection (rt_metrics r)\<rparr>)
          else if cs_tenant_id cs \<noteq> rf_tenant_id flt then (Inl TenantMismatch, r)
          else if map_of (cs_subscriptions cs) sid \<noteq> None then (Inl SubscriptionExists, r)
          else if length (cs_subscriptions cs) \<ge> rc_max_subscriptions_per_connection (rt_config r)
          then (Inl SubscriptionLimitReached, r)
          else
            (Inr (),
             r\<lparr>rt_connections := AList.update cid
                  (cs\<lparr>cs_subscriptions := AList.update sid flt (cs_subscriptions cs)\<rparr>)
                  (rt_connections r),
               rt_routes := add_to_route (route_key_of flt) cid sid (rt_routes r),
               rt_metrics := record_subscription_added (cs_protocol cs) (rt_metrics r)\<rparr>)))"

definition unsubscribe ::
  "connection_id \<Rightarrow> SubscriptionId \<Rightarrow> 'c Router \<Rightarrow> (CoreError + unit) \<times> 'c Router" where
  "unsubscribe cid sid r =
    (case map_of (rt_connections r) cid of
       None \<Rightarrow> (Inl ConnectionNotFound, r)
     | Some cs \<Rightarrow>
       (case map_of (cs_subscriptions cs) sid of
          None \<Rightarrow> (Inl SubscriptionNotFound, r)
        | Some flt \<Rightarrow>
          (Inr (),
           r\<lparr>rt_connections := AList.update cid
                (cs\<lparr>cs_subscriptions := AList.delete sid (cs_subscriptions cs)\<rparr>) (rt_connections r),
             rt_routes := remove_from_route cid sid flt (rt_routes r),
             rt_metrics := record_subscription_removed (cs_protocol cs) (rt_metrics r)\<rparr>)))"

definition remove_all_from_route ::
  "connection_id \<Rightarrow> (SubscriptionId \<times> RouteFilter) list \<Rightarrow> (RouteKey \<times> Bucket) list
   \<Rightarrow> (RouteKey \<times> Bucket) list" where
  "remove_all_from_route cid subs routes =
    fold (\<lambda>(sid, flt). remove_from_route cid sid flt) subs routes"

definition unregister_connection :: "connection_id \<Rightarrow> 'c Router \<Rightarrow> 'c Router" where
  "unregister_connection cid r =
    (case map_of (rt_connections r) cid of
       None \<Rightarrow> r
     | Some cs \<Rightarrow>
       r\<lparr>rt_connections := AList.delete cid (rt_connections r),
         rt_routes := remove_all_from_route cid (cs_subscriptions cs) (rt_routes r),
         rt_metrics := record_protocol_closed (cs_protocol cs) (length (cs_subscriptions cs))
           (rt_metrics r)\<rparr>)"

subsection \<open>Dispatch\<close>

definition add_ids :: "SubscriptionId list \<Rightarrow> SubscriptionId list \<Rightarrow> SubscriptionId list" where
  "add_ids ids entry = fold (\<lambda>sid entry. if sid \<in> set entry then entry else entry @ [sid]) ids entry"

definition merge_bucket :: "Bucket \<Rightarrow> Bucket \<Rightarrow> Bucket" where
  "merge_bucket bucket matches =
    fold (\<lambda>(cid, ids) matches. AList.update cid (add_ids ids (or_default (map_of matches cid))) matches)
      bucket matches"

definition collect_matches :: "(RouteKey \<times> Bucket) list \<Rightarrow> RoutingMetadata \<Rightarrow> Bucket" where
  "collect_matches routes md =
    fold (\<lambda>key matches. case map_of routes key of None \<Rightarrow> matches | Some b \<Rightarrow> merge_bucket b matches)
      (candidates md) []"

record 'c fan_out =
  fo_connections :: "(connection_id \<times> 'c ConnectionState) list"
  fo_report :: DispatchReport
  fo_disconnect :: "connection_id list"

text \<open>What one queue insertion does to the connection, the report and the disconnect list.\<close>

definition deliver_one ::
  "'c mpsc_ops \<Rightarrow> RouterConfig \<Rightarrow> Delivery \<Rightarrow> connection_id \<Rightarrow> 'c ConnectionState
   \<Rightarrow> 'c fan_out \<Rightarrow> 'c fan_out" where
  "deliver_one ops config delivery cid cs fo =
    (let (res, sender) = ch_try_send ops (cs_sender cs) delivery;
         cs = cs\<lparr>cs_sender := sender\<rparr>;
         report = fo_report fo
     in case res of
          SendOk \<Rightarrow>
            fo\<lparr>fo_connections := AList.update cid (cs\<lparr>cs_full_strikes := 0\<rparr>) (fo_connections fo),
               fo_report := report\<lparr>dr_delivered_connections := dr_delivered_connections report + 1\<rparr>\<rparr>
        | SendFull \<Rightarrow>
            let strikes = sat_add (cs_full_strikes cs) 1
            in fo\<lparr>fo_connections := AList.update cid (cs\<lparr>cs_full_strikes := strikes\<rparr>) (fo_connections fo),
                  fo_report := report\<lparr>dr_full_connections := dr_full_connections report + 1\<rparr>,
                  fo_disconnect := fo_disconnect fo @
                    (if strikes \<ge> max (rc_slow_consumer_strikes config) 1 then [cid] else [])\<rparr>
        | SendClosed \<Rightarrow>
            fo\<lparr>fo_connections := AList.update cid cs (fo_connections fo),
               fo_report := report\<lparr>dr_closed_connections := dr_closed_connections report + 1\<rparr>,
               fo_disconnect := fo_disconnect fo @ [cid]\<rparr>)"

text \<open>
  The fan-out loop. \<open>message\<close> is the \<open>Option\<close> the last iteration takes the message out of: \<open>expect\<close>
  on an empty one panics, which is \<open>None\<close> here. A connection that is gone is counted as closed.
\<close>

fun fan_out_loop ::
  "'c mpsc_ops \<Rightarrow> RouterConfig \<Rightarrow> nat \<Rightarrow> nat \<Rightarrow> RoutedMessage option \<Rightarrow> Bucket
   \<Rightarrow> 'c fan_out \<Rightarrow> 'c fan_out option" where
  "fan_out_loop ops config count index message [] fo = Some fo"
| "fan_out_loop ops config count index message ((cid, ids) # rest) fo =
    (case map_of (fo_connections fo) cid of
       None \<Rightarrow>
         let report = fo_report fo
         in fan_out_loop ops config count (index + 1) message rest
              (fo\<lparr>fo_report := report\<lparr>dr_closed_connections := dr_closed_connections report + 1\<rparr>\<rparr>)
     | Some cs \<Rightarrow>
         (case message of
            None \<Rightarrow> None
          | Some m \<Rightarrow>
            fan_out_loop ops config count (index + 1) (if index + 1 = count then None else Some m) rest
              (deliver_one ops config \<lparr>dv_message = m, dv_subscription_ids = ids\<rparr> cid cs fo)))"

definition disconnect_one :: "connection_id \<Rightarrow> 'c Router \<Rightarrow> 'c Router" where
  "disconnect_one cid r =
    unregister_connection cid (r\<lparr>rt_metrics := record_slow_disconnect (rt_metrics r)\<rparr>)"

text \<open>\<open>match_nanos\<close> and \<open>enqueue_nanos\<close> are the elapsed times the two stages measure.\<close>

definition dispatch ::
  "'c mpsc_ops \<Rightarrow> nat \<Rightarrow> nat \<Rightarrow> RoutedMessage \<Rightarrow> 'c Router \<Rightarrow> (DispatchReport \<times> 'c Router) option" where
  "dispatch ops match_nanos enqueue_nanos message r =
    (let metrics = record_valid_message (rt_metrics r);
         matches = collect_matches (rt_routes r) (rm_metadata message);
         matched = (\<Sum>(cid, ids)\<leftarrow>matches. length ids);
         metrics = record_latency Match match_nanos metrics;
         report = \<lparr>dr_matched_subscriptions = matched, dr_delivered_connections = 0,
                   dr_full_connections = 0, dr_closed_connections = 0\<rparr>
     in case fan_out_loop ops (rt_config r) (length matches) 0 (Some message) matches
               \<lparr>fo_connections = rt_connections r, fo_report = report, fo_disconnect = []\<rparr> of
          None \<Rightarrow> None
        | Some fo \<Rightarrow>
          let r = fold disconnect_one (fo_disconnect fo)
                    (r\<lparr>rt_connections := fo_connections fo, rt_metrics := metrics\<rparr>);
              report = fo_report fo;
              metrics = record_latency Enqueue enqueue_nanos (rt_metrics r);
              metrics = record_dispatch (dr_matched_subscriptions report)
                (dr_delivered_connections report) (dr_full_connections report)
                (dr_closed_connections report) metrics
          in Some (report, r\<lparr>rt_metrics := metrics\<rparr>))"

definition status :: "'c Router \<Rightarrow> RouterStatus" where
  "status r = \<lparr>st_active_connections = length (rt_connections r),
     st_subscriptions = total_subscriptions r, st_metrics = snapshot (rt_metrics r)\<rparr>"

definition connections_by_protocol :: "DeliveryProtocol \<Rightarrow> 'c Router \<Rightarrow> nat" where
  "connections_by_protocol protocol r =
    length (filter (\<lambda>(cid, cs). cs_protocol cs = protocol) (rt_connections r))"

end
