(* ===== verification/Wire.thy ===== *)
theory Wire
  imports Router
begin

text \<open>
  The JSON envelope of a delivery (\<open>router-core/src/wire.rs\<close>), shared by the WebSocket, SSE and webhook
  writers. A \<open>serde_json::Value\<close> is the datatype \<open>Json\<close>, an object the list of its members. Parsing and
  printing of JSON text and base64 belong to other crates and are arguments. The value that
  \<open>payload_as_json\<close> caches in the message is a function of the message, so the cache is left out.
\<close>

datatype Json =
    JNull
  | JBool bool
  | JInt int
  | JFloat string
  | JStr string
  | JArr "Json list"
  | JObj "(string \<times> Json) list"

text \<open>\<open>skip_serializing_if = "Option::is_none"\<close>: a member only when there is a value.\<close>

definition optional_member :: "string \<Rightarrow> ('a \<Rightarrow> Json) \<Rightarrow> 'a option \<Rightarrow> (string \<times> Json) list" where
  "optional_member name f v = (case v of None \<Rightarrow> [] | Some x \<Rightarrow> [(name, f x)])"

definition position_json :: "KafkaPosition \<Rightarrow> Json" where
  "position_json p =
    JObj [(''topic'', JStr (kp_topic p)), (''partition'', JInt (kp_partition p)), (''offset'', JInt (kp_offset p))]"

definition metadata_json :: "RoutingMetadata \<Rightarrow> Json" where
  "metadata_json md = JObj (
     [(''message_id'', JStr (md_message_id md)), (''tenant_id'', JStr (md_tenant_id md))]
     @ optional_member ''kind'' JStr (md_kind md)
     @ optional_member ''type'' JStr (md_message_type md)
     @ optional_member ''channel'' JStr (md_channel md)
     @ optional_member ''actor_id'' JStr (md_actor_id md)
     @ optional_member ''recipient_type'' JStr (md_recipient_type md)
     @ optional_member ''recipient_identity'' JStr (md_recipient_identity md)
     @ [(''content_type'', JStr (md_content_type md))]
     @ optional_member ''timestamp_ms'' JInt (md_timestamp_ms md)
     @ optional_member ''source'' position_json (md_source md))"

text \<open>\<open>content_type.split(';').next()\<close>, trimmed and compared without case.\<close>

definition is_json_content :: "string \<Rightarrow> bool" where
  "is_json_content content_type \<longleftrightarrow>
    eq_ignore_ascii_case (trim (takeWhile (\<lambda>c. c \<noteq> CHR '';'') content_type)) ''application/json''"

definition payload_as_json :: "(string \<Rightarrow> Json option) \<Rightarrow> (string \<Rightarrow> string) \<Rightarrow> RoutedMessage \<Rightarrow> Json" where
  "payload_as_json from_slice base64 message =
    (if is_json_content (md_content_type (rm_metadata message)) then
       (case from_slice (rm_payload message) of
          Some v \<Rightarrow> v
        | None \<Rightarrow> JObj [(''encoding'', JStr ''base64''), (''data'', JStr (base64 (rm_payload message))),
                      (''invalid_json'', JBool True)])
     else JObj [(''encoding'', JStr ''base64''), (''data'', JStr (base64 (rm_payload message)))])"

definition delivery_json :: "(string \<Rightarrow> Json option) \<Rightarrow> (string \<Rightarrow> string) \<Rightarrow> Delivery \<Rightarrow> Json" where
  "delivery_json from_slice base64 d = JObj
    [(''operation'', JStr ''message''),
     (''subscription_ids'', JArr (map (\<lambda>sid. JStr (as_str sid)) (dv_subscription_ids d))),
     (''message'', JObj
       [(''metadata'', metadata_json (rm_metadata (dv_message d))),
        (''payload'', payload_as_json from_slice base64 (dv_message d))])]"

definition encode_delivery_json ::
  "(string \<Rightarrow> Json option) \<Rightarrow> (string \<Rightarrow> string) \<Rightarrow> (Json \<Rightarrow> string) \<Rightarrow> Delivery \<Rightarrow> string" where
  "encode_delivery_json from_slice base64 to_vec d = to_vec (delivery_json from_slice base64 d)"

subsection \<open>The envelope determines the delivery\<close>

fun member :: "string \<Rightarrow> Json \<Rightarrow> Json option" where
  "member name (JObj ms) = map_of ms name"
| "member name _ = None"

lemma map_of_optional_member [simp]:
  "map_of (optional_member name f v) k = (if k = name then map_option f v else None)"
  by (simp add: optional_member_def split: option.split)

lemma metadata_members:
  "member ''message_id'' (metadata_json md) = Some (JStr (md_message_id md))"
  "member ''tenant_id'' (metadata_json md) = Some (JStr (md_tenant_id md))"
  "member ''kind'' (metadata_json md) = map_option JStr (md_kind md)"
  "member ''type'' (metadata_json md) = map_option JStr (md_message_type md)"
  "member ''channel'' (metadata_json md) = map_option JStr (md_channel md)"
  "member ''actor_id'' (metadata_json md) = map_option JStr (md_actor_id md)"
  "member ''recipient_type'' (metadata_json md) = map_option JStr (md_recipient_type md)"
  "member ''recipient_identity'' (metadata_json md) = map_option JStr (md_recipient_identity md)"
  "member ''content_type'' (metadata_json md) = Some (JStr (md_content_type md))"
  "member ''timestamp_ms'' (metadata_json md) = map_option JInt (md_timestamp_ms md)"
  "member ''source'' (metadata_json md) = map_option position_json (md_source md)"
  by (simp_all add: metadata_json_def map_add_def split: option.split)

lemma position_json_inj: "inj position_json"
  by (rule injI) (simp add: position_json_def)

lemma JStr_inj: "inj JStr" "inj JInt"
  by (auto intro: injI)

lemma metadata_json_inj: "metadata_json a = metadata_json b \<Longrightarrow> a = b"
proof -
  assume eq: "metadata_json a = metadata_json b"
  have m: "member k (metadata_json a) = member k (metadata_json b)" for k by (simp only: eq)
  have "map_option JStr x = map_option JStr y \<Longrightarrow> x = y" "map_option JInt u = map_option JInt v \<Longrightarrow> u = v"
    "map_option position_json p = map_option position_json q \<Longrightarrow> p = q" for x y u v p q
    by (auto dest: option.inj_map [THEN injD, OF JStr_inj(1)] option.inj_map [THEN injD, OF JStr_inj(2)]
      option.inj_map [THEN injD, OF position_json_inj])
  then show "a = b"
    using m [of "''message_id''"] m [of "''tenant_id''"] m [of "''kind''"] m [of "''type''"] m [of "''channel''"]
      m [of "''actor_id''"] m [of "''recipient_type''"] m [of "''recipient_identity''"] m [of "''content_type''"]
      m [of "''timestamp_ms''"] m [of "''source''"]
    unfolding metadata_members by (intro RoutingMetadata.equality) simp_all
qed


definition sample_delivery :: Delivery where
  "sample_delivery =
    \<lparr>dv_message = \<lparr>rm_metadata = \<lparr>md_message_id = ''m'', md_tenant_id = ''t'', md_kind = None, md_message_type = None,
        md_channel = Some ''news'', md_actor_id = None, md_recipient_type = None, md_recipient_identity = None,
        md_content_type = ''text/plain'', md_timestamp_ms = None, md_source = None\<rparr>,
       rm_payload = ''hi'', rm_trace_context = None\<rparr>,
     dv_subscription_ids = [SubscriptionId ''s'']\<rparr>"


end
