(* ===== verification/Api_Error.thy ===== *)
theory Api_Error
  imports Publish Wire
begin

text \<open>
  Public API failures and their mapping to HTTP and gRPC (\<open>router-api/src/error.rs\<close>), and the validation
  shared by both publish endpoints (\<open>router-api/src/publish.rs\<close>). The \<open>mime\<close> parser is a parameter as in
  \<open>Publish\<close>; its \<open>suffix\<close> accessor is a second one. A random UUID is an argument.
\<close>

subsection \<open>Failures\<close>

datatype ApiError =
    Unauthorized
  | Forbidden
  | BadRequest string
  | RateLimited
  | PublisherUnavailable
  | PublisherTimeout
  | PublisherQueueFull
  | Backend string

fun api_error_display :: "ApiError \<Rightarrow> string" where
  "api_error_display Unauthorized = ''authentication required''"
| "api_error_display Forbidden = ''tenant is not authorized''"
| "api_error_display (BadRequest text) = text"
| "api_error_display RateLimited = ''rate limit exceeded''"
| "api_error_display PublisherUnavailable = ''publishing is not configured''"
| "api_error_display PublisherTimeout = ''publish acknowledgement timed out''"
| "api_error_display PublisherQueueFull = ''publisher queue is full''"
| "api_error_display (ApiError.Backend text) = text"

text \<open>The codes of \<open>tonic::Status\<close> the adapters use.\<close>

datatype GrpcCode =
    Unauthenticated | PermissionDenied | InvalidArgument | ResourceExhausted
  | FailedPrecondition | DeadlineExceeded | Internal

record GrpcStatus =
  gs_code :: GrpcCode
  gs_message :: string

definition invalid_argument :: "string \<Rightarrow> GrpcStatus" where
  "invalid_argument text = \<lparr>gs_code = InvalidArgument, gs_message = text\<rparr>"

definition into_status :: "ApiError \<Rightarrow> GrpcStatus" where
  "into_status e = \<lparr>gs_code =
     (case e of
        Unauthorized \<Rightarrow> Unauthenticated
      | Forbidden \<Rightarrow> PermissionDenied
      | BadRequest _ \<Rightarrow> InvalidArgument
      | RateLimited \<Rightarrow> ResourceExhausted
      | PublisherQueueFull \<Rightarrow> ResourceExhausted
      | PublisherUnavailable \<Rightarrow> FailedPrecondition
      | PublisherTimeout \<Rightarrow> DeadlineExceeded
      | ApiError.Backend _ \<Rightarrow> Internal),
     gs_message = api_error_display e\<rparr>"

definition status_code :: "ApiError \<Rightarrow> nat" where
  "status_code e =
    (case e of
       Unauthorized \<Rightarrow> 401
     | Forbidden \<Rightarrow> 403
     | BadRequest _ \<Rightarrow> 400
     | RateLimited \<Rightarrow> 429
     | PublisherUnavailable \<Rightarrow> 503
     | PublisherQueueFull \<Rightarrow> 503
     | PublisherTimeout \<Rightarrow> 504
     | ApiError.Backend _ \<Rightarrow> 502)"

definition error_code :: "ApiError \<Rightarrow> string" where
  "error_code e =
    (case e of
       Unauthorized \<Rightarrow> ''unauthorized''
     | Forbidden \<Rightarrow> ''forbidden''
     | BadRequest _ \<Rightarrow> ''bad_request''
     | RateLimited \<Rightarrow> ''rate_limited''
     | PublisherUnavailable \<Rightarrow> ''publisher_unavailable''
     | PublisherTimeout \<Rightarrow> ''publisher_timeout''
     | PublisherQueueFull \<Rightarrow> ''publisher_queue_full''
     | ApiError.Backend _ \<Rightarrow> ''backend_error'')"

definition into_response :: "ApiError \<Rightarrow> nat \<times> Json" where
  "into_response e =
    (status_code e, JObj [(''code'', JStr (error_code e)), (''message'', JStr (api_error_display e))])"

subsection \<open>Shared publish validation\<close>

definition effective_message_id :: "string \<Rightarrow> string option \<Rightarrow> string" where
  "effective_message_id uuid message_id = (case message_id of Some s \<Rightarrow> s | None \<Rightarrow> uuid)"

definition validate_command ::
  "(string \<Rightarrow> (string \<times> string) option) \<Rightarrow> PublishCommand \<Rightarrow> nat \<Rightarrow> ApiError + PublishCommand" where
  "validate_command mime_parse command maximum_payload_bytes =
    (if length (pc_payload command) > maximum_payload_bytes then
       Inl (BadRequest (''payload exceeds maximum size of '' @ show_nat maximum_payload_bytes @ '' bytes''))
     else
       and_then (map_err (\<lambda>error. BadRequest (pe_message error)) (command_validate mime_parse command)) (\<lambda>_.
       Inr command))"

definition validate_json_content_type ::
  "(string \<Rightarrow> (string \<times> string) option) \<Rightarrow> (string \<Rightarrow> string option) \<Rightarrow> string \<Rightarrow> ApiError + unit" where
  "validate_json_content_type mime_parse mime_suffix content_type =
    and_then (ok_or (BadRequest ''content_type must be a valid MIME type'') (mime_parse content_type)) (\<lambda>(type, subtype).
    if type = ''application'' \<and> (subtype = ''json'' \<or> mime_suffix content_type = Some ''json'') then Inr ()
    else Inl (BadRequest ''JSON payload requires an application/json or application/*+json content_type''))"

definition map_publish_error :: "PublishError \<Rightarrow> ApiError" where
  "map_publish_error error =
    (case pe_kind error of
       InvalidInput \<Rightarrow> BadRequest (pe_message error)
     | Timeout \<Rightarrow> PublisherTimeout
     | QueueFull \<Rightarrow> PublisherQueueFull
     | PublishErrorKind.Backend \<Rightarrow> ApiError.Backend ''publish backend failed'')"

lemma validate_command_Inr [validate_simps]:
  "validate_command mime c n = Inr c' \<longleftrightarrow> c' = c \<and> length (pc_payload c) \<le> n \<and> command_validate mime c = Inr ()"
  by (auto simp: validate_command_def result_simps)

text \<open>No failure of the backend is described to the caller.\<close>

lemma map_publish_error_hides:
  "pe_kind e = PublishErrorKind.Backend \<Longrightarrow> api_error_display (map_publish_error e) = ''publish backend failed''"
  by (simp add: map_publish_error_def)

end
