(* ===== verification/Api_Auth.thy ===== *)
theory Api_Auth
  imports Api_Error
begin

text \<open>
  Tenant-scoped authentication (\<open>router-api/src/auth.rs\<close>): the five modes, the bounded key set of the JWT
  mode with its reload, and the two capabilities of a principal.

  Outside the repository, in the record \<open>AuthEnv\<close>: the file system, the parser of key sets, the
  \<open>jsonwebtoken\<close> crate and the conversion of header bytes to text. The headers of a request, and equally
  the metadata of a gRPC request, are a function from names to the bytes of the first value.
\<close>

subsection \<open>Configuration\<close>

datatype AuthMode = Disabled | StaticBearer | TrustedHeader | Jwt | ProxyMtls

record JwtConfig =
  jc_jwks_path :: string
  jc_issuer :: string
  jc_audience :: string
  jc_algorithms :: "string list"
  jc_clock_skew_secs :: u64
  jc_refresh_interval_secs :: u64
  jc_tenant_claim :: string
  jc_scope_claim :: string
  jc_subscribe_scope :: string
  jc_publish_scope :: string
  jc_max_jwks_bytes :: nat
  jc_max_jwks_keys :: nat

definition jwt_config_default :: JwtConfig where
  "jwt_config_default =
    \<lparr>jc_jwks_path = [], jc_issuer = [], jc_audience = [], jc_algorithms = [''ES256''], jc_clock_skew_secs = 30,
     jc_refresh_interval_secs = 300, jc_tenant_claim = ''tenant_id'', jc_scope_claim = ''scope'',
     jc_subscribe_scope = ''router.subscribe'', jc_publish_scope = ''router.publish'', jc_max_jwks_bytes = 262144,
     jc_max_jwks_keys = 64\<rparr>"

record ProxyIdentity =
  pi_tenant_id :: string
  pi_subscribe :: bool
  pi_publish :: bool

record AuthConfig =
  ah_mode :: AuthMode
  ah_default_tenant :: "string option"
  ah_tenant_header :: string
  ah_bearer_tokens :: "(string \<times> string) list"
  ah_publish_tenants :: "string list"
  ah_jwt :: JwtConfig
  ah_proxy_identity_header :: string
  ah_proxy_identities :: "(string \<times> ProxyIdentity) list"

definition auth_config_default :: AuthConfig where
  "auth_config_default =
    \<lparr>ah_mode = Disabled, ah_default_tenant = None, ah_tenant_header = ''x-tenant-id'', ah_bearer_tokens = [],
     ah_publish_tenants = [], ah_jwt = jwt_config_default, ah_proxy_identity_header = ''x-client-identity'',
     ah_proxy_identities = []\<rparr>"

record Principal =
  pl_tenant_id :: string
  pl_can_subscribe :: bool
  pl_can_publish :: bool

subsection \<open>Environment\<close>

datatype Algorithm = RS256 | RS384 | RS512 | ES256 | ES384 | EdDSA | OtherAlgorithm string

record JwtHeader =
  jh_kid :: "string option"
  jh_alg :: Algorithm

record 'jwk Jwk =
  jk_key_id :: "string option"
  jk_data :: 'jwk

text \<open>
  \<open>jsonwebtoken::Validation\<close> with the fields the code sets, and \<open>validate_nbf\<close>, which \<open>Validation::new\<close>
  leaves off.
\<close>

record Validation =
  va_algorithms :: "Algorithm list"
  va_leeway :: u64
  va_audience :: "string list"
  va_issuer :: "string list"
  va_required_spec_claims :: "string list"
  va_validate_nbf :: bool

record ('jwk, 'key) AuthEnv =
  ae_file_len :: "string \<Rightarrow> string + nat"
  ae_file_read :: "string \<Rightarrow> string + string"
  ae_jwk_set :: "string \<Rightarrow> string + 'jwk Jwk list"
  ae_from_jwk :: "'jwk \<Rightarrow> string + 'key"
  ae_decode_header :: "string \<Rightarrow> JwtHeader option"
  ae_decode :: "string \<Rightarrow> 'key \<Rightarrow> Validation \<Rightarrow> Json option"
  ae_to_str :: "string \<Rightarrow> string option"

type_synonym headers = "string \<Rightarrow> string option"

record 'key Authenticator =
  au_config :: AuthConfig
  au_jwks :: "(string \<times> 'key) list"

definition authenticator_new :: "AuthConfig \<Rightarrow> 'key Authenticator" where
  "authenticator_new config = \<lparr>au_config = config, au_jwks = []\<rparr>"

subsection \<open>Reloading the key set\<close>

fun load_keys :: "('jwk, 'key) AuthEnv \<Rightarrow> 'jwk Jwk list \<Rightarrow> (string \<times> 'key) list \<Rightarrow> string + (string \<times> 'key) list" where
  "load_keys env [] keys = Inr keys"
| "load_keys env (jwk # rest) keys =
    (case jk_key_id jwk of
       Some kid \<Rightarrow>
         if kid \<noteq> [] \<and> length kid \<le> 256 then
           and_then (map_err (\<lambda>e. ''invalid JWKS key '' @ kid @ '': '' @ e) (ae_from_jwk env (jk_data jwk))) (\<lambda>key.
           if map_of keys kid \<noteq> None then Inl (''duplicate JWKS kid '' @ kid)
           else load_keys env rest (AList.update kid key keys))
         else Inl ''every JWKS key requires a bounded kid''
     | None \<Rightarrow> Inl ''every JWKS key requires a bounded kid'')"

definition reload_jwks :: "('jwk, 'key) AuthEnv \<Rightarrow> 'key Authenticator \<Rightarrow> (string + unit) \<times> 'key Authenticator" where
  "reload_jwks env au =
    (let jwt = ah_jwt (au_config au) in
     if ah_mode (au_config au) \<noteq> Jwt then (Inr (), au)
     else case
       and_then (map_err (\<lambda>e. ''failed to inspect JWKS file: '' @ e) (ae_file_len env (jc_jwks_path jwt))) (\<lambda>len.
       if len > jc_max_jwks_bytes jwt then Inl ''JWKS file exceeds configured size limit''
       else
         and_then (map_err (\<lambda>e. ''failed to read JWKS file: '' @ e) (ae_file_read env (jc_jwks_path jwt))) (\<lambda>bytes.
         and_then (map_err (\<lambda>e. ''invalid JWKS JSON: '' @ e) (ae_jwk_set env bytes)) (\<lambda>keys.
         if keys = [] \<or> length keys > jc_max_jwks_keys jwt
         then Inl ''JWKS key count is empty or exceeds configured limit''
         else load_keys env keys [])))
       of
         Inl e \<Rightarrow> (Inl e, au)
       | Inr keys \<Rightarrow> (Inr (), au\<lparr>au_jwks := keys\<rparr>))"

definition jwks_refresh_interval :: "'key Authenticator \<Rightarrow> u64 option" where
  "jwks_refresh_interval au =
    (if ah_mode (au_config au) = Jwt then Some (jc_refresh_interval_secs (ah_jwt (au_config au))) else None)"

subsection \<open>Credentials\<close>

definition configured_algorithm :: "string \<Rightarrow> string + Algorithm" where
  "configured_algorithm v =
    (if v = ''RS256'' then Inr RS256 else if v = ''RS384'' then Inr RS384 else if v = ''RS512'' then Inr RS512
     else if v = ''ES256'' then Inr ES256 else if v = ''ES384'' then Inr ES384 else if v = ''EdDSA'' then Inr EdDSA
     else Inl (''unsupported or symmetric JWT algorithm '' @ v))"

fun configured_algorithms :: "string list \<Rightarrow> string + Algorithm list" where
  "configured_algorithms [] = Inr []"
| "configured_algorithms (v # vs) =
    and_then (configured_algorithm v) (\<lambda>a. and_then (configured_algorithms vs) (\<lambda>as. Inr (a # as)))"

text \<open>\<open>str::split_ascii_whitespace\<close>: the maximal runs of other bytes.\<close>

definition is_ascii_whitespace :: "char \<Rightarrow> bool" where
  "is_ascii_whitespace c \<longleftrightarrow> of_char c \<in> set [9, 10, 12, 13, 32 :: nat]"

function split_ascii_whitespace :: "string \<Rightarrow> string list" where
  "split_ascii_whitespace s =
    (case dropWhile is_ascii_whitespace s of
       [] \<Rightarrow> []
     | c # r \<Rightarrow> takeWhile (\<lambda>x. \<not> is_ascii_whitespace x) (c # r)
         # split_ascii_whitespace (dropWhile (\<lambda>x. \<not> is_ascii_whitespace x) r))"
  by pat_completeness auto
termination
proof (relation "measure length")
  fix s c r
  assume "dropWhile is_ascii_whitespace s = c # r"
  then have "length r < length s" using length_dropWhile_le [of is_ascii_whitespace s] by simp
  with length_dropWhile_le [of "\<lambda>x. \<not> is_ascii_whitespace x" r]
  show "(dropWhile (\<lambda>x. \<not> is_ascii_whitespace x) r, s) \<in> measure length" by simp
qed simp

declare split_ascii_whitespace.simps [simp del]

fun as_string :: "Json \<Rightarrow> string option" where
  "as_string (JStr s) = Some s"
| "as_string _ = None"

definition claim_scopes :: "Json option \<Rightarrow> string list option" where
  "claim_scopes value =
    (case value of
       Some (JStr scopes) \<Rightarrow> Some (split_ascii_whitespace scopes)
     | Some (JArr scopes) \<Rightarrow>
         if list_all (\<lambda>v. as_string v \<noteq> None) scopes then Some (map (\<lambda>v. the (as_string v)) scopes) else None
     | _ \<Rightarrow> None)"

definition http_header :: "('jwk, 'key) AuthEnv \<Rightarrow> headers \<Rightarrow> string \<Rightarrow> ApiError + string" where
  "http_header env headers name =
    ok_or Unauthorized (case headers name of None \<Rightarrow> None | Some bytes \<Rightarrow> ae_to_str env bytes)"

definition grpc_metadata :: "('jwk, 'key) AuthEnv \<Rightarrow> headers \<Rightarrow> string \<Rightarrow> ApiError + string" where
  "grpc_metadata env metadata name =
    ok_or Unauthorized (case metadata name of None \<Rightarrow> None | Some bytes \<Rightarrow> ae_to_str env bytes)"

definition http_authorization :: "('jwk, 'key) AuthEnv \<Rightarrow> headers \<Rightarrow> ApiError + string" where
  "http_authorization env headers = http_header env headers ''authorization''"

definition strip_prefix :: "string \<Rightarrow> string \<Rightarrow> string option" where
  "strip_prefix p s = (if take (length p) s = p then Some (drop (length p) s) else None)"

definition parse_bearer :: "string \<Rightarrow> ApiError + string" where
  "parse_bearer v =
    ok_or Unauthorized (case strip_prefix ''Bearer '' v of Some t \<Rightarrow> Some t | None \<Rightarrow> strip_prefix ''bearer '' v)"

definition principal_with_permissions :: "string \<Rightarrow> bool \<Rightarrow> bool \<Rightarrow> ApiError + Principal" where
  "principal_with_permissions tenant sub pub =
    (let tenant = trim tenant
     in if tenant = [] \<or> length tenant > 256 \<or> (\<exists>c\<in>set (chars tenant). is_control c)
        then Inl (BadRequest ''invalid tenant identity'')
        else Inr \<lparr>pl_tenant_id = tenant, pl_can_subscribe = sub, pl_can_publish = pub\<rparr>)"

definition disabled_principal :: "AuthConfig \<Rightarrow> string option \<Rightarrow> ApiError + Principal" where
  "disabled_principal config requested =
    and_then (ok_or (BadRequest ''tenant_id is required'')
      (case requested of
         Some v \<Rightarrow> if trim v \<noteq> [] then Some v else ah_default_tenant config
       | None \<Rightarrow> ah_default_tenant config)) (\<lambda>tenant.
    principal_with_permissions tenant True (tenant \<in> set (ah_publish_tenants config)))"

definition static_token :: "AuthConfig \<Rightarrow> string \<Rightarrow> ApiError + Principal" where
  "static_token config v =
    and_then (parse_bearer v) (\<lambda>token.
    and_then (ok_or Unauthorized (map_of (ah_bearer_tokens config) token)) (\<lambda>tenant.
    principal_with_permissions tenant True (tenant \<in> set (ah_publish_tenants config))))"

definition trusted_header :: "AuthConfig \<Rightarrow> string \<Rightarrow> ApiError + Principal" where
  "trusted_header config tenant = principal_with_permissions tenant True (tenant \<in> set (ah_publish_tenants config))"

definition proxy_identity :: "AuthConfig \<Rightarrow> string \<Rightarrow> ApiError + Principal" where
  "proxy_identity config ident =
    and_then (ok_or Unauthorized (map_of (ah_proxy_identities config) ident)) (\<lambda>mapping.
    principal_with_permissions (pi_tenant_id mapping) (pi_subscribe mapping) (pi_publish mapping))"

definition jwt_validation :: "JwtConfig \<Rightarrow> Algorithm list \<Rightarrow> Validation" where
  "jwt_validation jwt allowed =
    \<lparr>va_algorithms = allowed, va_leeway = jc_clock_skew_secs jwt, va_audience = [jc_audience jwt],
     va_issuer = [jc_issuer jwt], va_required_spec_claims = [''exp'', ''iss'', ''aud''], va_validate_nbf = False\<rparr>"

definition jwt_principal :: "('jwk, 'key) AuthEnv \<Rightarrow> 'key Authenticator \<Rightarrow> string \<Rightarrow> ApiError + Principal" where
  "jwt_principal env au v =
    (let jwt = ah_jwt (au_config au) in
     and_then (parse_bearer v) (\<lambda>token.
     and_then (ok_or Unauthorized (ae_decode_header env token)) (\<lambda>header.
     and_then (ok_or Unauthorized (jh_kid header)) (\<lambda>kid.
     and_then (map_err (\<lambda>_. Unauthorized) (configured_algorithms (jc_algorithms jwt))) (\<lambda>allowed.
     if jh_alg header \<notin> set allowed then Inl Unauthorized
     else
       and_then (ok_or Unauthorized (map_of (au_jwks au) kid)) (\<lambda>key.
       and_then (ok_or Unauthorized (ae_decode env token key (jwt_validation jwt allowed))) (\<lambda>claims.
       and_then (ok_or Unauthorized (case member (jc_tenant_claim jwt) claims of None \<Rightarrow> None | Some c \<Rightarrow> as_string c)) (\<lambda>tenant.
       and_then (ok_or Unauthorized (claim_scopes (member (jc_scope_claim jwt) claims))) (\<lambda>scopes.
       principal_with_permissions tenant (jc_subscribe_scope jwt \<in> set scopes) (jc_publish_scope jwt \<in> set scopes))))))))))"

subsection \<open>Authentication and authorization\<close>

definition authenticate_http ::
  "('jwk, 'key) AuthEnv \<Rightarrow> 'key Authenticator \<Rightarrow> headers \<Rightarrow> string option \<Rightarrow> ApiError + Principal" where
  "authenticate_http env au headers requested_tenant =
    (let config = au_config au in
     case ah_mode config of
       Disabled \<Rightarrow> disabled_principal config requested_tenant
     | StaticBearer \<Rightarrow> and_then (http_authorization env headers) (static_token config)
     | TrustedHeader \<Rightarrow> and_then (http_header env headers (ah_tenant_header config)) (trusted_header config)
     | Jwt \<Rightarrow> and_then (http_authorization env headers) (jwt_principal env au)
     | ProxyMtls \<Rightarrow> and_then (http_header env headers (ah_proxy_identity_header config)) (proxy_identity config))"

definition authenticate_grpc ::
  "('jwk, 'key) AuthEnv \<Rightarrow> 'key Authenticator \<Rightarrow> headers \<Rightarrow> string option \<Rightarrow> ApiError + Principal" where
  "authenticate_grpc env au metadata requested_tenant =
    (let config = au_config au in
     case ah_mode config of
       Disabled \<Rightarrow> disabled_principal config requested_tenant
     | StaticBearer \<Rightarrow> and_then (grpc_metadata env metadata ''authorization'') (static_token config)
     | TrustedHeader \<Rightarrow> and_then (grpc_metadata env metadata (ah_tenant_header config)) (trusted_header config)
     | Jwt \<Rightarrow> and_then (grpc_metadata env metadata ''authorization'') (jwt_principal env au)
     | ProxyMtls \<Rightarrow> and_then (grpc_metadata env metadata (ah_proxy_identity_header config)) (proxy_identity config))"

definition authorize_subscribe :: "Principal \<Rightarrow> ApiError + unit" where
  "authorize_subscribe p = (if pl_can_subscribe p then Inr () else Inl Forbidden)"

definition authorize_publish :: "Principal \<Rightarrow> ApiError + unit" where
  "authorize_publish p = (if pl_can_publish p then Inr () else Inl Forbidden)"

subsection \<open>What the checks mean\<close>

lemma principal_with_permissions_Inr [validate_simps]:
  "principal_with_permissions tenant sub pub = Inr p \<longleftrightarrow>
    p = \<lparr>pl_tenant_id = trim tenant, pl_can_subscribe = sub, pl_can_publish = pub\<rparr> \<and> identifier_ok 256 (trim tenant)"
proof -
  have "trim tenant = [] \<longleftrightarrow> (\<forall>c\<in>set (chars (trim tenant)). is_whitespace c)"
    using trim_empty_iff [of "trim tenant"] by simp
  then show ?thesis by (auto simp: principal_with_permissions_def Let_def identifier_ok_def)
qed

lemma configured_algorithm_Inr:
  "configured_algorithm v = Inr a \<Longrightarrow> a \<in> {RS256, RS384, RS512, ES256, ES384, EdDSA}"
  by (auto simp: configured_algorithm_def split: if_splits)

lemma configured_algorithms_Inr:
  "configured_algorithms vs = Inr as \<Longrightarrow> set as \<subseteq> {RS256, RS384, RS512, ES256, ES384, EdDSA}"
  by (induction vs arbitrary: as) (auto simp: result_simps dest!: configured_algorithm_Inr)

text \<open>Both protocols authenticate alike; the rest is stated for HTTP.\<close>

lemma authenticate_grpc_eq: "authenticate_grpc env au headers requested = authenticate_http env au headers requested"
  unfolding authenticate_grpc_def authenticate_http_def grpc_metadata_def http_header_def http_authorization_def ..

lemmas auth_simps = static_token_def trusted_header_def proxy_identity_def disabled_principal_def
  http_authorization_def http_header_def result_simps validate_simps

definition credential_header :: "AuthConfig \<Rightarrow> string" where
  "credential_header config =
    (case ah_mode config of TrustedHeader \<Rightarrow> ah_tenant_header config | ProxyMtls \<Rightarrow> ah_proxy_identity_header config
     | _ \<Rightarrow> ''authorization'')"

definition credential :: "('jwk, 'key) AuthEnv \<Rightarrow> AuthConfig \<Rightarrow> headers \<Rightarrow> string option" where
  "credential env config headers =
    (case headers (credential_header config) of None \<Rightarrow> None | Some bytes \<Rightarrow> ae_to_str env bytes)"

text \<open>Outside the development mode the credential alone decides.\<close>

lemma authenticate_by_credential:
  assumes "ah_mode (au_config au) \<noteq> Disabled"
  shows "authenticate_http env au headers requested =
    and_then (ok_or Unauthorized (credential env (au_config au) headers))
      (case ah_mode (au_config au) of StaticBearer \<Rightarrow> static_token (au_config au) | TrustedHeader \<Rightarrow> trusted_header (au_config au)
       | Jwt \<Rightarrow> jwt_principal env au | _ \<Rightarrow> proxy_identity (au_config au))"
  using assms by (cases "ah_mode (au_config au)")
    (simp_all add: authenticate_http_def credential_def credential_header_def http_header_def http_authorization_def Let_def)

text \<open>An accepted JWT, step by step.\<close>

lemma jwt_principal_Inr:
  assumes "jwt_principal env au v = Inr p"
  obtains token header kid allowed key claims tenant scopes where
    "parse_bearer v = Inr token" "ae_decode_header env token = Some header" "jh_kid header = Some kid"
    "configured_algorithms (jc_algorithms (ah_jwt (au_config au))) = Inr allowed" "jh_alg header \<in> set allowed"
    "map_of (au_jwks au) kid = Some key" "ae_decode env token key (jwt_validation (ah_jwt (au_config au)) allowed) = Some claims"
    "member (jc_tenant_claim (ah_jwt (au_config au))) claims = Some (JStr tenant)"
    "claim_scopes (member (jc_scope_claim (ah_jwt (au_config au))) claims) = Some scopes"
    "p = \<lparr>pl_tenant_id = trim tenant, pl_can_subscribe = (jc_subscribe_scope (ah_jwt (au_config au)) \<in> set scopes),
          pl_can_publish = (jc_publish_scope (ah_jwt (au_config au)) \<in> set scopes)\<rparr>"
    "identifier_ok 256 (trim tenant)"
proof -
  have as_str: "as_string c = Some t \<longleftrightarrow> c = JStr t" for c t by (cases c) auto
  from assms show thesis
    unfolding jwt_principal_def Let_def
    by (auto simp: result_simps validate_simps as_str split: if_splits option.splits intro: that)
qed

subsection \<open>The key set\<close>

definition keys_of :: "('jwk, 'key) AuthEnv \<Rightarrow> 'jwk Jwk list \<Rightarrow> (string \<times> 'key) list \<Rightarrow> bool" where
  "keys_of env jwks keys \<longleftrightarrow> distinct (map fst keys)
    \<and> list_all2 (\<lambda>jwk (kid, key). jk_key_id jwk = Some kid \<and> kid \<noteq> [] \<and> length kid \<le> 256
        \<and> ae_from_jwk env (jk_data jwk) = Inr key) jwks keys"

lemma load_keys_Inr:
  assumes "load_keys env jwks keys = Inr keys'" and "keys_of env done keys"
  shows "keys_of env (done @ jwks) keys'"
  using assms
proof (induction jwks arbitrary: keys "done")
  case Nil
  then show ?case by simp
next
  case (Cons jwk jwks)
  from Cons.prems(1) obtain kid key where k: "jk_key_id jwk = Some kid" "kid \<noteq> []" "length kid \<le> 256"
    "ae_from_jwk env (jk_data jwk) = Inr key" "map_of keys kid = None"
    "load_keys env jwks (AList.update kid key keys) = Inr keys'"
    by (auto simp: result_simps split: option.splits if_splits)
  have "keys_of env (done @ [jwk]) (AList.update kid key keys)"
    using Cons.prems(2) k by (auto simp: keys_of_def alist_update_fresh list_all2_appendI map_of_eq_None_iff)
  from Cons.IH [OF k(6) this] show ?case by simp
qed

subsection \<open>Laws of the token library\<close>

text \<open>
  What \<open>jsonwebtoken::decode\<close> documents: an accepted token has an algorithm among those of the validation,
  its signature was verified with the key under that algorithm (\<open>verified\<close>), its issuer and audience
  claims are among the configured ones, and with \<open>exp\<close> required it has not expired beyond the leeway
  (\<open>unexpired\<close>). A claim that may name several is a string or an array of strings.
\<close>

fun claim_names :: "Json option \<Rightarrow> string list \<Rightarrow> bool" where
  "claim_names (Some (JStr s)) names \<longleftrightarrow> s \<in> set names"
| "claim_names (Some (JArr vs)) names \<longleftrightarrow> list_ex (\<lambda>n. JStr n \<in> set vs) names"
| "claim_names _ names \<longleftrightarrow> False"

definition jwt_laws ::
  "('jwk, 'key) AuthEnv \<Rightarrow> (string \<Rightarrow> 'key \<Rightarrow> Algorithm \<Rightarrow> bool) \<Rightarrow> (Json \<Rightarrow> u64 \<Rightarrow> bool) \<Rightarrow> bool" where
  "jwt_laws env verified unexpired \<longleftrightarrow>
    (\<forall>token key v claims. ae_decode env token key v = Some claims \<longrightarrow>
      (\<exists>h. ae_decode_header env token = Some h \<and> jh_alg h \<in> set (va_algorithms v) \<and> verified token key (jh_alg h))
      \<and> (''exp'' \<in> set (va_required_spec_claims v) \<longrightarrow> unexpired claims (va_leeway v))
      \<and> claim_names (member ''iss'' claims) (va_issuer v) \<and> claim_names (member ''aud'' claims) (va_audience v))"

subsection \<open>A sample token service\<close>

definition sample_claims :: Json where
  "sample_claims = JObj [(''iss'', JStr ''https://issuer''), (''aud'', JStr ''router''), (''tenant_id'', JStr ''t1''),
     (''scope'', JStr ''router.subscribe'')]"

definition sample_auth_env :: "(unit, string) AuthEnv" where
  "sample_auth_env = \<lparr>ae_file_len = (\<lambda>_. Inr 10), ae_file_read = (\<lambda>_. Inr ''{}''),
     ae_jwk_set = (\<lambda>_. Inr [\<lparr>jk_key_id = Some ''k1'', jk_data = ()\<rparr>]), ae_from_jwk = (\<lambda>_. Inr ''public-key''),
     ae_decode_header = (\<lambda>token. if token = ''tok'' then Some \<lparr>jh_kid = Some ''k1'', jh_alg = ES256\<rparr> else None),
     ae_decode = (\<lambda>token key v. if token = ''tok'' \<and> key = ''public-key'' \<and> ES256 \<in> set (va_algorithms v)
        \<and> ''https://issuer'' \<in> set (va_issuer v) \<and> ''router'' \<in> set (va_audience v) then Some sample_claims else None),
     ae_to_str = Some\<rparr>"

definition sample_auth_config :: AuthConfig where
  "sample_auth_config = auth_config_default\<lparr>ah_mode := Jwt,
     ah_jwt := jwt_config_default\<lparr>jc_issuer := ''https://issuer'', jc_audience := ''router''\<rparr>\<rparr>"

definition sample_authenticator :: "string Authenticator" where
  "sample_authenticator = \<lparr>au_config = sample_auth_config, au_jwks = [(''k1'', ''public-key'')]\<rparr>"

definition sample_headers :: headers where
  "sample_headers name = (if name = ''authorization'' then Some ''Bearer tok'' else None)"

lemma sample_jwt_laws: "jwt_laws sample_auth_env (\<lambda>token key a. token = ''tok'' \<and> key = ''public-key'' \<and> a = ES256) (\<lambda>_ _. True)"
  by (simp add: jwt_laws_def sample_auth_env_def sample_claims_def)

lemma trim_no_whitespace:
  assumes "ascii_str s" and "\<forall>c\<in>set s. \<not> is_whitespace (of_char c)"
  shows "trim s = s"
proof -
  have "dropWhile (is_whitespace \<circ> fst) ps = ps" if "set ps \<subseteq> set (str_chars s)" for ps
    using that assms by (cases ps) (auto simp: str_chars_ascii)
  then have "trim_chars (str_chars s) = str_chars s" by (simp add: trim_chars_def)
  then show ?thesis by (simp add: trim_def concat_str_chars)
qed

lemma sample_scopes: "split_ascii_whitespace ''router.subscribe'' = [''router.subscribe'']"
  by (simp add: split_ascii_whitespace.simps is_ascii_whitespace_def)

lemma sample_authenticated:
  "authenticate_http sample_auth_env sample_authenticator sample_headers None
    = Inr \<lparr>pl_tenant_id = ''t1'', pl_can_subscribe = True, pl_can_publish = False\<rparr>"
proof -
  have "jwt_principal sample_auth_env sample_authenticator ''Bearer tok''
      = Inr \<lparr>pl_tenant_id = ''t1'', pl_can_subscribe = True, pl_can_publish = False\<rparr>"
    by (simp add: jwt_principal_def parse_bearer_def strip_prefix_def sample_auth_env_def sample_authenticator_def
      sample_auth_config_def auth_config_default_def jwt_config_default_def configured_algorithm_def jwt_validation_def
      sample_claims_def claim_scopes_def sample_scopes validate_simps
      trim_no_whitespace is_whitespace_def is_control_def)
  then show ?thesis
    by (simp add: authenticate_http_def sample_authenticator_def sample_auth_config_def auth_config_default_def
      http_authorization_def http_header_def sample_headers_def sample_auth_env_def)
qed

subsection \<open>Properties\<close>

text \<open>
  C30. The tenant comes from the credential: outside the development mode a request that authenticates
  does so with the same principal whatever tenant it asks for, over gRPC as over HTTP, and the tenant is
  the one configured for the presented token or certificate identity, the one of the trusted header, or
  the one of the verified claims.
\<close>

theorem tenant_from_credential:
  assumes "authenticate_http env au headers requested = Inr p" and "ah_mode (au_config au) \<noteq> Disabled"
  shows "authenticate_http env au headers other = Inr p \<and> authenticate_grpc env au headers other = Inr p
    \<and> (\<exists>v. credential env (au_config au) headers = Some v
        \<and> (case ah_mode (au_config au) of
             StaticBearer \<Rightarrow> \<exists>token tenant. parse_bearer v = Inr token \<and> map_of (ah_bearer_tokens (au_config au)) token = Some tenant
               \<and> pl_tenant_id p = trim tenant \<and> pl_can_publish p = (tenant \<in> set (ah_publish_tenants (au_config au)))
           | TrustedHeader \<Rightarrow> pl_tenant_id p = trim v \<and> pl_can_publish p = (v \<in> set (ah_publish_tenants (au_config au)))
           | ProxyMtls \<Rightarrow> \<exists>m. map_of (ah_proxy_identities (au_config au)) v = Some m \<and> pl_tenant_id p = trim (pi_tenant_id m)
               \<and> pl_can_subscribe p = pi_subscribe m \<and> pl_can_publish p = pi_publish m
           | _ \<Rightarrow> jwt_principal env au v = Inr p))"
  using assms(1) unfolding authenticate_grpc_eq authenticate_by_credential [OF assms(2)]
  by (cases "ah_mode (au_config au)") (auto simp: assms(2) auth_simps)

theorem tenant_from_credential_witness:
  "authenticate_grpc sample_auth_env sample_authenticator sample_headers (Some ''t2'')
    = Inr \<lparr>pl_tenant_id = ''t1'', pl_can_subscribe = True, pl_can_publish = False\<rparr>"
proof -
  have "ah_mode (au_config sample_authenticator) \<noteq> Disabled"
    by (simp add: sample_authenticator_def sample_auth_config_def)
  from tenant_from_credential [OF sample_authenticated this] show ?thesis by blast
qed

text \<open>
  C31. An accepted JWT has been verified with a key of the current key set under one of the six
  asymmetric algorithms, names the configured issuer and audience and has not expired beyond the
  configured skew; the capabilities of the principal are exactly the scopes it claims.
\<close>

theorem jwt_sound:
  assumes "jwt_laws env verified unexpired" and "jwt_principal env au v = Inr p"
  shows "\<exists>token kid key claims tenant scopes alg. parse_bearer v = Inr token \<and> map_of (au_jwks au) kid = Some key
    \<and> verified token key alg \<and> alg \<in> set [RS256, RS384, RS512, ES256, ES384, EdDSA]
    \<and> claim_names (member ''iss'' claims) [jc_issuer (ah_jwt (au_config au))]
    \<and> claim_names (member ''aud'' claims) [jc_audience (ah_jwt (au_config au))]
    \<and> unexpired claims (jc_clock_skew_secs (ah_jwt (au_config au)))
    \<and> member (jc_tenant_claim (ah_jwt (au_config au))) claims = Some (JStr tenant) \<and> pl_tenant_id p = trim tenant
    \<and> claim_scopes (member (jc_scope_claim (ah_jwt (au_config au))) claims) = Some scopes
    \<and> pl_can_subscribe p = (jc_subscribe_scope (ah_jwt (au_config au)) \<in> set scopes)
    \<and> pl_can_publish p = (jc_publish_scope (ah_jwt (au_config au)) \<in> set scopes)"
proof -
  from assms(2) obtain token header kid allowed key claims tenant scopes where
    j: "parse_bearer v = Inr token" "ae_decode_header env token = Some header"
      "configured_algorithms (jc_algorithms (ah_jwt (au_config au))) = Inr allowed" "map_of (au_jwks au) kid = Some key"
      "ae_decode env token key (jwt_validation (ah_jwt (au_config au)) allowed) = Some claims"
      "member (jc_tenant_claim (ah_jwt (au_config au))) claims = Some (JStr tenant)"
      "claim_scopes (member (jc_scope_claim (ah_jwt (au_config au))) claims) = Some scopes"
      "p = \<lparr>pl_tenant_id = trim tenant, pl_can_subscribe = (jc_subscribe_scope (ah_jwt (au_config au)) \<in> set scopes),
          pl_can_publish = (jc_publish_scope (ah_jwt (au_config au)) \<in> set scopes)\<rparr>"
    by (rule jwt_principal_Inr)
  from j(2,5) assms(1) have "jh_alg header \<in> set allowed" "verified token key (jh_alg header)"
    "unexpired claims (jc_clock_skew_secs (ah_jwt (au_config au)))"
    "claim_names (member ''iss'' claims) [jc_issuer (ah_jwt (au_config au))]"
    "claim_names (member ''aud'' claims) [jc_audience (ah_jwt (au_config au))]"
    unfolding jwt_laws_def by (fastforce simp: jwt_validation_def)+
  moreover have "jh_alg header \<in> set [RS256, RS384, RS512, ES256, ES384, EdDSA]"
    using configured_algorithms_Inr [OF j(3)] calculation(1) by auto
  ultimately show ?thesis using j(1,4,6,7) unfolding j(8)
    by (intro exI [of _ token] exI [of _ kid] exI [of _ key] exI [of _ claims] exI [of _ tenant] exI [of _ scopes]
      exI [of _ "jh_alg header"]) simp
qed

theorem jwt_sound_witness:
  "\<exists>token kid key alg. parse_bearer ''Bearer tok'' = Inr token \<and> map_of (au_jwks sample_authenticator) kid = Some key
    \<and> (token = ''tok'' \<and> key = ''public-key'' \<and> alg = ES256) \<and> alg \<in> set [RS256, RS384, RS512, ES256, ES384, EdDSA]"
proof -
  have "jwt_principal sample_auth_env sample_authenticator ''Bearer tok''
      = Inr \<lparr>pl_tenant_id = ''t1'', pl_can_subscribe = True, pl_can_publish = False\<rparr>"
    using sample_authenticated
    by (simp add: authenticate_http_def sample_authenticator_def sample_auth_config_def auth_config_default_def
      http_authorization_def http_header_def sample_headers_def sample_auth_env_def)
  from jwt_sound [OF sample_jwt_laws this] show ?thesis by blast
qed

text \<open>
  A reload of the key set is atomic and bounded: when it fails, for whatever reason, the previous
  keys stay in use; when it succeeds, the keys are exactly those of the file, at least one and no more
  than configured, each under its own non-empty key id of at most 256 bytes.
\<close>

theorem jwks_reload_atomic:
  "case reload_jwks env au of
      (Inl e, au') \<Rightarrow> au' = au
    | (Inr _, au') \<Rightarrow> au_config au' = au_config au
        \<and> (if ah_mode (au_config au) = Jwt
           then \<exists>bytes jwks. ae_file_read env (jc_jwks_path (ah_jwt (au_config au))) = Inr bytes \<and> ae_jwk_set env bytes = Inr jwks
             \<and> keys_of env jwks (au_jwks au') \<and> 0 < length (au_jwks au')
             \<and> length (au_jwks au') \<le> jc_max_jwks_keys (ah_jwt (au_config au))
           else au' = au)"
proof (cases "ah_mode (au_config au) = Jwt")
  case False
  then show ?thesis by (simp add: reload_jwks_def)
next
  case True
  show ?thesis
  proof (cases "reload_jwks env au")
    case (Pair res au')
    show ?thesis
    proof (cases res)
      case (Inl e)
      with Pair True show ?thesis by (auto simp: reload_jwks_def Let_def split: sum.splits)
    next
      case (Inr u)
      with Pair True obtain bytes jwks keys where
        k: "ae_file_read env (jc_jwks_path (ah_jwt (au_config au))) = Inr bytes" "ae_jwk_set env bytes = Inr jwks" "jwks \<noteq> []"
          "length jwks \<le> jc_max_jwks_keys (ah_jwt (au_config au))" "load_keys env jwks [] = Inr keys" "au' = au\<lparr>au_jwks := keys\<rparr>"
        by (auto simp: reload_jwks_def Let_def result_simps split: sum.splits if_splits)
      have "keys_of env jwks keys" using load_keys_Inr [OF k(5), of "[]"] by (simp add: keys_of_def)
      moreover from this have "length jwks = length keys" unfolding keys_of_def by (blast dest: list_all2_lengthD)
      ultimately show ?thesis using Pair Inr True k by auto
    qed
  qed
qed

text \<open>
  Every principal is well-formed: its tenant is a trimmed identifier that the router accepts, non-empty,
  at most 256 bytes long and without control characters.
\<close>

theorem principal_well_formed:
  assumes "authenticate_http env au headers requested = Inr p"
  shows "validate_identifier ''tenant_id'' (pl_tenant_id p) 256 = Inr () \<and> trim (pl_tenant_id p) = pl_tenant_id p
    \<and> pl_tenant_id p \<noteq> []"
proof -
  have "\<exists>t sub pub. principal_with_permissions t sub pub = Inr p"
  proof (cases "ah_mode (au_config au) = Disabled")
    case True
    with assms show ?thesis by (auto simp: authenticate_http_def disabled_principal_def result_simps Let_def)
  next
    case False
    from assms show ?thesis unfolding authenticate_by_credential [OF False]
      by (cases "ah_mode (au_config au)")
        (use False in \<open>auto simp: static_token_def trusted_header_def proxy_identity_def result_simps
          jwt_principal_def Let_def split: if_splits\<close>)
  qed
  then show ?thesis by (auto simp: validate_simps dest: identifier_ok_nonempty)
qed

theorem principal_well_formed_witness:
  "validate_identifier ''tenant_id'' ''t1'' 256 = Inr ()"
  using principal_well_formed [OF sample_authenticated] by simp

end
