(* ===== verification/Systems.thy ===== *)
theory Systems
  imports Main
begin

text \<open>
  Two contracts shared by the stateful components. \<open>step_invariant\<close>: a predicate that every step of
  a transition relation keeps holds in every reachable state. \<open>run_invariant\<close>: the same for an
  operation applied to a sequence of inputs. Each component interprets one of them on its own
  operations, so that preservation is proved per operation and reachability once.
\<close>

locale step_invariant =
  fixes step :: "'s \<Rightarrow> 's \<Rightarrow> bool" and inv :: "'s \<Rightarrow> bool"
  assumes inv_step: "inv s \<Longrightarrow> step s t \<Longrightarrow> inv t"
begin

lemma inv_reachable: "step\<^sup>*\<^sup>* s t \<Longrightarrow> inv s \<Longrightarrow> inv t"
  by (induction rule: rtranclp_induct) (auto intro: inv_step)

lemma inv_along: "step\<^sup>*\<^sup>* s t \<Longrightarrow> step t u \<Longrightarrow> inv s \<Longrightarrow> inv u"
  using inv_reachable inv_step by blast

end

locale run_invariant =
  fixes apply_input :: "'i \<Rightarrow> 's \<Rightarrow> 's" and inv :: "'s \<Rightarrow> bool"
  assumes inv_input: "inv s \<Longrightarrow> inv (apply_input i s)"
begin

lemma inv_run: "inv s \<Longrightarrow> inv (fold apply_input is s)"
  by (induction "is" arbitrary: s) (simp_all add: inv_input)

end

end
