(* ===== verification/Rate_Window.thy ===== *)
theory Rate_Window
  imports Systems
begin

text \<open>
  The contract of a fixed-window rate limiter, shared by the API's process-wide limiter and the
  limiter of one WebSocket connection. An attempt is made at a time and for a request. A request is
  charged to some budgets; \<open>used\<close> counts what a budget has spent in the current window and \<open>window\<close> is
  the window's start. A window lasts for \<open>span\<close>; the first attempt after its end opens the next one.

  The consequence: in any interval of one span, wherever it starts, a budget admits at most twice its
  limit, since the interval meets at most two windows.
\<close>

record 'r Admission =
  ad_window :: nat
  ad_at :: nat
  ad_request :: 'r

text \<open>Admissions whose windows are disjoint spans: a bound per window gives a bound per interval.\<close>

lemma filter_length_two:
  assumes "\<And>x. x \<in> set xs \<Longrightarrow> P x \<Longrightarrow> Q x \<or> R x"
  shows "length (filter P xs) \<le> length (filter Q xs) + length (filter R xs)"
  using assms by (induction xs) fastforce+

lemma interval_meets_two_windows:
  assumes inside: "\<And>e. e \<in> set log \<Longrightarrow> ad_window e \<le> ad_at e \<and> ad_at e < ad_window e + d"
    and apart: "\<And>e f. e \<in> set log \<Longrightarrow> f \<in> set log \<Longrightarrow> ad_window e < ad_window f \<Longrightarrow> ad_window e + d \<le> ad_window f"
    and per_window: "\<And>s. length (filter (\<lambda>e. Q e \<and> ad_window e = s) log) \<le> n"
  shows "length (filter (\<lambda>e. Q e \<and> a \<le> ad_at e \<and> ad_at e < a + d) log) \<le> 2 * n"
proof (cases "filter (\<lambda>e. Q e \<and> a \<le> ad_at e \<and> ad_at e < a + d) log = []")
  case True
  show ?thesis unfolding True by simp
next
  case False
  let ?hit = "filter (\<lambda>e. Q e \<and> a \<le> ad_at e \<and> ad_at e < a + d) log"
  let ?W = "ad_window ` set ?hit"
  let ?lo = "Min ?W" and ?hi = "Max ?W"
  have W: "finite ?W" "?W \<noteq> {}" using False by (simp_all only: finite_imageI finite_set image_is_empty set_empty not_False_eq_True)
  obtain el where el: "el \<in> set ?hit" "ad_window el = ?lo" using Min_in [OF W] by auto
  obtain eh where eh: "eh \<in> set ?hit" "ad_window eh = ?hi" using Max_in [OF W] by auto
  have "ad_window e = ?lo \<or> ad_window e = ?hi" if e: "e \<in> set ?hit" for e
  proof (rule ccontr)
    assume "\<not> ?thesis"
    moreover have "?lo \<le> ad_window e" "ad_window e \<le> ?hi" using W(1) e by (simp_all only: Min_le Max_ge imageI)
    ultimately have "ad_window el < ad_window e" "ad_window e < ad_window eh" using el(2) eh(2) by simp_all
    then have "ad_window el + d \<le> ad_window e" "ad_window e + d \<le> ad_window eh"
      using apart el(1) eh(1) e by simp_all
    moreover have "ad_at el < ad_window el + d" "ad_window eh \<le> ad_at eh" using inside el(1) eh(1) by simp_all
    moreover have "a \<le> ad_at el" "ad_at eh < a + d" using el(1) eh(1) by simp_all
    ultimately show False by linarith
  qed
  then have "length ?hit \<le> length (filter (\<lambda>e. Q e \<and> ad_window e = ?lo) log) + length (filter (\<lambda>e. Q e \<and> ad_window e = ?hi) log)"
    by (intro filter_length_two) simp
  with per_window [of ?lo] per_window [of ?hi] show ?thesis by linarith
qed

text \<open>
  A run of a limiter: the time of the last attempt, the limiter, and the admissions so far. An input is
  the delay since the last attempt and a request.
\<close>

definition advance ::
  "(nat \<Rightarrow> 'r \<Rightarrow> 's \<Rightarrow> bool \<times> 's) \<Rightarrow> ('s \<Rightarrow> nat) \<Rightarrow> nat \<times> 'r
   \<Rightarrow> nat \<times> 's \<times> 'r Admission list \<Rightarrow> nat \<times> 's \<times> 'r Admission list" where
  "advance attempt window i st =
    (case (i, st) of ((delay, r), (now, s, log)) \<Rightarrow>
      let t = now + delay; (ok, s') = attempt t r s
      in (t, s', if ok then log @ [\<lparr>ad_window = window s', ad_at = t, ad_request = r\<rparr>] else log))"

locale fixed_window =
  fixes attempt :: "nat \<Rightarrow> 'r \<Rightarrow> 's \<Rightarrow> bool \<times> 's"
    and valid :: "'s \<Rightarrow> bool" and window :: "'s \<Rightarrow> nat" and span :: nat
    and used :: "'s \<Rightarrow> 'b \<Rightarrow> nat" and limit :: "'b \<Rightarrow> nat" and charges :: "'r \<Rightarrow> 'b \<Rightarrow> bool"
  assumes span_positive: "0 < span"
    and valid_attempt: "valid s \<Longrightarrow> window s \<le> t \<Longrightarrow> valid (snd (attempt t r s))"
    and window_rolls: "valid s \<Longrightarrow> window s \<le> t \<Longrightarrow>
      window (snd (attempt t r s)) = (if window s + span \<le> t then t else window s)"
    and used_counts: "valid s \<Longrightarrow> window s \<le> t \<Longrightarrow> used (snd (attempt t r s)) b =
      (if window s + span \<le> t then 0 else used s b) + (if fst (attempt t r s) \<and> charges r b then 1 else 0)"
    and admits_within: "valid s \<Longrightarrow> window s \<le> t \<Longrightarrow> fst (attempt t r s) \<Longrightarrow> charges r b \<Longrightarrow>
      used (snd (attempt t r s)) b \<le> limit b"
begin

definition spent :: "'b \<Rightarrow> nat \<Rightarrow> 'r Admission list \<Rightarrow> nat" where
  "spent b w log = length (filter (\<lambda>e. charges (ad_request e) b \<and> ad_window e = w) log)"

definition log_inv :: "nat \<times> 's \<times> 'r Admission list \<Rightarrow> bool" where
  "log_inv st = (case st of (now, s, log) \<Rightarrow> valid s \<and> window s \<le> now
    \<and> (\<forall>e\<in>set log. ad_window e \<le> ad_at e \<and> ad_at e < ad_window e + span \<and> ad_window e \<le> window s)
    \<and> (\<forall>e\<in>set log. \<forall>f\<in>set log. ad_window e < ad_window f \<longrightarrow> ad_window e + span \<le> ad_window f)
    \<and> (\<forall>e\<in>set log. ad_window e < window s \<longrightarrow> ad_window e + span \<le> window s)
    \<and> (\<forall>b. spent b (window s) log = used s b) \<and> (\<forall>b w. spent b w log \<le> limit b))"

lemma spent_snoc: "spent b w (log @ [e]) = spent b w log + (if charges (ad_request e) b \<and> ad_window e = w then 1 else 0)"
  by (simp add: spent_def)

lemma spent_unseen: "(\<And>e. e \<in> set log \<Longrightarrow> ad_window e \<noteq> w) \<Longrightarrow> spent b w log = 0"
  by (auto simp: spent_def filter_empty_conv)

lemma log_inv_advance:
  assumes "log_inv st"
  shows "log_inv (advance attempt window i st)"
proof -
  obtain delay r now s log where st: "i = (delay, r)" "st = (now, s, log)" by (metis prod.exhaust)
  let ?t = "now + delay" and ?s' = "snd (attempt (now + delay) r s)" and ?ok = "fst (attempt (now + delay) r s)"
  let ?e = "\<lparr>ad_window = window ?s', ad_at = ?t, ad_request = r\<rparr>"
  let ?log = "if ?ok then log @ [?e] else log"
  have step: "advance attempt window i st = (?t, ?s', ?log)" by (simp add: advance_def st Let_def case_prod_beta)
  have v: "valid s" and le: "window s \<le> ?t" using assms by (simp_all add: log_inv_def st)
  note laws = valid_attempt [OF v le, of r] window_rolls [OF v le, of r] used_counts [OF v le, of r]
  have old: "ad_window e \<le> ad_at e" "ad_at e < ad_window e + span" "ad_window e \<le> window s"
      "ad_window e < window s \<Longrightarrow> ad_window e + span \<le> window s" if "e \<in> set log" for e
    using assms that by (simp_all add: log_inv_def st)
  have win: "window ?s' \<le> ?t" "?t < window ?s' + span" "window s \<le> window ?s'"
    using laws(2) le span_positive by auto
  have grow: "ad_window e \<le> window ?s'" "ad_window e < window ?s' \<Longrightarrow> ad_window e + span \<le> window ?s'"
    if "e \<in> set log" for e
    using old [OF that] laws(2) by (auto split: if_splits)
  have used: "spent b (window ?s') ?log = used ?s' b" for b
  proof (cases "window s + span \<le> ?t")
    case True
    then have "ad_window e \<noteq> window ?s'" if "e \<in> set log" for e
      using old(3) [OF that] laws(2) span_positive by auto
    with True laws(3) show ?thesis by (simp add: spent_snoc spent_unseen)
  next
    case False
    with assms laws(2,3) show ?thesis by (simp add: spent_snoc log_inv_def st)
  qed
  have bound: "spent b w ?log \<le> limit b" for b w
  proof (cases "?ok \<and> charges r b \<and> w = window ?s'")
    case True
    with used [of b] admits_within [OF v le, of r b] show ?thesis by simp
  next
    case False
    with assms show ?thesis by (auto simp: spent_snoc log_inv_def st)
  qed
  have apart: "ad_window e + span \<le> ad_window f" if "e \<in> set ?log" "f \<in> set ?log" "ad_window e < ad_window f" for e f
    using that assms grow by (force simp: log_inv_def st split: if_splits)
  show ?thesis unfolding step log_inv_def prod.case
    using laws(1) win grow old apart used bound by (auto split: if_splits)
qed

end

sublocale fixed_window \<subseteq> run_invariant "advance attempt window" log_inv
  by unfold_locales (rule log_inv_advance)

context fixed_window
begin

lemma admissions_bounded:
  assumes "log_inv st" and "fold (advance attempt window) is st = (now, s, log)"
  shows "length (filter (\<lambda>e. charges (ad_request e) b \<and> a \<le> ad_at e \<and> ad_at e < a + span) log) \<le> 2 * limit b"
proof -
  have inv: "log_inv (now, s, log)" using inv_run [OF assms(1), of "is"] unfolding assms(2) .
  then have "length (filter (\<lambda>e. charges (ad_request e) b \<and> ad_window e = w) log) \<le> limit b" for w
    by (simp add: log_inv_def spent_def)
  with inv show ?thesis
    by (intro interval_meets_two_windows) (auto simp: log_inv_def)
qed

lemma log_inv_start: "valid s \<Longrightarrow> window s \<le> now \<Longrightarrow> (\<And>b. used s b = 0) \<Longrightarrow> log_inv (now, s, [])"
  by (simp add: log_inv_def spent_def)

end

end
