(* ===== verification/Route_Index.thy ===== *)
theory Route_Index
  imports Router
begin

text \<open>
  The compiled index as a data structure. \<open>indexed\<close> reads it as a relation between route keys,
  connections and subscription ids; \<open>routes_wf\<close> says that no key or connection occurs twice and
  that no bucket and no id list is empty (the clean-up in \<open>remove_from_route\<close>). The locale
  \<open>subscription_index\<close> is the contract the router's operations rely on; it is interpreted on
  \<open>add_to_route\<close> and \<open>remove_from_route\<close>. The last part is what \<open>collect_matches\<close> finds.
\<close>

definition bucket_wf :: "Bucket \<Rightarrow> bool" where
  "bucket_wf b \<longleftrightarrow> distinct (map fst b) \<and> (\<forall>(c, ids)\<in>set b. ids \<noteq> [] \<and> distinct ids)"

definition routes_wf :: "(RouteKey \<times> Bucket) list \<Rightarrow> bool" where
  "routes_wf routes \<longleftrightarrow> distinct (map fst routes) \<and> (\<forall>(k, b)\<in>set routes. b \<noteq> [] \<and> bucket_wf b)"

definition in_bucket :: "Bucket \<Rightarrow> connection_id \<Rightarrow> SubscriptionId \<Rightarrow> bool" where
  "in_bucket b c s \<longleftrightarrow> s \<in> set (or_default (map_of b c))"

definition indexed :: "(RouteKey \<times> Bucket) list \<Rightarrow> RouteKey \<Rightarrow> connection_id \<Rightarrow> SubscriptionId \<Rightarrow> bool" where
  "indexed routes k c s \<longleftrightarrow> in_bucket (or_default (map_of routes k)) c s"

locale subscription_index =
  fixes add :: "RouteKey \<Rightarrow> connection_id \<Rightarrow> SubscriptionId \<Rightarrow> 'i \<Rightarrow> 'i"
    and remove :: "connection_id \<Rightarrow> SubscriptionId \<Rightarrow> RouteFilter \<Rightarrow> 'i \<Rightarrow> 'i"
    and entry :: "'i \<Rightarrow> RouteKey \<Rightarrow> connection_id \<Rightarrow> SubscriptionId \<Rightarrow> bool"
    and wf :: "'i \<Rightarrow> bool"
  assumes add_wf: "wf i \<Longrightarrow> \<not> entry i k c s \<Longrightarrow> wf (add k c s i)"
    and add_entry: "entry (add k c s i) k' c' s' \<longleftrightarrow> (k', c', s') = (k, c, s) \<or> entry i k' c' s'"
    and remove_wf: "wf i \<Longrightarrow> wf (remove c s f i)"
    and remove_entry:
      "entry (remove c s f i) k' c' s' \<longleftrightarrow> (k', c', s') \<noteq> (route_key_of f, c, s) \<and> entry i k' c' s'"
begin

text \<open>Removing the subscriptions of a connection one by one, as unregistering does.\<close>

definition remove_all :: "connection_id \<Rightarrow> (SubscriptionId \<times> RouteFilter) list \<Rightarrow> 'i \<Rightarrow> 'i" where
  "remove_all c subs i = fold (\<lambda>(s, f). remove c s f) subs i"

lemma remove_all_wf: "wf i \<Longrightarrow> wf (remove_all c subs i)"
  unfolding remove_all_def by (induction subs arbitrary: i) (auto simp: remove_wf)

lemma remove_all_entry:
  "entry (remove_all c subs i) k' c' s' \<longleftrightarrow>
     entry i k' c' s' \<and> \<not> (c' = c \<and> (s', k') \<in> (\<lambda>(s, f). (s, route_key_of f)) ` set subs)"
proof (induction subs arbitrary: i)
  case (Cons p subs)
  obtain s f where p: "p = (s, f)" by (cases p)
  show ?case using Cons.IH [of "remove c s f i"] by (auto simp: remove_all_def p remove_entry)
qed (simp add: remove_all_def)

text \<open>When the subscriptions are all the connection has in the index, nothing of it remains.\<close>

lemma remove_all_clears:
  assumes "\<And>k s. entry i k c s \<Longrightarrow> (s, k) \<in> (\<lambda>(s, f). (s, route_key_of f)) ` set subs"
  shows "\<not> entry (remove_all c subs i) k c s"
    and "c' \<noteq> c \<Longrightarrow> entry (remove_all c subs i) k c' s \<longleftrightarrow> entry i k c' s"
  using assms by (auto simp: remove_all_entry)

text \<open>An entry that was not there before comes and goes without a trace.\<close>

lemma remove_add:
  assumes "\<not> entry i (route_key_of f) c s"
  shows "entry (remove c s f (add (route_key_of f) c s i)) k' c' s' \<longleftrightarrow> entry i k' c' s'"
  using assms by (auto simp: remove_entry add_entry)

end

subsection \<open>The contract holds of the index\<close>

lemma or_default_simps [simp]: "or_default None = []" "or_default (Some x) = x"
  by (simp_all add: or_default_def)

lemma bucket_wf_iff:
  "bucket_wf b \<longleftrightarrow> distinct (map fst b) \<and> (\<forall>c ids. map_of b c = Some ids \<longrightarrow> ids \<noteq> [] \<and> distinct ids)"
  unfolding bucket_wf_def using alist_all_iff [of b "\<lambda>c ids. ids \<noteq> [] \<and> distinct ids"] by auto

lemma routes_wf_iff:
  "routes_wf rs \<longleftrightarrow> distinct (map fst rs) \<and> (\<forall>k b. map_of rs k = Some b \<longrightarrow> b \<noteq> [] \<and> bucket_wf b)"
  unfolding routes_wf_def using alist_all_iff [of rs "\<lambda>k b. b \<noteq> [] \<and> bucket_wf b"] by auto

lemma bucket_wf_default: "routes_wf rs \<Longrightarrow> bucket_wf (or_default (map_of rs k))"
  by (cases "map_of rs k") (auto simp: routes_wf_iff bucket_wf_def)

lemma in_bucket_update: "in_bucket (AList.update c ids b) c' s \<longleftrightarrow> (if c' = c then s \<in> set ids else in_bucket b c' s)"
  by (simp add: in_bucket_def alist_simps)

lemma add_to_route_wf:
  assumes "routes_wf rs" and "\<not> indexed rs k c s"
  shows "routes_wf (add_to_route k c s rs)"
proof -
  let ?b = "or_default (map_of rs k)"
  have b: "bucket_wf ?b" using assms(1) by (rule bucket_wf_default)
  have "distinct (or_default (map_of ?b c))"
    using b by (cases "map_of ?b c") (auto simp: bucket_wf_iff)
  with assms(2) have ids: "distinct (or_default (map_of ?b c) @ [s])"
    by (auto simp: indexed_def in_bucket_def)
  have "bucket_wf (AList.update c (or_default (map_of ?b c) @ [s]) ?b)"
    using b ids unfolding bucket_wf_iff by (auto simp: distinct_update alist_simps)
  with assms(1) show ?thesis
    unfolding routes_wf_iff add_to_route_def Let_def
    by (auto simp: distinct_update alist_simps alist_update_nonempty)
qed

lemma add_to_route_indexed:
  "indexed (add_to_route k c s rs) k' c' s' \<longleftrightarrow> (k', c', s') = (k, c, s) \<or> indexed rs k' c' s'"
  by (auto simp: indexed_def add_to_route_def Let_def alist_simps in_bucket_def)

lemma remove_from_bucket_wf: "bucket_wf b \<Longrightarrow> bucket_wf (remove_from_bucket c s b)"
  unfolding bucket_wf_iff remove_from_bucket_def Let_def
  by (auto simp: distinct_update distinct_delete alist_simps split: option.splits if_splits)

lemma in_bucket_remove:
  "in_bucket (remove_from_bucket c s b) c' s' \<longleftrightarrow> (c', s') \<noteq> (c, s) \<and> in_bucket b c' s'"
  by (auto simp: in_bucket_def remove_from_bucket_def Let_def alist_simps filter_empty_conv
      split: option.splits if_splits)

lemma remove_from_route_wf: "routes_wf rs \<Longrightarrow> routes_wf (remove_from_route c s f rs)"
  unfolding routes_wf_iff remove_from_route_def Let_def
  by (auto simp: distinct_update distinct_delete alist_simps remove_from_bucket_wf
      split: option.splits if_splits)

lemma remove_from_route_indexed:
  "indexed (remove_from_route c s f rs) k' c' s' \<longleftrightarrow>
     (k', c', s') \<noteq> (route_key_of f, c, s) \<and> indexed rs k' c' s'"
proof (cases "map_of rs (route_key_of f)")
  case None
  then show ?thesis by (auto simp: remove_from_route_def indexed_def in_bucket_def)
next
  case (Some b)
  have "or_default (map_of (remove_from_route c s f rs) k') =
      (if k' = route_key_of f then remove_from_bucket c s b else or_default (map_of rs k'))"
    using Some by (auto simp: remove_from_route_def Let_def alist_simps)
  with Some show ?thesis by (auto simp: indexed_def in_bucket_remove)
qed

interpretation ri: subscription_index add_to_route remove_from_route indexed routes_wf
  by unfold_locales
    (simp_all add: add_to_route_wf add_to_route_indexed remove_from_route_wf remove_from_route_indexed)

lemma remove_all_from_route_eq: "remove_all_from_route = ri.remove_all"
  by (intro ext) (simp add: remove_all_from_route_def ri.remove_all_def)

subsection \<open>What dispatch collects\<close>

lemma set_add_ids: "set (add_ids ids e) = set e \<union> set ids"
  unfolding add_ids_def by (induction ids arbitrary: e) auto

lemma distinct_add_ids: "distinct e \<Longrightarrow> distinct (add_ids ids e)"
  unfolding add_ids_def by (induction ids arbitrary: e) auto

lemma merge_bucket_Cons:
  "merge_bucket ((c, ids) # b) ms =
     merge_bucket b (AList.update c (add_ids ids (or_default (map_of ms c))) ms)"
  by (simp add: merge_bucket_def)

lemma merge_bucket_wf:
  "bucket_wf ms \<Longrightarrow> (\<And>c ids. (c, ids) \<in> set b \<Longrightarrow> ids \<noteq> []) \<Longrightarrow> bucket_wf (merge_bucket b ms)"
proof (induction b arbitrary: ms)
  case Nil
  then show ?case by (simp add: merge_bucket_def)
next
  case (Cons p b)
  obtain c ids where p: "p = (c, ids)" by (cases p)
  let ?e = "add_ids ids (or_default (map_of ms c))"
  have "distinct (or_default (map_of ms c))"
    using Cons.prems(1) by (cases "map_of ms c") (auto simp: bucket_wf_iff)
  then have "distinct ?e" by (rule distinct_add_ids)
  moreover have "?e \<noteq> []"
    using Cons.prems(2) [of c ids] set_add_ids [of ids "or_default (map_of ms c)"] p by auto
  ultimately have "bucket_wf (AList.update c ?e ms)"
    using Cons.prems(1) unfolding bucket_wf_iff by (auto simp: distinct_update alist_simps)
  then show ?case unfolding p merge_bucket_Cons using Cons.prems(2) p by (intro Cons.IH) auto
qed

lemma in_merge_bucket:
  "distinct (map fst b) \<Longrightarrow> in_bucket (merge_bucket b ms) c s \<longleftrightarrow> in_bucket b c s \<or> in_bucket ms c s"
proof (induction b arbitrary: ms)
  case Nil
  then show ?case by (simp add: merge_bucket_def in_bucket_def)
next
  case (Cons p b)
  obtain d ids where p: "p = (d, ids)" by (cases p)
  have "d = c \<Longrightarrow> map_of b c = None" using Cons.prems p by (simp add: map_of_eq_None_iff)
  then show ?case using Cons p
    by (auto simp: merge_bucket_Cons in_bucket_def alist_simps set_add_ids)
qed

definition collect_from :: "(RouteKey \<times> Bucket) list \<Rightarrow> RouteKey list \<Rightarrow> Bucket \<Rightarrow> Bucket" where
  "collect_from routes keys ms =
    fold (\<lambda>key ms. case map_of routes key of None \<Rightarrow> ms | Some b \<Rightarrow> merge_bucket b ms) keys ms"

lemma collect_matches_eq: "collect_matches routes md = collect_from routes (candidates md) []"
  by (simp add: collect_matches_def collect_from_def)

lemma bucket_wf_nonempty: "bucket_wf b \<Longrightarrow> (c, ids) \<in> set b \<Longrightarrow> ids \<noteq> []"
  by (auto simp: bucket_wf_def)

lemma bucket_wf_Nil [simp]: "bucket_wf []"
  by (simp add: bucket_wf_def)

lemma in_bucket_Nil [simp]: "\<not> in_bucket [] c s"
  by (simp add: in_bucket_def)

lemma bucket_wf_distinct: "bucket_wf b \<Longrightarrow> distinct (map fst b)"
  by (simp add: bucket_wf_def)

lemma collect_from_wf:
  "routes_wf routes \<Longrightarrow> bucket_wf ms \<Longrightarrow> bucket_wf (collect_from routes keys ms)"
proof (induction keys arbitrary: ms)
  case Nil
  then show ?case by (simp add: collect_from_def)
next
  case (Cons k keys)
  have "bucket_wf (case map_of routes k of None \<Rightarrow> ms | Some b \<Rightarrow> merge_bucket b ms)"
    using Cons.prems
    by (fastforce simp: routes_wf_iff intro!: merge_bucket_wf dest: bucket_wf_nonempty split: option.split)
  with Cons show ?case by (simp add: collect_from_def)
qed

lemma in_collect_from:
  "routes_wf routes \<Longrightarrow> in_bucket (collect_from routes keys ms) c s \<longleftrightarrow>
     (\<exists>k\<in>set keys. indexed routes k c s) \<or> in_bucket ms c s"
proof (induction keys arbitrary: ms)
  case Nil
  then show ?case by (simp add: collect_from_def)
next
  case (Cons k keys)
  have "in_bucket (case map_of routes k of None \<Rightarrow> ms | Some b \<Rightarrow> merge_bucket b ms) c s
      \<longleftrightarrow> indexed routes k c s \<or> in_bucket ms c s"
    using Cons.prems bucket_wf_default [of routes k]
    by (auto simp: indexed_def in_merge_bucket bucket_wf_distinct split: option.split)
  with Cons show ?case by (auto simp: collect_from_def)
qed

lemma collect_matches_wf: "routes_wf routes \<Longrightarrow> bucket_wf (collect_matches routes md)"
  by (simp add: collect_matches_eq collect_from_wf)

lemma in_collect_matches:
  "routes_wf routes \<Longrightarrow> in_bucket (collect_matches routes md) c s \<longleftrightarrow>
     (\<exists>k\<in>set (candidates md). indexed routes k c s)"
  by (simp add: collect_matches_eq in_collect_from)

text \<open>A well-formed bucket lists each pair of a connection and an id once.\<close>

lemma bucket_pairs_card:
  "bucket_wf b \<Longrightarrow> (\<Sum>(c, ids)\<leftarrow>b. length ids) = card {(c, s). in_bucket b c s}"
proof (induction b)
  case Nil
  then show ?case by (simp add: in_bucket_def)
next
  case (Cons p b)
  obtain d ids where p: "p = (d, ids)" by (cases p)
  have d: "map_of b d = None" and b: "bucket_wf b" and ids: "distinct ids"
    using Cons.prems p by (auto simp: bucket_wf_def map_of_eq_None_iff)
  have split: "{(c, s). in_bucket (p # b) c s} = Pair d ` set ids \<union> {(c, s). in_bucket b c s}"
    using d p by (auto simp: in_bucket_def split: if_splits)
  have "finite {(c, s). in_bucket b c s}"
  proof (rule finite_subset)
    show "{(c, s). in_bucket b c s} \<subseteq> fst ` set b \<times> (\<Union>q\<in>set b. set (snd q))"
      by (auto simp: in_bucket_def or_default_def split: option.splits)
        (metis imageI fst_conv map_of_SomeD, metis snd_conv map_of_SomeD)
  qed auto
  moreover have "Pair d ` set ids \<inter> {(c, s). in_bucket b c s} = {}"
    using d by (auto simp: in_bucket_def)
  moreover have "card (Pair d ` set ids) = length ids"
    using ids by (simp add: card_image inj_on_def distinct_card)
  ultimately have "card {(c, s). in_bucket (p # b) c s} = length ids + card {(c, s). in_bucket b c s}"
    unfolding split by (simp add: card_Un_disjoint)
  then show ?case using Cons.IH [OF b] p by simp
qed

end
