(* ===== verification/Router_Inv.thy ===== *)
theory Router_Inv
  imports Route_Index
begin

text \<open>
  The invariant of the routing engine and its preservation by registration, subscription and
  removal. It says: the index holds exactly the live subscriptions; every subscription is a
  validated filter of its connection's tenant; no limit of the configuration is exceeded; and the
  gauges of the metrics equal the cardinalities of the maps. Cardinalities are weighted sums over
  the connections (\<open>conn_count\<close>, \<open>sub_count\<close>), so each operation moves them by one entry.
\<close>

subsection \<open>Cardinalities\<close>

definition conn_count :: "('c ConnectionState \<Rightarrow> bool) \<Rightarrow> (connection_id \<times> 'c ConnectionState) list \<Rightarrow> nat" where
  "conn_count P conns = (\<Sum>p\<leftarrow>conns. if P (snd p) then 1 else 0)"

definition sub_count :: "('c ConnectionState \<Rightarrow> bool) \<Rightarrow> (connection_id \<times> 'c ConnectionState) list \<Rightarrow> nat" where
  "sub_count P conns = (\<Sum>p\<leftarrow>conns. if P (snd p) then length (cs_subscriptions (snd p)) else 0)"

lemma tenant_connections_count:
  "tenant_connections t r = conn_count (\<lambda>cs. cs_tenant_id cs = t) (rt_connections r)"
  by (simp add: tenant_connections_def conn_count_def length_filter_sum case_prod_unfold)

lemma connections_by_protocol_count:
  "connections_by_protocol p r = conn_count (\<lambda>cs. cs_protocol cs = p) (rt_connections r)"
  by (simp add: connections_by_protocol_def conn_count_def length_filter_sum case_prod_unfold)

lemma total_subscriptions_count: "total_subscriptions r = sub_count (\<lambda>_. True) (rt_connections r)"
  by (simp add: total_subscriptions_def sub_count_def case_prod_unfold)

lemma tenant_subscriptions_count:
  "tenant_subscriptions t r = sub_count (\<lambda>cs. cs_tenant_id cs = t) (rt_connections r)"
  by (simp add: tenant_subscriptions_def sub_count_def case_prod_unfold sum_list_map_filter')

lemma length_conn_count: "length conns = conn_count (\<lambda>_. True) conns"
  by (simp add: conn_count_def sum_list_triv)

lemmas cardinality_counts = tenant_connections_count connections_by_protocol_count
  total_subscriptions_count tenant_subscriptions_count

text \<open>What the three ways of changing one entry do to a count.\<close>

lemma count_fresh:
  assumes "map_of conns c = None"
  shows "conn_count P (AList.update c cs conns) = conn_count P conns + (if P cs then 1 else 0)"
    and "sub_count P (AList.update c cs conns) =
      sub_count P conns + (if P cs then length (cs_subscriptions cs) else 0)"
  using assms by (simp_all add: conn_count_def sub_count_def alist_update_fresh)

lemma count_update:
  assumes "distinct (map fst conns)" and "map_of conns c = Some cs" and "P cs' = P cs"
  shows "conn_count P (AList.update c cs' conns) = conn_count P conns"
    and "sub_count P (AList.update c cs' conns) + (if P cs then length (cs_subscriptions cs) else 0)
      = sub_count P conns + (if P cs then length (cs_subscriptions cs') else 0)"
  using alist_sum_update [OF assms(1,2), of "\<lambda>p. if P (snd p) then 1 else 0" cs']
    alist_sum_update [OF assms(1,2), of "\<lambda>p. if P (snd p) then length (cs_subscriptions (snd p)) else 0" cs']
    assms(3)
  by (cases "P cs"; simp add: conn_count_def sub_count_def)+

lemma count_delete:
  assumes "distinct (map fst conns)" and "map_of conns c = Some cs"
  shows "conn_count P (AList.delete c conns) + (if P cs then 1 else 0) = conn_count P conns"
    and "sub_count P (AList.delete c conns) + (if P cs then length (cs_subscriptions cs) else 0)
      = sub_count P conns"
  using alist_sum_delete [OF assms, of "\<lambda>p. if P (snd p) then 1 else 0"]
    alist_sum_delete [OF assms, of "\<lambda>p. if P (snd p) then length (cs_subscriptions (snd p)) else 0"]
  by (cases "P cs"; simp add: conn_count_def sub_count_def)+

lemma count_le: "conn_count P conns \<le> conn_count (\<lambda>_. True) conns" "sub_count P conns \<le> sub_count (\<lambda>_. True) conns"
  by (auto simp: conn_count_def sub_count_def intro!: sum_list_mono)

lemma sub_count_member:
  "map_of conns c = Some cs \<Longrightarrow> P cs \<Longrightarrow> length (cs_subscriptions cs) \<le> sub_count P conns"
  using alist_sum_member_le [of conns c cs "\<lambda>p. if P (snd p) then length (cs_subscriptions (snd p)) else 0"]
  by (simp add: sub_count_def)

lemma conn_count_member: "map_of conns c = Some cs \<Longrightarrow> P cs \<Longrightarrow> 1 \<le> conn_count P conns"
  using alist_sum_member_le [of conns c cs "\<lambda>p. if P (snd p) then 1 else 0"]
  by (simp add: conn_count_def)

subsection \<open>The invariant\<close>

definition conn_wf :: "RouterConfig \<Rightarrow> 'c ConnectionState \<Rightarrow> bool" where
  "conn_wf config cs \<longleftrightarrow>
    identifier_ok 256 (cs_tenant_id cs)
    \<and> distinct (map fst (cs_subscriptions cs))
    \<and> (\<forall>(s, f)\<in>set (cs_subscriptions cs). filter_valid f \<and> rf_tenant_id f = cs_tenant_id cs)
    \<and> length (cs_subscriptions cs) \<le> rc_max_subscriptions_per_connection config"

definition connections_wf :: "'c Router \<Rightarrow> bool" where
  "connections_wf r \<longleftrightarrow> distinct (map fst (rt_connections r))
    \<and> (\<forall>(c, cs)\<in>set (rt_connections r). conn_wf (rt_config r) cs)"

text \<open>Connection \<open>c\<close> has a subscription \<open>s\<close> whose filter is stored under key \<open>k\<close>.\<close>

definition subscribed ::
  "(connection_id \<times> 'c ConnectionState) list \<Rightarrow> RouteKey \<Rightarrow> connection_id \<Rightarrow> SubscriptionId \<Rightarrow> bool" where
  "subscribed conns k c s \<longleftrightarrow>
    (case map_of conns c of None \<Rightarrow> False
     | Some cs \<Rightarrow> map_option route_key_of (map_of (cs_subscriptions cs) s) = Some k)"

definition index_agrees :: "'c Router \<Rightarrow> bool" where
  "index_agrees r \<longleftrightarrow> (\<forall>k c s. indexed (rt_routes r) k c s \<longleftrightarrow> subscribed (rt_connections r) k c s)"

definition limits_ok :: "'c Router \<Rightarrow> bool" where
  "limits_ok r \<longleftrightarrow>
    length (rt_connections r) \<le> rc_max_connections (rt_config r)
    \<and> (\<forall>t. tenant_connections t r \<le> rc_max_connections_per_tenant (rt_config r))
    \<and> total_subscriptions r \<le> rc_max_subscriptions (rt_config r)
    \<and> (\<forall>t. tenant_subscriptions t r \<le> rc_max_subscriptions_per_tenant (rt_config r))"

definition gauges_ok :: "'c Router \<Rightarrow> bool" where
  "gauges_ok r \<longleftrightarrow> metrics_shape (rt_metrics r)
    \<and> (\<forall>p. conn_gauge p (rt_metrics r) = of_nat (conn_count (\<lambda>cs. cs_protocol cs = p) (rt_connections r))
         \<and> sub_gauge p (rt_metrics r) = of_nat (sub_count (\<lambda>cs. cs_protocol cs = p) (rt_connections r)))"

text \<open>The limits are \<open>usize\<close> values.\<close>

definition config_usize :: "RouterConfig \<Rightarrow> bool" where
  "config_usize config \<longleftrightarrow> rc_max_connections config < 2 ^ 64 \<and> rc_max_subscriptions config < 2 ^ 64"

definition router_inv :: "'c Router \<Rightarrow> bool" where
  "router_inv r \<longleftrightarrow> config_usize (rt_config r) \<and> connections_wf r \<and> routes_wf (rt_routes r)
    \<and> index_agrees r \<and> limits_ok r \<and> gauges_ok r"

lemma connections_wf_iff:
  "connections_wf r \<longleftrightarrow> distinct (map fst (rt_connections r))
    \<and> (\<forall>c cs. map_of (rt_connections r) c = Some cs \<longrightarrow> conn_wf (rt_config r) cs)"
  unfolding connections_wf_def
  using alist_all_iff [of "rt_connections r" "\<lambda>c cs. conn_wf (rt_config r) cs"] by auto

lemma conn_wf_lookup:
  "conn_wf config cs \<Longrightarrow> map_of (cs_subscriptions cs) s = Some f \<Longrightarrow>
     filter_valid f \<and> rf_tenant_id f = cs_tenant_id cs"
  by (auto simp: conn_wf_def dest!: map_of_SomeD)

lemma router_new_inv: "config_usize config \<Longrightarrow> router_inv (router_new config)"
  by (simp add: router_inv_def router_new_def connections_wf_def routes_wf_def index_agrees_def
      indexed_def in_bucket_def subscribed_def limits_ok_def cardinality_counts conn_count_def
      sub_count_def gauges_ok_def gauge_simps)

lemma router_inv_metrics:
  assumes "router_inv r" and "metrics_shape m"
    and "\<And>p. conn_gauge p m = conn_gauge p (rt_metrics r)" "\<And>p. sub_gauge p m = sub_gauge p (rt_metrics r)"
  shows "router_inv (r\<lparr>rt_metrics := m\<rparr>)"
  using assms
  by (simp add: router_inv_def connections_wf_def index_agrees_def limits_ok_def
      cardinality_counts gauges_ok_def)

lemma rejection_inv:
  "router_inv r \<Longrightarrow> router_inv (r\<lparr>rt_metrics := record_security_limit_rejection (rt_metrics r)\<rparr>)"
  by (rule router_inv_metrics) (auto simp: gauge_simps router_inv_def gauges_ok_def)

subsection \<open>Registering\<close>

text \<open>The results of registering, branch by branch.\<close>

definition queue_request :: "nat option \<Rightarrow> 'c Router \<Rightarrow> nat" where
  "queue_request cap r = (case cap of Some n \<Rightarrow> n | None \<Rightarrow> rc_default_queue_capacity (rt_config r))"

definition registered ::
  "'c mpsc_ops \<Rightarrow> connection_id \<Rightarrow> string \<Rightarrow> DeliveryProtocol \<Rightarrow> nat \<Rightarrow> 'c Router \<Rightarrow> 'c Router" where
  "registered ops fresh tenant protocol capacity r =
    r\<lparr>rt_connections := AList.update fresh
        \<lparr>cs_tenant_id = tenant, cs_protocol = protocol, cs_sender = ch_channel ops capacity,
         cs_subscriptions = [], cs_full_strikes = 0\<rparr> (rt_connections r),
      rt_metrics := record_protocol_opened protocol (rt_metrics r)\<rparr>"

lemma register_connection_Inr:
  "register_connection ops fresh tenant protocol cap r = (Inr c, r') \<longleftrightarrow>
     c = fresh \<and> r' = registered ops fresh tenant protocol (queue_request cap r) r
     \<and> identifier_ok 256 tenant
     \<and> 0 < queue_request cap r \<and> queue_request cap r \<le> rc_max_queue_capacity (rt_config r)
     \<and> length (rt_connections r) < rc_max_connections (rt_config r)
     \<and> tenant_connections tenant r < rc_max_connections_per_tenant (rt_config r)"
proof (cases "validate_identifier ''tenant_id'' tenant 256")
  case (Inl e)
  then have "\<not> identifier_ok 256 tenant" using validate_identifier_Inl by blast
  with Inl show ?thesis by (simp add: register_connection_def)
next
  case (Inr u)
  then have "identifier_ok 256 tenant" by (simp add: validate_simps)
  with Inr show ?thesis
    by (auto simp: register_connection_def Let_def queue_request_def [symmetric] registered_def)
qed

lemma register_connection_Inl:
  "register_connection ops fresh tenant protocol cap r = (Inl e, r') \<Longrightarrow>
     r' = r \<or> r' = r\<lparr>rt_metrics := record_security_limit_rejection (rt_metrics r)\<rparr>"
  by (auto simp: register_connection_def Let_def split: sum.splits if_splits)

lemma subscribed_registered:
  assumes "map_of (rt_connections r) fresh = None"
  shows "subscribed (rt_connections (registered ops fresh t p n r)) = subscribed (rt_connections r)"
  using assms by (intro ext) (auto simp: subscribed_def registered_def alist_simps)

lemma registered_inv:
  assumes inv: "router_inv r" and fresh: "map_of (rt_connections r) fresh = None"
    and t: "identifier_ok 256 tenant"
    and limit: "length (rt_connections r) < rc_max_connections (rt_config r)"
      "tenant_connections tenant r < rc_max_connections_per_tenant (rt_config r)"
  shows "router_inv (registered ops fresh tenant p n r)"
proof -
  let ?r = "registered ops fresh tenant p n r"
  note defs = registered_def
  have shape: "metrics_shape (rt_metrics r)" using inv by (simp add: router_inv_def gauges_ok_def)
  have "connections_wf ?r"
    using inv t unfolding router_inv_def connections_wf_iff
    by (auto simp: defs distinct_update alist_simps conn_wf_def)
  moreover have "index_agrees ?r"
    using inv by (simp add: router_inv_def index_agrees_def subscribed_registered [OF fresh])
      (simp add: defs)
  moreover have "limits_ok ?r"
    using inv limit
    by (auto simp: router_inv_def limits_ok_def length_conn_count cardinality_counts defs
        count_fresh [OF fresh])
  moreover have "gauges_ok ?r"
    using inv
    by (simp add: router_inv_def gauges_ok_def defs count_fresh [OF fresh] gauge_simps shape)
  ultimately show ?thesis using inv by (simp add: router_inv_def defs)
qed

lemma register_connection_inv:
  assumes "router_inv r" and "map_of (rt_connections r) fresh = None"
    and "register_connection ops fresh tenant protocol cap r = (res, r')"
  shows "router_inv r'"
proof (cases res)
  case (Inl e)
  with assms register_connection_Inl show ?thesis by (metis rejection_inv)
next
  case (Inr c)
  with assms show ?thesis by (auto simp: register_connection_Inr intro: registered_inv)
qed

subsection \<open>Subscribing\<close>

definition with_subscription ::
  "connection_id \<Rightarrow> 'c ConnectionState \<Rightarrow> SubscriptionId \<Rightarrow> RouteFilter \<Rightarrow> 'c Router \<Rightarrow> 'c Router" where
  "with_subscription cid cs sid flt r =
    r\<lparr>rt_connections := AList.update cid
        (cs\<lparr>cs_subscriptions := AList.update sid flt (cs_subscriptions cs)\<rparr>) (rt_connections r),
      rt_routes := add_to_route (route_key_of flt) cid sid (rt_routes r),
      rt_metrics := record_subscription_added (cs_protocol cs) (rt_metrics r)\<rparr>"

lemma subscribe_Inr:
  "subscribe cid sid flt r = (Inr u, r') \<longleftrightarrow>
     (case map_of (rt_connections r) cid of None \<Rightarrow> False
      | Some cs \<Rightarrow> r' = with_subscription cid cs sid flt r
          \<and> filter_valid flt \<and> cs_tenant_id cs = rf_tenant_id flt
          \<and> map_of (cs_subscriptions cs) sid = None
          \<and> length (cs_subscriptions cs) < rc_max_subscriptions_per_connection (rt_config r)
          \<and> total_subscriptions r < rc_max_subscriptions (rt_config r)
          \<and> tenant_subscriptions (cs_tenant_id cs) r < rc_max_subscriptions_per_tenant (rt_config r))"
proof (cases "filter_validate flt")
  case (Inl e)
  then have "\<not> filter_valid flt" using filter_validate_Inr [of flt] by (metis Inl_Inr_False old.unit.exhaust)
  with Inl show ?thesis by (auto simp: subscribe_def split: option.split)
next
  case (Inr v)
  then have "filter_valid flt" by (simp add: validate_simps)
  with Inr show ?thesis by (auto simp: subscribe_def with_subscription_def split: option.split)
qed

lemma subscribe_Inl:
  "subscribe cid sid flt r = (Inl e, r') \<Longrightarrow>
     r' = r \<or> r' = r\<lparr>rt_metrics := record_security_limit_rejection (rt_metrics r)\<rparr>"
  by (auto simp: subscribe_def split: sum.splits if_splits option.splits)

lemma subscribed_with_subscription:
  assumes "map_of (rt_connections r) cid = Some cs" and "map_of (cs_subscriptions cs) sid = None"
  shows "subscribed (rt_connections (with_subscription cid cs sid flt r)) k c s \<longleftrightarrow>
     (k, c, s) = (route_key_of flt, cid, sid) \<or> subscribed (rt_connections r) k c s"
  using assms by (auto simp: subscribed_def with_subscription_def alist_simps)

lemma with_subscription_counts:
  assumes "distinct (map fst (rt_connections r))" and cs: "map_of (rt_connections r) cid = Some cs"
    and s: "map_of (cs_subscriptions cs) sid = None"
    and P: "\<And>subs. P (cs\<lparr>cs_subscriptions := subs\<rparr>) = P cs"
  shows "conn_count P (rt_connections (with_subscription cid cs sid flt r)) = conn_count P (rt_connections r)"
    and "sub_count P (rt_connections (with_subscription cid cs sid flt r)) =
      sub_count P (rt_connections r) + (if P cs then 1 else 0)"
  using count_update [OF assms(1) cs, of P "cs\<lparr>cs_subscriptions := AList.update sid flt (cs_subscriptions cs)\<rparr>"]
  by (cases "P cs"; simp add: with_subscription_def P alist_length_update s)+

lemma with_subscription_inv:
  assumes inv: "router_inv r" and cs: "map_of (rt_connections r) cid = Some cs"
    and flt: "filter_valid flt" "cs_tenant_id cs = rf_tenant_id flt"
    and sid: "map_of (cs_subscriptions cs) sid = None"
    and limit: "length (cs_subscriptions cs) < rc_max_subscriptions_per_connection (rt_config r)"
      "total_subscriptions r < rc_max_subscriptions (rt_config r)"
      "tenant_subscriptions (cs_tenant_id cs) r < rc_max_subscriptions_per_tenant (rt_config r)"
  shows "router_inv (with_subscription cid cs sid flt r)"
proof -
  let ?r = "with_subscription cid cs sid flt r"
  have d: "distinct (map fst (rt_connections r))" and wf: "conn_wf (rt_config r) cs"
    and shape: "metrics_shape (rt_metrics r)" and ix: "index_agrees r"
    using inv cs by (auto simp: router_inv_def connections_wf_iff gauges_ok_def)
  note counts = with_subscription_counts [OF d cs sid]
  have "conn_wf (rt_config r) (cs\<lparr>cs_subscriptions := AList.update sid flt (cs_subscriptions cs)\<rparr>)"
    using wf flt sid limit(1) by (auto simp: conn_wf_def alist_update_fresh map_of_eq_None_iff)
  then have "connections_wf ?r"
    using inv unfolding router_inv_def connections_wf_iff
    by (simp add: with_subscription_def distinct_update alist_simps)
  moreover have new: "\<not> indexed (rt_routes r) (route_key_of flt) cid sid"
    using ix cs sid by (simp add: index_agrees_def subscribed_def)
  then have "routes_wf (rt_routes ?r)"
    using inv by (simp add: router_inv_def with_subscription_def ri.add_wf)
  moreover have "index_agrees ?r"
    using ix by (simp add: index_agrees_def subscribed_with_subscription [OF cs sid])
      (simp add: with_subscription_def ri.add_entry)
  moreover have "limits_ok ?r"
    using inv limit by (auto simp: router_inv_def limits_ok_def length_conn_count
        cardinality_counts counts with_subscription_def [THEN arg_cong [where f = rt_config]])
  moreover have "gauges_ok ?r"
    using inv by (simp add: router_inv_def gauges_ok_def counts)
      (simp add: with_subscription_def gauge_simps shape)
  ultimately show ?thesis using inv by (simp add: router_inv_def with_subscription_def)
qed

lemma subscribe_inv:
  assumes "router_inv r" and "subscribe cid sid flt r = (res, r')"
  shows "router_inv r'"
proof (cases res)
  case (Inl e)
  with assms subscribe_Inl show ?thesis by (metis rejection_inv)
next
  case (Inr u)
  with assms show ?thesis
    by (auto simp: subscribe_Inr with_subscription_inv split: option.splits)
qed

subsection \<open>Unsubscribing\<close>

definition without_subscription ::
  "connection_id \<Rightarrow> 'c ConnectionState \<Rightarrow> SubscriptionId \<Rightarrow> RouteFilter \<Rightarrow> 'c Router \<Rightarrow> 'c Router" where
  "without_subscription cid cs sid flt r =
    r\<lparr>rt_connections := AList.update cid
        (cs\<lparr>cs_subscriptions := AList.delete sid (cs_subscriptions cs)\<rparr>) (rt_connections r),
      rt_routes := remove_from_route cid sid flt (rt_routes r),
      rt_metrics := record_subscription_removed (cs_protocol cs) (rt_metrics r)\<rparr>"

lemma unsubscribe_Inr:
  "unsubscribe cid sid r = (Inr u, r') \<longleftrightarrow>
     (case map_of (rt_connections r) cid of None \<Rightarrow> False
      | Some cs \<Rightarrow> (case map_of (cs_subscriptions cs) sid of None \<Rightarrow> False
          | Some flt \<Rightarrow> r' = without_subscription cid cs sid flt r))"
  by (auto simp: unsubscribe_def without_subscription_def split: option.split)

lemma unsubscribe_Inl: "unsubscribe cid sid r = (Inl e, r') \<Longrightarrow> r' = r"
  by (auto simp: unsubscribe_def split: option.splits)

lemma subscribed_without_subscription:
  assumes "map_of (rt_connections r) cid = Some cs" and "map_of (cs_subscriptions cs) sid = Some flt"
  shows "subscribed (rt_connections (without_subscription cid cs sid flt r)) k c s \<longleftrightarrow>
     (k, c, s) \<noteq> (route_key_of flt, cid, sid) \<and> subscribed (rt_connections r) k c s"
  using assms by (auto simp: subscribed_def without_subscription_def alist_simps)

lemma without_subscription_counts:
  assumes "distinct (map fst (rt_connections r))" and cs: "map_of (rt_connections r) cid = Some cs"
    and d: "distinct (map fst (cs_subscriptions cs))" and s: "map_of (cs_subscriptions cs) sid = Some flt"
    and P: "\<And>subs. P (cs\<lparr>cs_subscriptions := subs\<rparr>) = P cs"
  shows "conn_count P (rt_connections (without_subscription cid cs sid flt r)) = conn_count P (rt_connections r)"
    and "sub_count P (rt_connections (without_subscription cid cs sid flt r)) + (if P cs then 1 else 0) =
      sub_count P (rt_connections r)"
proof -
  have "Suc (length (AList.delete sid (cs_subscriptions cs))) = length (cs_subscriptions cs)"
    using d s by (rule alist_length_delete_member)
  then show "conn_count P (rt_connections (without_subscription cid cs sid flt r)) = conn_count P (rt_connections r)"
    and "sub_count P (rt_connections (without_subscription cid cs sid flt r)) + (if P cs then 1 else 0) =
      sub_count P (rt_connections r)"
    using count_update [OF assms(1) cs, of P "cs\<lparr>cs_subscriptions := AList.delete sid (cs_subscriptions cs)\<rparr>"]
    by (cases "P cs"; simp add: without_subscription_def P)+
qed

lemma sub_count_lt: "router_inv r \<Longrightarrow> sub_count P (rt_connections r) < 2 ^ 64"
  using count_le(2) [of P "rt_connections r"]
  by (auto simp: router_inv_def limits_ok_def config_usize_def cardinality_counts)

lemma conn_count_lt: "router_inv r \<Longrightarrow> conn_count P (rt_connections r) < 2 ^ 64"
  using count_le(1) [of P "rt_connections r"]
  by (auto simp: router_inv_def limits_ok_def config_usize_def length_conn_count)

lemma without_subscription_inv:
  assumes inv: "router_inv r" and cs: "map_of (rt_connections r) cid = Some cs"
    and sid: "map_of (cs_subscriptions cs) sid = Some flt"
  shows "router_inv (without_subscription cid cs sid flt r)"
proof -
  let ?r = "without_subscription cid cs sid flt r"
  have d: "distinct (map fst (rt_connections r))" and wf: "conn_wf (rt_config r) cs"
    and shape: "metrics_shape (rt_metrics r)" and ix: "index_agrees r"
    using inv cs by (auto simp: router_inv_def connections_wf_iff gauges_ok_def)
  have ds: "distinct (map fst (cs_subscriptions cs))" using wf by (simp add: conn_wf_def)
  note counts = without_subscription_counts [OF d cs ds sid]
  have minus: "sub_count P (rt_connections ?r) = sub_count P (rt_connections r) - (if P cs then 1 else 0)"
    if "\<And>subs. P (cs\<lparr>cs_subscriptions := subs\<rparr>) = P cs" for P
    using counts(2) [of P] that by simp
  have le: "sub_count P (rt_connections ?r) \<le> sub_count P (rt_connections r)"
    if "\<And>subs. P (cs\<lparr>cs_subscriptions := subs\<rparr>) = P cs" for P
    using minus [of P] that by simp
  have "conn_wf (rt_config r) (cs\<lparr>cs_subscriptions := AList.delete sid (cs_subscriptions cs)\<rparr>)"
    using wf length_delete_le [of sid "cs_subscriptions cs"] alist_set_delete [of sid "cs_subscriptions cs"]
    by (auto simp: conn_wf_def distinct_delete)
  then have "connections_wf ?r"
    using inv unfolding router_inv_def connections_wf_iff
    by (simp add: without_subscription_def distinct_update alist_simps)
  moreover have "routes_wf (rt_routes ?r)"
    using inv by (simp add: router_inv_def without_subscription_def ri.remove_wf)
  moreover have "index_agrees ?r"
    using ix by (simp add: index_agrees_def subscribed_without_subscription [OF cs sid])
      (simp add: without_subscription_def ri.remove_entry)
  moreover have "limits_ok ?r"
    using inv le [of "\<lambda>_. True"] le [of "\<lambda>cs. cs_tenant_id cs = _"]
    by (auto simp: router_inv_def limits_ok_def length_conn_count cardinality_counts counts
        without_subscription_def [THEN arg_cong [where f = rt_config]] intro: le_trans)
  moreover
  let ?n = "sub_count (\<lambda>x. cs_protocol x = cs_protocol cs) (rt_connections r)"
  have "decrement (of_nat ?n) 1 = of_nat (?n - 1)"
    using decrement_of_nat [of 1 ?n] counts(2) [of "\<lambda>x. cs_protocol x = cs_protocol cs"] sub_count_lt [OF inv]
    by simp
  then have "gauges_ok ?r"
    using inv counts(1) minus
    by (simp add: router_inv_def gauges_ok_def) (simp add: without_subscription_def gauge_simps shape)
  ultimately show ?thesis using inv by (simp add: router_inv_def without_subscription_def)
qed

lemma unsubscribe_inv:
  assumes "router_inv r" and "unsubscribe cid sid r = (res, r')"
  shows "router_inv r'"
proof (cases res)
  case (Inl e)
  with assms show ?thesis using unsubscribe_Inl by metis
next
  case (Inr u)
  with assms show ?thesis
    by (auto simp: unsubscribe_Inr without_subscription_inv split: option.splits)
qed

subsection \<open>Unregistering\<close>

lemma subscribed_key_image:
  assumes "map_of conns c = Some cs" and "subscribed conns k c s"
  shows "(s, k) \<in> (\<lambda>(s, f). (s, route_key_of f)) ` set (cs_subscriptions cs)"
proof -
  obtain f where f: "map_of (cs_subscriptions cs) s = Some f" "route_key_of f = k"
    using assms by (auto simp: subscribed_def simp del: split_paired_Ex)
  then have "(s, f) \<in> set (cs_subscriptions cs)" by (rule_tac map_of_SomeD)
  with f(2) show ?thesis by (metis (no_types, lifting) case_prod_conv image_eqI)
qed

lemma unregister_routes:
  assumes "index_agrees r" and cs: "map_of (rt_connections r) cid = Some cs"
  shows "indexed (remove_all_from_route cid (cs_subscriptions cs) (rt_routes r)) k c s \<longleftrightarrow>
     c \<noteq> cid \<and> indexed (rt_routes r) k c s"
proof -
  have "indexed (rt_routes r) k cid s \<Longrightarrow>
      (s, k) \<in> (\<lambda>(s, f). (s, route_key_of f)) ` set (cs_subscriptions cs)" for k s
    using assms(1) subscribed_key_image [OF cs] by (simp add: index_agrees_def)
  from ri.remove_all_clears [OF this] show ?thesis
    by (cases "c = cid") (simp_all add: remove_all_from_route_eq)
qed

lemma subscribed_delete:
  "subscribed (AList.delete cid conns) k c s \<longleftrightarrow> c \<noteq> cid \<and> subscribed conns k c s"
  by (auto simp: subscribed_def alist_simps)

lemma unregister_connection_inv:
  assumes inv: "router_inv r"
  shows "router_inv (unregister_connection cid r)"
proof (cases "map_of (rt_connections r) cid")
  case None
  with inv show ?thesis by (simp add: unregister_connection_def)
next
  case (Some cs)
  let ?r = "unregister_connection cid r"
  let ?p = "\<lambda>x. cs_protocol x = cs_protocol cs"
  note unreg = unregister_connection_def [of cid r, unfolded Some option.case]
  have d: "distinct (map fst (rt_connections r))" and wf: "connections_wf r"
    and shape: "metrics_shape (rt_metrics r)" and ix: "index_agrees r"
    using inv by (auto simp: router_inv_def connections_wf_iff gauges_ok_def)
  note counts = count_delete [OF d Some]
  have minus: "conn_count P (AList.delete cid (rt_connections r)) = conn_count P (rt_connections r) - (if P cs then 1 else 0)"
    "sub_count P (AList.delete cid (rt_connections r)) =
      sub_count P (rt_connections r) - (if P cs then length (cs_subscriptions cs) else 0)" for P
    using counts [of P] by simp_all
  have "connections_wf ?r"
    using wf unfolding connections_wf_iff by (simp add: unreg distinct_delete alist_simps)
  moreover have "routes_wf (rt_routes ?r)"
    using inv by (simp add: unreg router_inv_def remove_all_from_route_eq ri.remove_all_wf)
  moreover have "index_agrees ?r"
    using ix unregister_routes [OF ix Some]
    by (simp add: unreg index_agrees_def subscribed_delete)
  moreover have "limits_ok ?r"
    using inv by (auto simp: unreg router_inv_def limits_ok_def length_conn_count cardinality_counts
        minus intro: le_trans [OF diff_le_self])
  moreover have "decrement (of_nat (conn_count ?p (rt_connections r))) 1 =
      of_nat (conn_count ?p (rt_connections r) - 1)"
    using decrement_of_nat [of 1 "conn_count ?p (rt_connections r)"] conn_count_lt [OF inv]
      conn_count_member [OF Some, of ?p] by simp
  moreover have "decrement (of_nat (sub_count ?p (rt_connections r))) (of_nat (length (cs_subscriptions cs))) =
      of_nat (sub_count ?p (rt_connections r) - length (cs_subscriptions cs))"
    using sub_count_lt [OF inv] sub_count_member [OF Some, of ?p] by (intro decrement_of_nat) simp_all
  ultimately show ?thesis
    using inv by (simp add: router_inv_def unreg gauges_ok_def gauge_simps shape minus)
qed

end
