(* ===== verification/Router_Dispatch.thy ===== *)
theory Router_Dispatch
  imports Router_Inv
begin

text \<open>
  Fan-out. The loop of \<open>dispatch\<close> is brought into closed form: since each connection occurs once in
  the collected matches, what happens to it depends on its state before the dispatch only
  (\<open>send_outcome\<close>, \<open>after_send\<close>, \<open>evicted\<close>), and not on the order in which the hash map yields the
  connections. From this follow that the loop never panics, the invariant, who receives what, and
  who is disconnected.
\<close>

subsection \<open>One connection\<close>

definition send_outcome ::
  "'c mpsc_ops \<Rightarrow> RoutedMessage \<Rightarrow> SubscriptionId list \<Rightarrow> 'c ConnectionState \<Rightarrow> try_send_result" where
  "send_outcome ops m ids cs =
    fst (ch_try_send ops (cs_sender cs) \<lparr>dv_message = m, dv_subscription_ids = ids\<rparr>)"

definition after_send ::
  "'c mpsc_ops \<Rightarrow> RoutedMessage \<Rightarrow> SubscriptionId list \<Rightarrow> 'c ConnectionState \<Rightarrow> 'c ConnectionState" where
  "after_send ops m ids cs =
    cs\<lparr>cs_sender := snd (ch_try_send ops (cs_sender cs) \<lparr>dv_message = m, dv_subscription_ids = ids\<rparr>),
       cs_full_strikes := (case send_outcome ops m ids cs of SendOk \<Rightarrow> 0
         | SendFull \<Rightarrow> sat_add (cs_full_strikes cs) 1 | SendClosed \<Rightarrow> cs_full_strikes cs)\<rparr>"

definition evicted ::
  "'c mpsc_ops \<Rightarrow> RouterConfig \<Rightarrow> RoutedMessage \<Rightarrow> SubscriptionId list \<Rightarrow> 'c ConnectionState \<Rightarrow> bool" where
  "evicted ops config m ids cs \<longleftrightarrow>
    (case send_outcome ops m ids cs of SendOk \<Rightarrow> False
     | SendFull \<Rightarrow> max (rc_slow_consumer_strikes config) 1 \<le> sat_add (cs_full_strikes cs) 1
     | SendClosed \<Rightarrow> True)"

definition fan_out_step ::
  "'c mpsc_ops \<Rightarrow> RouterConfig \<Rightarrow> RoutedMessage \<Rightarrow> connection_id \<times> SubscriptionId list
   \<Rightarrow> 'c fan_out \<Rightarrow> 'c fan_out" where
  "fan_out_step ops config m p fo =
    (case map_of (fo_connections fo) (fst p) of
       None \<Rightarrow> fo\<lparr>fo_report := (fo_report fo)
                \<lparr>dr_closed_connections := dr_closed_connections (fo_report fo) + 1\<rparr>\<rparr>
     | Some cs \<Rightarrow> deliver_one ops config \<lparr>dv_message = m, dv_subscription_ids = snd p\<rparr> (fst p) cs fo)"

text \<open>
  The message is taken by the last iteration only, so \<open>expect\<close> always finds it: the loop returns.
\<close>

lemma fan_out_loop_eq:
  "index + length ms = count \<Longrightarrow>
   fan_out_loop ops config count index (Some m) ms fo = Some (fold (fan_out_step ops config m) ms fo)"
proof (induction ms arbitrary: index fo)
  case Nil
  then show ?case by simp
next
  case (Cons p ms)
  obtain c ids where p: "p = (c, ids)" by (cases p)
  show ?case
  proof (cases "ms = []")
    case True
    then show ?thesis by (simp add: p fan_out_step_def Let_def split: option.split)
  next
    case False
    then have "index + 1 \<noteq> count" using Cons.prems by (cases ms) auto
    with Cons.IH [of "index + 1"] Cons.prems show ?thesis
      by (simp add: p fan_out_step_def Let_def split: option.split)
  qed
qed

lemma fan_out_step_connections:
  "fo_connections (fan_out_step ops config m p fo) =
     (case map_of (fo_connections fo) (fst p) of None \<Rightarrow> fo_connections fo
      | Some cs \<Rightarrow> AList.update (fst p) (after_send ops m (snd p) cs) (fo_connections fo))"
  by (simp add: fan_out_step_def deliver_one_def after_send_def send_outcome_def Let_def
      case_prod_unfold split: option.split try_send_result.split)

lemma fan_out_step_disconnect:
  "fo_disconnect (fan_out_step ops config m p fo) = fo_disconnect fo @
     (case map_of (fo_connections fo) (fst p) of None \<Rightarrow> []
      | Some cs \<Rightarrow> if evicted ops config m (snd p) cs then [fst p] else [])"
  by (simp add: fan_out_step_def deliver_one_def evicted_def send_outcome_def Let_def
      case_prod_unfold split: option.split try_send_result.split)

text \<open>How the report counts a connection: delivered, full, or closed (also when it is gone).\<close>

definition outcome_at ::
  "'c mpsc_ops \<Rightarrow> RoutedMessage \<Rightarrow> (connection_id \<times> 'c ConnectionState) list
   \<Rightarrow> connection_id \<times> SubscriptionId list \<Rightarrow> try_send_result" where
  "outcome_at ops m conns p =
    (case map_of conns (fst p) of None \<Rightarrow> SendClosed | Some cs \<Rightarrow> send_outcome ops m (snd p) cs)"

definition count_outcome :: "try_send_result \<Rightarrow> DispatchReport \<Rightarrow> DispatchReport" where
  "count_outcome res rep =
    (case res of
       SendOk \<Rightarrow> rep\<lparr>dr_delivered_connections := dr_delivered_connections rep + 1\<rparr>
     | SendFull \<Rightarrow> rep\<lparr>dr_full_connections := dr_full_connections rep + 1\<rparr>
     | SendClosed \<Rightarrow> rep\<lparr>dr_closed_connections := dr_closed_connections rep + 1\<rparr>)"

lemma fan_out_step_report:
  "fo_report (fan_out_step ops config m p fo) =
     count_outcome (outcome_at ops m (fo_connections fo) p) (fo_report fo)"
  by (simp add: fan_out_step_def deliver_one_def outcome_at_def count_outcome_def send_outcome_def
      Let_def case_prod_unfold split: option.split try_send_result.split)

subsection \<open>The whole loop in closed form\<close>

text \<open>
  Over distinct connections the steps do not interfere: \<open>fo\<close> on the right is the state before the
  loop.
\<close>

lemma fan_out_step_other:
  "c \<noteq> fst p \<Longrightarrow> map_of (fo_connections (fan_out_step ops config m p fo)) c = map_of (fo_connections fo) c"
  by (simp add: fan_out_step_connections alist_simps split: option.split)

lemma fan_out_connections:
  assumes "distinct (map fst ms)"
  shows "map_of (fo_connections (fold (fan_out_step ops config m) ms fo)) c =
    (case map_of ms c of None \<Rightarrow> map_of (fo_connections fo) c
     | Some ids \<Rightarrow> map_option (after_send ops m ids) (map_of (fo_connections fo) c))"
  using assms
proof (induction ms arbitrary: fo)
  case (Cons p ms)
  show ?case
  proof (cases "fst p = c")
    case True
    with Cons.prems have "map_of ms c = None" by (auto simp: map_of_eq_None_iff)
    with Cons True show ?thesis
      by (cases p) (auto simp: fan_out_step_connections alist_simps split: option.split)
  next
    case False
    then show ?thesis using Cons fan_out_step_other [of c p ops config m fo]
      by (cases p) (simp split: option.split)
  qed
qed simp

lemma fan_out_disconnect:
  assumes "distinct (map fst ms)"
  shows "fo_disconnect (fold (fan_out_step ops config m) ms fo) = fo_disconnect fo @
    map fst (filter (\<lambda>p. case map_of (fo_connections fo) (fst p) of None \<Rightarrow> False
      | Some cs \<Rightarrow> evicted ops config m (snd p) cs) ms)"
  using assms
proof (induction ms arbitrary: fo)
  case (Cons p ms)
  have "\<forall>q\<in>set ms. fst q \<noteq> fst p" using Cons.prems by (auto simp: image_iff)
  then have "filter (\<lambda>q. case map_of (fo_connections (fan_out_step ops config m p fo)) (fst q) of
        None \<Rightarrow> False | Some cs \<Rightarrow> evicted ops config m (snd q) cs) ms
      = filter (\<lambda>q. case map_of (fo_connections fo) (fst q) of None \<Rightarrow> False
          | Some cs \<Rightarrow> evicted ops config m (snd q) cs) ms"
    by (intro filter_cong) (simp_all add: fan_out_step_other)
  with Cons show ?case by (simp add: fan_out_step_disconnect split: option.split)
qed simp

lemma fan_out_report:
  assumes "distinct (map fst ms)"
  shows "fo_report (fold (fan_out_step ops config m) ms fo) =
    fold count_outcome (map (outcome_at ops m (fo_connections fo)) ms) (fo_report fo)"
  using assms
proof (induction ms arbitrary: fo)
  case (Cons p ms)
  have "\<forall>q\<in>set ms. fst q \<noteq> fst p" using Cons.prems by (auto simp: image_iff)
  then have "map (outcome_at ops m (fo_connections (fan_out_step ops config m p fo))) ms =
      map (outcome_at ops m (fo_connections fo)) ms"
    by (intro map_cong) (simp_all add: outcome_at_def fan_out_step_other)
  with Cons show ?case by (simp add: fan_out_step_report del: map_eq_conv)
qed simp

lemma count_outcomes:
  "fold count_outcome os rep = rep
    \<lparr>dr_delivered_connections := dr_delivered_connections rep + count_list os SendOk,
     dr_full_connections := dr_full_connections rep + count_list os SendFull,
     dr_closed_connections := dr_closed_connections rep + count_list os SendClosed\<rparr>"
  by (induction os arbitrary: rep) (auto simp: count_outcome_def split: try_send_result.split)

lemma count_three: "count_list os SendOk + count_list os SendFull + count_list os SendClosed = length os"
proof (induction os)
  case (Cons x os)
  then show ?case by (cases x) simp_all
qed simp

subsection \<open>The invariant through dispatch\<close>

text \<open>
  Fan-out changes senders and strikes only. \<open>static\<close> is the rest of a connection; the invariant
  reads nothing else.
\<close>

definition static :: "'c ConnectionState \<Rightarrow> string \<times> DeliveryProtocol \<times> (SubscriptionId \<times> RouteFilter) list" where
  "static cs = (cs_tenant_id cs, cs_protocol cs, cs_subscriptions cs)"

definition static_view ::
  "(connection_id \<times> 'c ConnectionState) list
   \<Rightarrow> (connection_id \<times> string \<times> DeliveryProtocol \<times> (SubscriptionId \<times> RouteFilter) list) list" where
  "static_view conns = map (\<lambda>p. (fst p, static (snd p))) conns"

lemma static_after_send [simp]: "static (after_send ops m ids cs) = static cs"
  by (simp add: static_def after_send_def)

lemma static_view_update:
  "map_of conns c = Some cs \<Longrightarrow> static cs' = static cs \<Longrightarrow>
   static_view (AList.update c cs' conns) = static_view conns"
  by (induction conns) (auto simp: static_view_def split: if_splits)

lemma fan_out_static_view:
  "static_view (fo_connections (fold (fan_out_step ops config m) ms fo)) = static_view (fo_connections fo)"
proof (induction ms arbitrary: fo)
  case (Cons p ms)
  have "static_view (fo_connections (fan_out_step ops config m p fo)) = static_view (fo_connections fo)"
    by (simp add: fan_out_step_connections static_view_update split: option.split)
  with Cons show ?case by simp
qed simp

lemma static_view_counts:
  assumes "static_view conns = static_view conns'"
    and P: "\<And>cs cs'. static cs = static cs' \<Longrightarrow> P cs = P cs'"
  shows "conn_count P conns = conn_count P conns'" and "sub_count P conns = sub_count P conns'"
proof -
  have "conn_count P conns = conn_count P conns' \<and> sub_count P conns = sub_count P conns'"
    using assms(1)
  proof (induction conns arbitrary: conns')
    case (Cons p conns)
    then obtain q qs where q: "conns' = q # qs" "static (snd p) = static (snd q)"
      "static_view conns = static_view qs"
      by (auto simp: static_view_def Cons_eq_map_conv)
    with Cons.IH [OF q(3)] P [OF q(2)] show ?case
      by (simp add: conn_count_def sub_count_def static_def)
  qed (simp add: static_view_def)
  then show "conn_count P conns = conn_count P conns'" and "sub_count P conns = sub_count P conns'"
    by simp_all
qed

lemma map_of_static_view: "map_of (static_view conns) c = map_option static (map_of conns c)"
  by (induction conns) (auto simp: static_view_def)

lemma static_view_lookup:
  "static_view conns = static_view conns' \<Longrightarrow>
   map_option static (map_of conns c) = map_option static (map_of conns' c)"
  by (metis map_of_static_view)

lemma conn_wf_static: "static cs = static cs' \<Longrightarrow> conn_wf config cs = conn_wf config cs'"
  by (simp add: conn_wf_def static_def)

lemma router_inv_static_view:
  assumes inv: "router_inv r" and eq: "static_view conns = static_view (rt_connections r)"
  shows "router_inv (r\<lparr>rt_connections := conns\<rparr>)"
proof -
  note look = static_view_lookup [OF eq]
  have keys: "map fst conns = map fst (rt_connections r)"
    using arg_cong [OF eq, of "map fst"] by (simp add: static_view_def o_def)
  have "subscribed conns k c s = subscribed (rt_connections r) k c s" for k c s
    using look [of c] by (auto simp: subscribed_def static_def split: option.split)
  moreover have "conn_wf (rt_config r) cs" if "map_of conns c = Some cs" for c cs
  proof -
    obtain cs' where "map_of (rt_connections r) c = Some cs'" "static cs = static cs'"
      using look [of c] \<open>map_of conns c = Some cs\<close> by (cases "map_of (rt_connections r) c") auto
    moreover from this inv have "conn_wf (rt_config r) cs'"
      by (simp add: router_inv_def connections_wf_iff)
    ultimately show ?thesis using conn_wf_static by blast
  qed
  moreover have "conn_count (\<lambda>cs. cs_tenant_id cs = t) conns = conn_count (\<lambda>cs. cs_tenant_id cs = t) (rt_connections r)"
    "sub_count (\<lambda>cs. cs_tenant_id cs = t) conns = sub_count (\<lambda>cs. cs_tenant_id cs = t) (rt_connections r)" for t
    by (rule static_view_counts [OF eq]; simp add: static_def)+
  moreover have "conn_count (\<lambda>cs. cs_protocol cs = p) conns = conn_count (\<lambda>cs. cs_protocol cs = p) (rt_connections r)"
    "sub_count (\<lambda>cs. cs_protocol cs = p) conns = sub_count (\<lambda>cs. cs_protocol cs = p) (rt_connections r)" for p
    by (rule static_view_counts [OF eq]; simp add: static_def)+
  moreover have "conn_count (\<lambda>_. True) conns = conn_count (\<lambda>_. True) (rt_connections r)"
    "sub_count (\<lambda>_. True) conns = sub_count (\<lambda>_. True) (rt_connections r)"
    by (rule static_view_counts [OF eq]; simp)+
  ultimately show ?thesis using inv keys
    by (simp add: router_inv_def connections_wf_iff index_agrees_def limits_ok_def gauges_ok_def
        cardinality_counts length_conn_count)
qed

lemma disconnect_one_inv: "router_inv r \<Longrightarrow> router_inv (disconnect_one c r)"
  unfolding disconnect_one_def
  by (intro unregister_connection_inv router_inv_metrics)
    (auto simp: gauge_simps router_inv_def gauges_ok_def)

lemma disconnect_all_inv: "router_inv r \<Longrightarrow> router_inv (fold disconnect_one ds r)"
  by (induction ds arbitrary: r) (simp_all add: disconnect_one_inv)

lemma disconnect_one_connections:
  "map_of (rt_connections (disconnect_one d r)) c = (if c = d then None else map_of (rt_connections r) c)"
  by (simp add: disconnect_one_def unregister_connection_def alist_simps split: option.split)

lemma disconnect_all_connections:
  "map_of (rt_connections (fold disconnect_one ds r)) c =
     (if c \<in> set ds then None else map_of (rt_connections r) c)"
  by (induction ds arbitrary: r) (auto simp: disconnect_one_connections)

lemma disconnect_one_config [simp]: "rt_config (disconnect_one d r) = rt_config r"
  by (simp add: disconnect_one_def unregister_connection_def split: option.split)

lemma disconnect_all_config [simp]: "rt_config (fold disconnect_one ds r) = rt_config r"
  by (induction ds arbitrary: r) simp_all

text \<open>The state the fan-out starts from and ends in.\<close>

definition dispatch_start :: "RoutedMessage \<Rightarrow> 'c Router \<Rightarrow> 'c fan_out" where
  "dispatch_start m r =
    \<lparr>fo_connections = rt_connections r,
     fo_report = \<lparr>dr_matched_subscriptions =
         (\<Sum>(cid, ids)\<leftarrow>collect_matches (rt_routes r) (rm_metadata m). length ids),
       dr_delivered_connections = 0, dr_full_connections = 0, dr_closed_connections = 0\<rparr>,
     fo_disconnect = []\<rparr>"

definition dispatch_end :: "'c mpsc_ops \<Rightarrow> RoutedMessage \<Rightarrow> 'c Router \<Rightarrow> 'c fan_out" where
  "dispatch_end ops m r =
    fold (fan_out_step ops (rt_config r) m) (collect_matches (rt_routes r) (rm_metadata m))
      (dispatch_start m r)"

definition dispatch_metrics :: "nat \<Rightarrow> 'c Router \<Rightarrow> Metrics" where
  "dispatch_metrics match_nanos r = record_latency Match match_nanos (record_valid_message (rt_metrics r))"

definition dispatched :: "'c mpsc_ops \<Rightarrow> nat \<Rightarrow> RoutedMessage \<Rightarrow> 'c Router \<Rightarrow> 'c Router" where
  "dispatched ops match_nanos m r =
    fold disconnect_one (fo_disconnect (dispatch_end ops m r))
      (r\<lparr>rt_connections := fo_connections (dispatch_end ops m r),
         rt_metrics := dispatch_metrics match_nanos r\<rparr>)"

lemma dispatch_eq:
  "dispatch ops t1 t2 m r =
    (let rep = fo_report (dispatch_end ops m r); r' = dispatched ops t1 m r
     in Some (rep, r'\<lparr>rt_metrics := record_dispatch (dr_matched_subscriptions rep)
          (dr_delivered_connections rep) (dr_full_connections rep) (dr_closed_connections rep)
          (record_latency Enqueue t2 (rt_metrics r'))\<rparr>))"
  by (simp add: dispatch_def fan_out_loop_eq dispatch_end_def dispatch_start_def dispatched_def
      dispatch_metrics_def Let_def)

lemma dispatched_inv:
  assumes "router_inv r"
  shows "router_inv (dispatched ops t m r)"
proof -
  let ?r = "r\<lparr>rt_connections := fo_connections (dispatch_end ops m r)\<rparr>"
  have "static_view (fo_connections (dispatch_end ops m r)) = static_view (rt_connections r)"
    by (simp add: dispatch_end_def fan_out_static_view dispatch_start_def)
  with assms have "router_inv ?r" by (rule router_inv_static_view)
  then have "router_inv (?r\<lparr>rt_metrics := dispatch_metrics t r\<rparr>)"
    by (rule router_inv_metrics) (use assms in \<open>auto simp: gauge_simps dispatch_metrics_def router_inv_def gauges_ok_def\<close>)
  then show ?thesis unfolding dispatched_def by (rule disconnect_all_inv)
qed

lemma dispatch_inv:
  assumes "router_inv r" and "dispatch ops t1 t2 m r = Some (rep, r')"
  shows "router_inv r'"
proof -
  have inv: "router_inv (dispatched ops t1 m r)" using assms(1) by (rule dispatched_inv)
  moreover have "metrics_shape (rt_metrics (dispatched ops t1 m r))"
    using inv by (simp add: router_inv_def gauges_ok_def)
  ultimately show ?thesis using assms(2)
    by (auto simp: dispatch_eq Let_def gauge_simps intro!: router_inv_metrics)
qed

subsection \<open>Who is matched\<close>

text \<open>The reference: the subscriptions of a connection whose filter the reference matcher accepts.\<close>

definition ref_matches :: "'c ConnectionState \<Rightarrow> RoutingMetadata \<Rightarrow> SubscriptionId list" where
  "ref_matches cs md = map fst (filter (\<lambda>(s, f). filter_matches f md) (cs_subscriptions cs))"

lemma ref_matches_lookup:
  assumes "distinct (map fst (cs_subscriptions cs))"
  shows "s \<in> set (ref_matches cs md) \<longleftrightarrow>
    (case map_of (cs_subscriptions cs) s of None \<Rightarrow> False | Some f \<Rightarrow> filter_matches f md)"
  using assms unfolding ref_matches_def
  by (induction "cs_subscriptions cs" arbitrary: cs)
    (auto split: option.splits dest: map_of_SomeD simp: map_of_eq_None_iff image_iff)

lemma dispatch_start_simps [simp]:
  "fo_connections (dispatch_start m r) = rt_connections r"
  "fo_disconnect (dispatch_start m r) = []"
  by (simp_all add: dispatch_start_def)

text \<open>Indexed lookup finds exactly the subscriptions the reference matcher accepts.\<close>

lemma collect_matches_ref:
  assumes inv: "router_inv r" and md: "metadata_valid md"
  shows "in_bucket (collect_matches (rt_routes r) md) c s \<longleftrightarrow>
    (case map_of (rt_connections r) c of None \<Rightarrow> False | Some cs \<Rightarrow> s \<in> set (ref_matches cs md))"
proof -
  have wf: "routes_wf (rt_routes r)" and ix: "index_agrees r" and cw: "connections_wf r"
    using inv by (auto simp: router_inv_def)
  have "in_bucket (collect_matches (rt_routes r) md) c s \<longleftrightarrow>
      (\<exists>k\<in>set (candidates md). subscribed (rt_connections r) k c s)"
    using ix by (simp add: in_collect_matches [OF wf] index_agrees_def)
  also have "\<dots> \<longleftrightarrow> (case map_of (rt_connections r) c of None \<Rightarrow> False
      | Some cs \<Rightarrow> s \<in> set (ref_matches cs md))"
  proof (cases "map_of (rt_connections r) c")
    case (Some cs)
    then have cs: "conn_wf (rt_config r) cs" using cw by (simp add: connections_wf_iff)
    then have d: "distinct (map fst (cs_subscriptions cs))" by (simp add: conn_wf_def)
    show ?thesis
    proof (cases "map_of (cs_subscriptions cs) s")
      case None
      with Some show ?thesis by (simp add: subscribed_def ref_matches_lookup [OF d])
    next
      case sf: (Some f)
      with cs have "filter_valid f" using conn_wf_lookup by blast
      with Some sf md show ?thesis
        by (simp add: subscribed_def ref_matches_lookup [OF d] route_key_candidate_iff [symmetric])
    qed
  qed (simp add: subscribed_def)
  finally show ?thesis .
qed

lemma collected_ids:
  assumes inv: "router_inv r" and md: "metadata_valid md"
    and "map_of (collect_matches (rt_routes r) md) c = Some ids"
  shows "\<exists>cs. map_of (rt_connections r) c = Some cs \<and> set ids = set (ref_matches cs md)
    \<and> distinct ids \<and> ids \<noteq> []"
proof -
  have wf: "bucket_wf (collect_matches (rt_routes r) md)"
    using inv by (simp add: router_inv_def collect_matches_wf)
  then have ids: "distinct ids" "ids \<noteq> []" using assms(3) by (auto simp: bucket_wf_iff)
  have "\<And>s. s \<in> set ids \<longleftrightarrow> (case map_of (rt_connections r) c of None \<Rightarrow> False
      | Some cs \<Rightarrow> s \<in> set (ref_matches cs md))"
    using collect_matches_ref [OF inv md, of c] assms(3) by (simp add: in_bucket_def)
  moreover have "last ids \<in> set ids" using ids by simp
  ultimately show ?thesis using ids by (cases "map_of (rt_connections r) c") auto
qed

lemma collected_none:
  assumes inv: "router_inv r" and md: "metadata_valid md"
    and "map_of (rt_connections r) c = Some cs"
  shows "map_of (collect_matches (rt_routes r) md) c = None \<longleftrightarrow> ref_matches cs md = []"
proof
  assume "map_of (collect_matches (rt_routes r) md) c = None"
  then have "s \<notin> set (ref_matches cs md)" for s
    using collect_matches_ref [OF inv md, of c s] assms(3) by (simp add: in_bucket_def)
  then show "ref_matches cs md = []" by (metis last_in_set)
next
  assume "ref_matches cs md = []"
  then show "map_of (collect_matches (rt_routes r) md) c = None"
    using collected_ids [OF inv md, of c] assms(3)
    by (cases "map_of (collect_matches (rt_routes r) md) c") auto
qed

subsection \<open>What dispatch does to a connection\<close>

lemma dispatch_connection:
  assumes inv: "router_inv r" and d: "dispatch ops t1 t2 m r = Some (rep, r')"
  shows "map_of (rt_connections r') c =
    (case map_of (collect_matches (rt_routes r) (rm_metadata m)) c of
       None \<Rightarrow> map_of (rt_connections r) c
     | Some ids \<Rightarrow> (case map_of (rt_connections r) c of None \<Rightarrow> None
         | Some cs \<Rightarrow> if evicted ops (rt_config r) m ids cs then None else Some (after_send ops m ids cs)))"
proof -
  let ?ms = "collect_matches (rt_routes r) (rm_metadata m)"
  have dm: "distinct (map fst ?ms)"
    using inv by (simp add: router_inv_def collect_matches_wf bucket_wf_distinct)
  have "c \<in> set (fo_disconnect (dispatch_end ops m r)) \<longleftrightarrow>
      (case map_of ?ms c of None \<Rightarrow> False | Some ids \<Rightarrow> (case map_of (rt_connections r) c of
        None \<Rightarrow> False | Some cs \<Rightarrow> evicted ops (rt_config r) m ids cs))"
    unfolding dispatch_end_def fan_out_disconnect [OF dm]
    by (force simp: image_iff map_of_Some_iff_mem [OF dm, symmetric] split: option.splits)
  moreover have "map_of (rt_connections r') c =
      (if c \<in> set (fo_disconnect (dispatch_end ops m r)) then None
       else map_of (fo_connections (dispatch_end ops m r)) c)"
    using d by (auto simp: dispatch_eq Let_def dispatched_def disconnect_all_connections)
  ultimately show ?thesis
    by (simp add: dispatch_end_def fan_out_connections [OF dm] split: option.split)
qed

lemma dispatch_report:
  assumes inv: "router_inv r" and d: "dispatch ops t1 t2 m r = Some (rep, r')"
  shows "rep = (let os = map (outcome_at ops m (rt_connections r)) (collect_matches (rt_routes r) (rm_metadata m))
    in \<lparr>dr_matched_subscriptions = (\<Sum>(c, ids)\<leftarrow>collect_matches (rt_routes r) (rm_metadata m). length ids),
        dr_delivered_connections = count_list os SendOk, dr_full_connections = count_list os SendFull,
        dr_closed_connections = count_list os SendClosed\<rparr>)"
proof -
  have dm: "distinct (map fst (collect_matches (rt_routes r) (rm_metadata m)))"
    using inv by (simp add: router_inv_def collect_matches_wf bucket_wf_distinct)
  have "rep = fo_report (dispatch_end ops m r)" using d by (simp add: dispatch_eq Let_def)
  then show ?thesis
    by (simp add: dispatch_end_def fan_out_report [OF dm] count_outcomes Let_def) (simp add: dispatch_start_def)
qed

text \<open>The connections with at least one matching subscription, by the reference matcher.\<close>

definition matched_connections :: "RoutingMetadata \<Rightarrow> 'c Router \<Rightarrow> connection_id list" where
  "matched_connections md r = map fst (filter (\<lambda>(c, cs). ref_matches cs md \<noteq> []) (rt_connections r))"

lemma matched_connections_collect:
  assumes inv: "router_inv r" and md: "metadata_valid md"
  shows "set (map fst (collect_matches (rt_routes r) md)) = set (matched_connections md r)"
    and "length (collect_matches (rt_routes r) md) = length (matched_connections md r)"
proof -
  have dc: "distinct (map fst (rt_connections r))" using inv by (simp add: router_inv_def connections_wf_def)
  have dm: "distinct (map fst (collect_matches (rt_routes r) md))"
    using inv by (simp add: router_inv_def collect_matches_wf bucket_wf_distinct)
  have "c \<in> fst ` set (collect_matches (rt_routes r) md) \<longleftrightarrow> c \<in> set (matched_connections md r)" for c
  proof (cases "map_of (rt_connections r) c")
    case None
    have "map_of (collect_matches (rt_routes r) md) c = None"
      using None collected_ids [OF inv md, of c] by (cases "map_of (collect_matches (rt_routes r) md) c") auto
    with None show ?thesis by (auto simp: matched_connections_def map_of_eq_None_iff)
  next
    case (Some cs)
    have "c \<in> set (matched_connections md r) \<longleftrightarrow> ref_matches cs md \<noteq> []"
      using Some by (force simp: matched_connections_def map_of_Some_iff_mem [OF dc, symmetric])
    with collected_none [OF inv md Some] show ?thesis by (metis map_of_eq_None_iff)
  qed
  then show sets: "set (map fst (collect_matches (rt_routes r) md)) = set (matched_connections md r)" by auto
  have "distinct (matched_connections md r)"
    using dc by (simp add: matched_connections_def distinct_map_filter)
  with dm sets have "length (map fst (collect_matches (rt_routes r) md)) = length (matched_connections md r)"
    by (metis distinct_card)
  then show "length (collect_matches (rt_routes r) md) = length (matched_connections md r)" by simp
qed

text \<open>
  The reference matches as a bucket of their own: comparing the two buckets entry by entry gives
  the number of matched subscriptions.
\<close>

definition ref_bucket :: "RoutingMetadata \<Rightarrow> (connection_id \<times> 'c ConnectionState) list \<Rightarrow> Bucket" where
  "ref_bucket md conns =
    map (\<lambda>p. (fst p, ref_matches (snd p) md)) (filter (\<lambda>p. ref_matches (snd p) md \<noteq> []) conns)"

lemma map_of_ref_bucket:
  "distinct (map fst conns) \<Longrightarrow> map_of (ref_bucket md conns) c =
    (case map_of conns c of None \<Rightarrow> None
     | Some cs \<Rightarrow> if ref_matches cs md = [] then None else Some (ref_matches cs md))"
proof (induction conns)
  case (Cons p conns)
  show ?case
  proof (cases "fst p = c")
    case True
    with Cons.prems have "map_of conns c = None" by (auto simp: map_of_eq_None_iff)
    with Cons True show ?thesis by (cases p) (simp add: ref_bucket_def)
  next
    case False
    with Cons show ?thesis by (cases p) (simp add: ref_bucket_def)
  qed
qed (simp add: ref_bucket_def)

lemma ref_matches_distinct: "conn_wf config cs \<Longrightarrow> distinct (ref_matches cs md)"
  by (simp add: conn_wf_def ref_matches_def distinct_map_filter)

lemma ref_bucket_wf:
  assumes "connections_wf r"
  shows "bucket_wf (ref_bucket md (rt_connections r))"
proof -
  have d: "distinct (map fst (rt_connections r))" using assms by (simp add: connections_wf_def)
  then have "distinct (map fst (ref_bucket md (rt_connections r)))"
    by (simp add: ref_bucket_def o_def distinct_map_filter)
  with assms show ?thesis unfolding bucket_wf_iff
    by (auto simp: map_of_ref_bucket [OF d] connections_wf_iff intro: ref_matches_distinct
        split: option.splits if_splits)
qed

lemma ref_bucket_sum:
  "(\<Sum>(c, ids)\<leftarrow>ref_bucket md conns. length ids) = (\<Sum>(c, cs)\<leftarrow>conns. length (ref_matches cs md))"
  by (induction conns) (auto simp: ref_bucket_def)

lemma collected_count:
  assumes inv: "router_inv r" and md: "metadata_valid md"
  shows "(\<Sum>(c, ids)\<leftarrow>collect_matches (rt_routes r) md. length ids) =
    (\<Sum>(c, cs)\<leftarrow>rt_connections r. length (ref_matches cs md))"
proof -
  have cw: "connections_wf r" and wf: "bucket_wf (collect_matches (rt_routes r) md)"
    using inv by (auto simp: router_inv_def collect_matches_wf)
  have d: "distinct (map fst (rt_connections r))" using cw by (simp add: connections_wf_def)
  have "in_bucket (collect_matches (rt_routes r) md) c s = in_bucket (ref_bucket md (rt_connections r)) c s" for c s
    unfolding collect_matches_ref [OF inv md]
    by (simp add: in_bucket_def map_of_ref_bucket [OF d] split: option.split)
  then show ?thesis
    using bucket_pairs_card [OF wf] bucket_pairs_card [OF ref_bucket_wf [OF cw], of md]
    by (simp add: ref_bucket_sum)
qed

end
