(* ===== verification/Router_Props.thy ===== *)
theory Router_Props
  imports Router_Dispatch Systems "HOL-Library.Multiset"
begin

text \<open>
  The properties of the routing engine. Its runs are the reachability relation of \<open>router_step\<close>:
  one rule for each operation, with any arguments, and one for a receiver that takes messages off
  its queue or goes away. A generated connection id is one that is not in use.
\<close>

subsection \<open>Runs\<close>

inductive router_step :: "'c mpsc_ops \<Rightarrow> 'c Router \<Rightarrow> 'c Router \<Rightarrow> bool" for ops where
  step_register: "map_of (rt_connections r) fresh = None \<Longrightarrow>
    register_connection ops fresh tenant protocol cap r = (res, r') \<Longrightarrow> router_step ops r r'"
| step_subscribe: "subscribe c s f r = (res, r') \<Longrightarrow> router_step ops r r'"
| step_unsubscribe: "unsubscribe c s r = (res, r') \<Longrightarrow> router_step ops r r'"
| step_unregister: "router_step ops r (unregister_connection c r)"
| step_dispatch: "message_valid m \<Longrightarrow> dispatch ops t1 t2 m r = Some (rep, r') \<Longrightarrow> router_step ops r r'"
| step_receive: "map_of (rt_connections r) c = Some cs \<Longrightarrow>
    ch_capacity ops ch = ch_capacity ops (cs_sender cs) \<Longrightarrow>
    ch_queued ops ch = drop n (ch_queued ops (cs_sender cs)) \<Longrightarrow>
    router_step ops r (r\<lparr>rt_connections := AList.update c (cs\<lparr>cs_sender := ch\<rparr>) (rt_connections r)\<rparr>)"

inductive_cases router_stepE: "router_step ops r r'"

lemma receive_inv:
  assumes "router_inv r" and "map_of (rt_connections r) c = Some cs"
  shows "router_inv (r\<lparr>rt_connections := AList.update c (cs\<lparr>cs_sender := ch\<rparr>) (rt_connections r)\<rparr>)"
  using assms
  by (intro router_inv_static_view static_view_update) (simp_all add: static_def)

lemma router_step_inv: "router_inv r \<Longrightarrow> router_step ops r r' \<Longrightarrow> router_inv r'"
  by (erule router_stepE)
    (auto intro: register_connection_inv subscribe_inv unsubscribe_inv unregister_connection_inv
      dispatch_inv receive_inv)

interpretation rs: step_invariant "router_step ops" router_inv for ops
  by unfold_locales (rule router_step_inv)

lemma reachable_inv: "config_usize config \<Longrightarrow> (router_step ops)\<^sup>*\<^sup>* (router_new config) r \<Longrightarrow> router_inv r"
  by (blast intro: rs.inv_reachable router_new_inv)

subsection \<open>Queues\<close>

text \<open>
  What the delivery queues hold in a run: no more than their capacity, which is within the
  configured cap, and only messages of the connection's tenant, each with a non-empty list of
  distinct subscription ids. The strikes of a registered connection are below the threshold.
\<close>

definition queue_ok :: "'c mpsc_ops \<Rightarrow> RouterConfig \<Rightarrow> 'c ConnectionState \<Rightarrow> bool" where
  "queue_ok ops config cs \<longleftrightarrow>
    0 < ch_capacity ops (cs_sender cs) \<and> ch_capacity ops (cs_sender cs) \<le> rc_max_queue_capacity config
    \<and> length (ch_queued ops (cs_sender cs)) \<le> ch_capacity ops (cs_sender cs)
    \<and> (\<forall>d\<in>set (ch_queued ops (cs_sender cs)).
         md_tenant_id (rm_metadata (dv_message d)) = cs_tenant_id cs
         \<and> dv_subscription_ids d \<noteq> [] \<and> distinct (dv_subscription_ids d))
    \<and> cs_full_strikes cs < max (rc_slow_consumer_strikes config) 1"

definition queues_ok :: "'c mpsc_ops \<Rightarrow> 'c Router \<Rightarrow> bool" where
  "queues_ok ops r \<longleftrightarrow> (\<forall>c cs. map_of (rt_connections r) c = Some cs \<longrightarrow> queue_ok ops (rt_config r) cs)"

lemma mpsc_send_facts:
  assumes "mpsc_laws ops"
  shows "ch_capacity ops (snd (ch_try_send ops c d)) = ch_capacity ops c"
    and "fst (ch_try_send ops c d) = (if ch_closed ops c then SendClosed
         else if ch_capacity ops c \<le> length (ch_queued ops c) then SendFull else SendOk)"
    and "ch_queued ops (snd (ch_try_send ops c d)) =
        (if fst (ch_try_send ops c d) = SendOk then ch_queued ops c @ [d] else ch_queued ops c)"
  using assms by (auto simp: mpsc_laws_def)

lemma zero_less_max_one: "0 < max (w :: 32 word) 1"
  by (simp add: less_max_iff_disj)

lemma queue_ok_after_send:
  assumes laws: "mpsc_laws ops" and q: "queue_ok ops config cs"
    and d: "ids \<noteq> []" "distinct ids" "md_tenant_id (rm_metadata m) = cs_tenant_id cs"
    and e: "\<not> evicted ops config m ids cs"
  shows "queue_ok ops config (after_send ops m ids cs)"
proof -
  let ?d = "\<lparr>dv_message = m, dv_subscription_ids = ids\<rparr>"
  note send = mpsc_send_facts [OF laws, of "cs_sender cs" ?d]
  have "length (ch_queued ops (snd (ch_try_send ops (cs_sender cs) ?d))) \<le> ch_capacity ops (cs_sender cs)"
    using q by (auto simp: send(2,3) queue_ok_def)
  moreover have "cs_full_strikes (after_send ops m ids cs) < max (rc_slow_consumer_strikes config) 1"
    using e zero_less_max_one [of "rc_slow_consumer_strikes config"]
    by (auto simp: evicted_def after_send_def not_le less_max_iff_disj split: try_send_result.splits)
  ultimately show ?thesis using q d by (auto simp: queue_ok_def after_send_def send(1,3) split: if_splits)
qed

lemma collected_tenant:
  assumes inv: "router_inv r" and "metadata_valid md" and cs: "map_of (rt_connections r) c = Some cs"
    and "map_of (collect_matches (rt_routes r) md) c = Some ids"
  shows "md_tenant_id md = cs_tenant_id cs"
proof -
  have wf: "conn_wf (rt_config r) cs" using inv cs by (simp add: router_inv_def connections_wf_iff)
  obtain s where "s \<in> set (ref_matches cs md)"
    using collected_ids [OF inv assms(2,4)] cs by (metis list.set_sel(1) option.inject set_empty2)
  moreover have "distinct (map fst (cs_subscriptions cs))" using wf by (simp add: conn_wf_def)
  ultimately obtain f where "map_of (cs_subscriptions cs) s = Some f" "filter_matches f md"
    by (auto simp: ref_matches_lookup split: option.splits)
  with conn_wf_lookup [OF wf] matches_tenant show ?thesis by metis
qed

lemma router_step_config: "router_step ops r r' \<Longrightarrow> rt_config r' = rt_config r"
  by (erule router_stepE)
    (auto simp: register_connection_def subscribe_def unsubscribe_def unregister_connection_def
      dispatch_eq dispatched_def Let_def split: sum.splits option.splits if_splits)

lemma dispatch_queues_ok:
  assumes laws: "mpsc_laws ops" and inv: "router_inv r" and q: "queues_ok ops r" and m: "message_valid m"
    and d: "dispatch ops t1 t2 m r = Some (rep, r')" and cs': "map_of (rt_connections r') c = Some cs'"
  shows "queue_ok ops (rt_config r) cs'"
proof (cases "map_of (collect_matches (rt_routes r) (rm_metadata m)) c")
  case None
  then show ?thesis using dispatch_connection [OF inv d, of c] cs' q by (simp add: queues_ok_def)
next
  case (Some ids)
  then obtain cs where cs: "map_of (rt_connections r) c = Some cs" "cs' = after_send ops m ids cs"
    "\<not> evicted ops (rt_config r) m ids cs"
    using dispatch_connection [OF inv d, of c] cs' by (auto split: option.splits if_splits)
  have md: "metadata_valid (rm_metadata m)" using m by (simp add: message_valid_def)
  have "ids \<noteq> []" "distinct ids" using collected_ids [OF inv md Some] by auto
  moreover have "md_tenant_id (rm_metadata m) = cs_tenant_id cs"
    by (rule collected_tenant [OF inv md cs(1) Some])
  ultimately show ?thesis using q cs laws by (simp add: queue_ok_after_send queues_ok_def)
qed

lemma queue_ok_subs [simp]: "queue_ok ops config (cs\<lparr>cs_subscriptions := x\<rparr>) = queue_ok ops config cs"
  by (simp add: queue_ok_def)

lemma queue_ok_receive:
  assumes "queue_ok ops config cs" and "ch_capacity ops ch = ch_capacity ops (cs_sender cs)"
    and "ch_queued ops ch = drop n (ch_queued ops (cs_sender cs))"
  shows "queue_ok ops config (cs\<lparr>cs_sender := ch\<rparr>)"
  using assms by (auto simp: queue_ok_def dest: in_set_dropD)

lemma queue_ok_new:
  assumes "mpsc_laws ops" and "0 < n" and "n \<le> rc_max_queue_capacity config"
  shows "queue_ok ops config \<lparr>cs_tenant_id = t, cs_protocol = p, cs_sender = ch_channel ops n,
    cs_subscriptions = [], cs_full_strikes = 0\<rparr>"
  using assms zero_less_max_one by (simp add: queue_ok_def mpsc_laws_def)

lemma router_step_queues:
  assumes laws: "mpsc_laws ops" and inv: "router_inv r" and q: "queues_ok ops r" and step: "router_step ops r r'"
  shows "queues_ok ops r'"
  unfolding queues_ok_def router_step_config [OF step]
proof (intro allI impI)
  fix c cs' assume cs': "map_of (rt_connections r') c = Some cs'"
  from step show "queue_ok ops (rt_config r) cs'"
  proof (cases rule: router_step.cases)
    case (step_register fresh tenant protocol cap res)
    then show ?thesis using cs' q queue_ok_new [OF laws] register_connection_Inl
      by (cases res) (fastforce simp: register_connection_Inr registered_def queues_ok_def alist_simps
          split: if_splits dest!: register_connection_Inl)+
  next
    case (step_subscribe d s f res)
    then show ?thesis using cs' q
      by (cases res) (auto simp: subscribe_Inr with_subscription_def queues_ok_def alist_simps
          split: if_splits option.splits dest!: subscribe_Inl)
  next
    case (step_unsubscribe d s res)
    then show ?thesis using cs' q
      by (cases res) (auto simp: unsubscribe_Inr without_subscription_def queues_ok_def alist_simps
          split: if_splits option.splits dest!: unsubscribe_Inl)
  next
    case (step_unregister d)
    then show ?thesis using cs' q
      by (auto simp: unregister_connection_def queues_ok_def alist_simps split: option.splits if_splits)
  next
    case (step_dispatch m t1 t2 rep)
    then show ?thesis using dispatch_queues_ok [OF laws inv q] cs' by blast
  next
    case (step_receive d cs ch n)
    then show ?thesis using cs' q by (auto simp: queues_ok_def alist_simps queue_ok_receive split: if_splits)
  qed
qed

interpretation rq: step_invariant "router_step ops" "\<lambda>r. mpsc_laws ops \<longrightarrow> router_inv r \<and> queues_ok ops r" for ops
  by unfold_locales (blast intro: router_step_inv router_step_queues)

lemma reachable_queues:
  assumes "mpsc_laws ops" and "config_usize config" and "(router_step ops)\<^sup>*\<^sup>* (router_new config) r"
  shows "queues_ok ops r"
proof -
  have "queues_ok ops (router_new config)" by (simp add: queues_ok_def router_new_def)
  with rq.inv_reachable [OF assms(3)] assms(1) router_new_inv [OF assms(2)] show ?thesis by blast
qed

subsection \<open>A concrete queue and a concrete run\<close>

text \<open>
  A bounded first-in first-out queue satisfies the laws, so they can hold together. It and the
  following sample data instantiate the properties below.
\<close>

definition fifo_ops :: "(nat \<times> Delivery list \<times> bool) mpsc_ops" where
  "fifo_ops =
    \<lparr>ch_channel = (\<lambda>n. (n, [], False)),
     ch_try_send = (\<lambda>(n, q, closed) d.
       if closed then (SendClosed, (n, q, closed))
       else if n \<le> length q then (SendFull, (n, q, closed)) else (SendOk, (n, q @ [d], closed))),
     ch_queued = (\<lambda>(n, q, closed). q), ch_capacity = (\<lambda>(n, q, closed). n),
     ch_closed = (\<lambda>(n, q, closed). closed)\<rparr>"

lemma fifo_laws: "mpsc_laws fifo_ops"
  by (auto simp: mpsc_laws_def fifo_ops_def)

definition sample_filter :: RouteFilter where
  "sample_filter =
    \<lparr>rf_tenant_id = ''t1'', rf_kind = Some ''event'', rf_message_type = None, rf_channel = None,
     rf_actor_id = None, rf_recipient_type = Some ''user'', rf_recipient_identity = Some ''42''\<rparr>"

definition sample_metadata :: RoutingMetadata where
  "sample_metadata =
    \<lparr>md_message_id = ''m-1'', md_tenant_id = ''t1'', md_kind = Some ''event'', md_message_type = None,
     md_channel = Some ''news'', md_actor_id = None, md_recipient_type = Some ''user'',
     md_recipient_identity = Some ''42'', md_content_type = ''application/json'',
     md_timestamp_ms = None, md_source = None\<rparr>"

definition sample_message :: RoutedMessage where
  "sample_message = \<lparr>rm_metadata = sample_metadata, rm_payload = ''{}'', rm_trace_context = None\<rparr>"

definition sample_router :: "(nat \<times> Delivery list \<times> bool) Router" where
  "sample_router =
    snd (subscribe 7 (SubscriptionId ''s1'') sample_filter
      (snd (register_connection fifo_ops 7 ''t1'' WebSocket (Some 2) (router_new router_config_default))))"

lemma sample_filter_valid: "filter_valid sample_filter"
  by (simp add: filter_valid_def sample_filter_def is_whitespace_def is_control_def)

lemma sample_metadata_valid: "metadata_valid sample_metadata"
  by (simp add: metadata_valid_def sample_metadata_def is_whitespace_def is_control_def)

lemma sample_message_valid: "message_valid sample_message"
  by (simp add: message_valid_def sample_message_def sample_metadata_valid)

lemma sample_config: "config_usize router_config_default"
  by (simp add: config_usize_def router_config_default_def)

lemma sample_reachable: "(router_step fifo_ops)\<^sup>*\<^sup>* (router_new router_config_default) sample_router"
proof -
  let ?r0 = "router_new router_config_default :: (nat \<times> Delivery list \<times> bool) Router"
  let ?r1 = "snd (register_connection fifo_ops 7 ''t1'' WebSocket (Some 2) ?r0)"
  have "router_step fifo_ops ?r0 ?r1"
    by (rule step_register [OF _ prod.collapse [symmetric]]) (simp add: router_new_def)
  moreover have "router_step fifo_ops ?r1 sample_router"
    unfolding sample_router_def by (rule step_subscribe [OF prod.collapse [symmetric]])
  ultimately show ?thesis by simp
qed

lemmas sample_inv = reachable_inv [OF sample_config sample_reachable]

lemma sample_registered:
  "register_connection fifo_ops 7 ''t1'' WebSocket (Some 2) (router_new router_config_default)
   = (Inr 7, registered fifo_ops 7 ''t1'' WebSocket 2 (router_new router_config_default))"
  by (subst register_connection_Inr)
    (simp add: queue_request_def router_config_default_def router_new_def tenant_connections_def
      is_whitespace_def is_control_def)

abbreviation sample_connection :: "(nat \<times> Delivery list \<times> bool) ConnectionState" where
  "sample_connection \<equiv>
    \<lparr>cs_tenant_id = ''t1'', cs_protocol = WebSocket, cs_sender = (2, [], False),
     cs_subscriptions = [(SubscriptionId ''s1'', sample_filter)], cs_full_strikes = 0\<rparr>"

lemma sample_subscribed:
  "subscribe 7 (SubscriptionId ''s1'') sample_filter
     (registered fifo_ops 7 ''t1'' WebSocket 2 (router_new router_config_default))
   = (Inr (), with_subscription 7 (sample_connection\<lparr>cs_subscriptions := []\<rparr>) (SubscriptionId ''s1'') sample_filter
       (registered fifo_ops 7 ''t1'' WebSocket 2 (router_new router_config_default)))"
  by (subst subscribe_Inr)
    (simp add: registered_def router_new_def fifo_ops_def sample_filter_valid total_subscriptions_def
      tenant_subscriptions_def router_config_default_def, simp add: sample_filter_def)

lemma sample_lookup: "map_of (rt_connections sample_router) 7 = Some sample_connection"
  by (simp add: sample_router_def sample_registered sample_subscribed with_subscription_def alist_simps)

lemma sample_ref_matches: "ref_matches sample_connection sample_metadata = [SubscriptionId ''s1'']"
  by (simp add: ref_matches_def filter_matches_def sample_filter_def sample_metadata_def
      optional_matches_def recipient_matches_def)

text \<open>Dispatching the sample message fills the sample connection's queue.\<close>

lemma sample_dispatch:
  assumes inv: "router_inv r" and "length q < 2"
    and cs: "map_of (rt_connections r) 7 = Some (sample_connection\<lparr>cs_sender := (2, q, False)\<rparr>)"
  shows "\<exists>rep r' d. dispatch fifo_ops 0 0 sample_message r = Some (rep, r')
    \<and> map_of (rt_connections r') 7 = Some (sample_connection\<lparr>cs_sender := (2, q @ [d], False)\<rparr>)"
proof -
  obtain rep r' where d: "dispatch fifo_ops 0 0 sample_message r = Some (rep, r')"
    by (simp add: dispatch_eq Let_def)
  have md: "metadata_valid (rm_metadata sample_message)" by (simp add: sample_message_def sample_metadata_valid)
  have "ref_matches (sample_connection\<lparr>cs_sender := (2, q, False)\<rparr>) (rm_metadata sample_message) \<noteq> []"
    using sample_ref_matches by (simp add: ref_matches_def sample_message_def)
  then obtain ids where "map_of (collect_matches (rt_routes r) (rm_metadata sample_message)) 7 = Some ids"
    using collected_none [OF inv md cs] by blast
  then show ?thesis using d dispatch_connection [OF inv d, of 7] cs assms(2)
    by (simp add: evicted_def after_send_def send_outcome_def fifo_ops_def)
qed

lemma sample_full:
  "\<exists>r q. (router_step fifo_ops)\<^sup>*\<^sup>* (router_new router_config_default) r \<and> length q = 2
    \<and> map_of (rt_connections r) 7 = Some (sample_connection\<lparr>cs_sender := (2, q, False)\<rparr>)"
proof -
  obtain rep r1 d where r1: "dispatch fifo_ops 0 0 sample_message sample_router = Some (rep, r1)"
    "map_of (rt_connections r1) 7 = Some (sample_connection\<lparr>cs_sender := (2, [] @ [d], False)\<rparr>)"
    using sample_dispatch [OF sample_inv, of "[]"] sample_lookup by auto
  have run1: "(router_step fifo_ops)\<^sup>*\<^sup>* (router_new router_config_default) r1"
    using sample_reachable step_dispatch [OF sample_message_valid r1(1)] by (rule rtranclp.rtrancl_into_rtrancl)
  obtain rep2 r2 e where r2: "dispatch fifo_ops 0 0 sample_message r1 = Some (rep2, r2)"
    "map_of (rt_connections r2) 7 = Some (sample_connection\<lparr>cs_sender := (2, ([] @ [d]) @ [e], False)\<rparr>)"
    using sample_dispatch [OF reachable_inv [OF sample_config run1] _ r1(2)] by auto
  have "(router_step fifo_ops)\<^sup>*\<^sup>* (router_new router_config_default) r2"
    using run1 step_dispatch [OF sample_message_valid r2(1)] by (rule rtranclp.rtrancl_into_rtrancl)
  with r2(2) show ?thesis by (intro exI [of _ r2] exI [of _ "([] @ [d]) @ [e]"]) simp
qed

subsection \<open>Matching\<close>

text \<open>
  C4. The compiled index and the reference matcher agree: for a filter and a message that passed
  validation, the key the filter is stored under is among the keys the message is looked up under
  exactly when the reference matcher accepts the pair.
\<close>

theorem matcher_equivalence:
  assumes "filter_validate f = Inr ()" and "metadata_validate md = Inr ()"
  shows "route_key_of f \<in> set (candidates md) \<longleftrightarrow> filter_matches f md"
  using assms by (simp add: validate_simps route_key_candidate_iff)

theorem matcher_equivalence_witness:
  "route_key_of sample_filter \<in> set (candidates sample_metadata) \<and> filter_matches sample_filter sample_metadata"
proof -
  have "filter_validate sample_filter = Inr ()" "metadata_validate sample_metadata = Inr ()"
    by (simp_all add: validate_simps sample_filter_valid sample_metadata_valid)
  moreover have "filter_matches sample_filter sample_metadata"
    by (simp add: filter_matches_def sample_filter_def sample_metadata_def optional_matches_def
        recipient_matches_def)
  ultimately show ?thesis using matcher_equivalence by simp
qed

text \<open>
  A validated message is looked up under pairwise different keys of its own tenant, two to the
  number of populated optional dimensions, hence at most 32 of them.
\<close>

lemma candidates_bound:
  assumes "metadata_validate md = Inr ()"
  shows "distinct (candidates md) \<and> length (candidates md) = 2 ^ populated_dimensions md
    \<and> length (candidates md) \<le> 32 \<and> (\<forall>k\<in>set (candidates md). rk_tenant_id k = md_tenant_id md)"
proof -
  have "2 ^ populated_dimensions md \<le> (2 :: nat) ^ 5"
    by (rule power_increasing [OF populated_dimensions_le]) simp
  moreover have "distinct (candidates md)"
    using assms by (intro candidates_distinct) (simp add: validate_simps metadata_valid_recipient)
  ultimately show ?thesis using candidate_tenant by (simp add: length_candidates)
qed

lemma candidates_bound_witness:
  "distinct (candidates sample_metadata) \<and> length (candidates sample_metadata) = 8"
proof -
  have v: "metadata_validate sample_metadata = Inr ()" by (simp add: validate_simps sample_metadata_valid)
  with candidates_bound [OF v] show ?thesis
    by (simp add: populated_dimensions_def) (simp add: sample_metadata_def)
qed

subsection \<open>The invariant in every run\<close>

text \<open>
  C5. In every reachable state the index is exact: a subscription id is in the bucket of a key and
  a connection exactly when that connection is registered and holds a subscription of this id whose
  filter has this key. No stale entry survives a removal and no live subscription is missing.
\<close>

theorem index_exact:
  assumes "config_usize config" and "(router_step ops)\<^sup>*\<^sup>* (router_new config) r"
  shows "indexed (rt_routes r) k c s \<longleftrightarrow> subscribed (rt_connections r) k c s"
  using reachable_inv [OF assms] by (simp add: router_inv_def index_agrees_def)

theorem index_exact_witness:
  "indexed (rt_routes sample_router) (route_key_of sample_filter) 7 (SubscriptionId ''s1'')"
  using index_exact [OF sample_config sample_reachable] by (simp add: subscribed_def sample_lookup)

text \<open>
  C6. In every reachable state all resource limits hold: connections in total and of any tenant,
  subscriptions in total, of any tenant and of any connection.
\<close>

theorem limits_hold:
  assumes "config_usize config" and "(router_step ops)\<^sup>*\<^sup>* (router_new config) r"
  shows "length (rt_connections r) \<le> rc_max_connections (rt_config r)
    \<and> tenant_connections t r \<le> rc_max_connections_per_tenant (rt_config r)
    \<and> total_subscriptions r \<le> rc_max_subscriptions (rt_config r)
    \<and> tenant_subscriptions t r \<le> rc_max_subscriptions_per_tenant (rt_config r)
    \<and> (\<forall>(c, cs)\<in>set (rt_connections r).
          length (cs_subscriptions cs) \<le> rc_max_subscriptions_per_connection (rt_config r))"
  using reachable_inv [OF assms]
  by (auto simp: router_inv_def limits_ok_def connections_wf_def conn_wf_def)

theorem limits_hold_witness:
  "length (rt_connections sample_router) \<le> rc_max_connections (rt_config sample_router)
    \<and> total_subscriptions sample_router \<le> rc_max_subscriptions (rt_config sample_router)"
  using limits_hold [OF sample_config sample_reachable] by simp

lemma inv_gauges:
  assumes inv: "router_inv r"
  shows "unat (conn_gauge p (rt_metrics r)) = connections_by_protocol p r"
    and "unat (sub_gauge p (rt_metrics r)) =
        (\<Sum>(c, cs)\<leftarrow>filter (\<lambda>(c, cs). cs_protocol cs = p) (rt_connections r). length (cs_subscriptions cs))"
proof -
  have "conn_gauge p (rt_metrics r) = of_nat (conn_count (\<lambda>cs. cs_protocol cs = p) (rt_connections r))"
    "sub_gauge p (rt_metrics r) = of_nat (sub_count (\<lambda>cs. cs_protocol cs = p) (rt_connections r))"
    using inv by (simp_all add: router_inv_def gauges_ok_def)
  with conn_count_lt [OF inv] sub_count_lt [OF inv]
  show "unat (conn_gauge p (rt_metrics r)) = connections_by_protocol p r"
    "unat (sub_gauge p (rt_metrics r)) =
        (\<Sum>(c, cs)\<leftarrow>filter (\<lambda>(c, cs). cs_protocol cs = p) (rt_connections r). length (cs_subscriptions cs))"
    by (simp_all add: unat_of_nat connections_by_protocol_count)
      (simp add: sub_count_def case_prod_unfold sum_list_map_filter')
qed

text \<open>
  In every reachable state the gauges are the cardinalities: for each protocol the active
  connection gauge and the active subscription gauge equal, without wrap-around, the number of
  registered connections of the protocol and of their subscriptions.
\<close>

theorem gauges_exact:
  assumes "config_usize config" and "(router_step ops)\<^sup>*\<^sup>* (router_new config) r"
  shows "unat (conn_gauge p (rt_metrics r)) = connections_by_protocol p r
    \<and> unat (sub_gauge p (rt_metrics r)) =
        (\<Sum>(c, cs)\<leftarrow>filter (\<lambda>(c, cs). cs_protocol cs = p) (rt_connections r). length (cs_subscriptions cs))"
  using inv_gauges [OF reachable_inv [OF assms]] by blast

theorem gauges_exact_witness:
  "unat (conn_gauge WebSocket (rt_metrics sample_router)) = connections_by_protocol WebSocket sample_router"
  using gauges_exact [OF sample_config sample_reachable] by simp

subsection \<open>Dispatch\<close>

text \<open>
  C7. Dispatch returns (the fan-out loop never runs out of its message), it counts every matching
  subscription once, and every connection with a matching subscription is counted in exactly one of
  the three outcomes delivered, full and closed.
\<close>

theorem dispatch_report_exact:
  assumes "router_inv r" and "message_valid m"
  shows "\<exists>rep r'. dispatch ops t1 t2 m r = Some (rep, r')
    \<and> dr_matched_subscriptions rep = (\<Sum>(c, cs)\<leftarrow>rt_connections r. length (ref_matches cs (rm_metadata m)))
    \<and> dr_delivered_connections rep + dr_full_connections rep + dr_closed_connections rep =
        length (matched_connections (rm_metadata m) r)"
proof -
  have md: "metadata_valid (rm_metadata m)" using assms(2) by (simp add: message_valid_def)
  obtain rep r' where d: "dispatch ops t1 t2 m r = Some (rep, r')" by (simp add: dispatch_eq Let_def)
  let ?ms = "collect_matches (rt_routes r) (rm_metadata m)"
  have "dr_matched_subscriptions rep = (\<Sum>(c, cs)\<leftarrow>rt_connections r. length (ref_matches cs (rm_metadata m)))"
    using dispatch_report [OF assms(1) d] collected_count [OF assms(1) md] by (simp add: Let_def)
  moreover have "dr_delivered_connections rep + dr_full_connections rep + dr_closed_connections rep = length ?ms"
    using dispatch_report [OF assms(1) d] count_three [of "map (outcome_at ops m (rt_connections r)) ?ms"]
    by (simp add: Let_def)
  ultimately show ?thesis using d matched_connections_collect(2) [OF assms(1) md] by auto
qed

theorem dispatch_report_exact_witness:
  "\<exists>rep r'. dispatch fifo_ops 0 0 sample_message sample_router = Some (rep, r')
    \<and> dr_delivered_connections rep + dr_full_connections rep + dr_closed_connections rep =
        length (matched_connections (rm_metadata sample_message) sample_router)"
  using dispatch_report_exact [OF sample_inv sample_message_valid, of fifo_ops 0 0] by blast

text \<open>
  C8. What one dispatch does to each registered connection, given the documented behaviour of the
  queue. A connection with no matching subscription is untouched. Otherwise one delivery with the
  message and exactly the matching subscription ids, each once, is appended to its queue and its
  strikes are reset, if the queue has room. If the queue is full, nothing is queued and either a
  strike is added or, at the threshold, the connection is removed. A closed one is removed.
\<close>

theorem dispatch_delivers:
  assumes laws: "mpsc_laws ops" and inv: "router_inv r" and m: "message_valid m"
    and d: "dispatch ops t1 t2 m r = Some (rep, r')" and cs: "map_of (rt_connections r) c = Some cs"
  shows "if ref_matches cs (rm_metadata m) = [] then map_of (rt_connections r') c = Some cs
    else if ch_closed ops (cs_sender cs) then map_of (rt_connections r') c = None
    else if ch_capacity ops (cs_sender cs) \<le> length (ch_queued ops (cs_sender cs)) then
      (let strikes = sat_add (cs_full_strikes cs) 1
       in if max (rc_slow_consumer_strikes (rt_config r)) 1 \<le> strikes then map_of (rt_connections r') c = None
          else \<exists>ch. map_of (rt_connections r') c = Some (cs\<lparr>cs_sender := ch, cs_full_strikes := strikes\<rparr>)
             \<and> ch_queued ops ch = ch_queued ops (cs_sender cs))
    else \<exists>ch ids. map_of (rt_connections r') c = Some (cs\<lparr>cs_sender := ch, cs_full_strikes := 0\<rparr>)
       \<and> ch_queued ops ch = ch_queued ops (cs_sender cs) @ [\<lparr>dv_message = m, dv_subscription_ids = ids\<rparr>]
       \<and> distinct ids \<and> set ids = set (ref_matches cs (rm_metadata m))"
proof -
  have md: "metadata_valid (rm_metadata m)" using m by (simp add: message_valid_def)
  show ?thesis
  proof (cases "map_of (collect_matches (rt_routes r) (rm_metadata m)) c")
    case None
    with collected_none [OF inv md cs] dispatch_connection [OF inv d, of c] cs show ?thesis by simp
  next
    case (Some ids)
    have ids: "set ids = set (ref_matches cs (rm_metadata m))" "distinct ids" "ref_matches cs (rm_metadata m) \<noteq> []"
      using collected_ids [OF inv md Some] cs by auto
    note send = mpsc_send_facts [OF laws, of "cs_sender cs" "\<lparr>dv_message = m, dv_subscription_ids = ids\<rparr>"]
    show ?thesis using dispatch_connection [OF inv d, of c] cs Some ids
      by (auto simp: evicted_def after_send_def send_outcome_def send(2,3) Let_def)
  qed
qed

theorem dispatch_delivers_witness:
  "\<exists>rep r' ch ids. dispatch fifo_ops 0 0 sample_message sample_router = Some (rep, r')
    \<and> map_of (rt_connections r') 7 = Some (sample_connection\<lparr>cs_sender := ch, cs_full_strikes := 0\<rparr>)
    \<and> ch_queued fifo_ops ch = [\<lparr>dv_message = sample_message, dv_subscription_ids = ids\<rparr>]
    \<and> set ids = {SubscriptionId ''s1''}"
proof -
  obtain rep r' where d: "dispatch fifo_ops 0 0 sample_message sample_router = Some (rep, r')"
    by (simp add: dispatch_eq Let_def)
  have refs: "ref_matches sample_connection (rm_metadata sample_message) = [SubscriptionId ''s1'']"
    using sample_ref_matches by (simp add: sample_message_def)
  have fifo: "\<not> ch_closed fifo_ops (cs_sender sample_connection)" "ch_queued fifo_ops (cs_sender sample_connection) = []"
    "ch_capacity fifo_ops (cs_sender sample_connection) = 2"
    by (simp_all add: fifo_ops_def)
  show ?thesis
    using dispatch_delivers [OF fifo_laws sample_inv sample_message_valid d sample_lookup] refs fifo d by auto
qed

text \<open>
  C9. Tenant isolation and bounded memory in every run: each queue holds at most as many deliveries
  as its capacity, which is positive and within the configured cap, and every delivery in the queue
  of a connection carries a message of that connection's tenant.
\<close>

theorem queues_isolated_bounded:
  assumes "mpsc_laws ops" and "config_usize config" and "(router_step ops)\<^sup>*\<^sup>* (router_new config) r"
    and "map_of (rt_connections r) c = Some cs"
  shows "length (ch_queued ops (cs_sender cs)) \<le> ch_capacity ops (cs_sender cs)
    \<and> 0 < ch_capacity ops (cs_sender cs)
    \<and> ch_capacity ops (cs_sender cs) \<le> rc_max_queue_capacity (rt_config r)
    \<and> (\<forall>d\<in>set (ch_queued ops (cs_sender cs)). md_tenant_id (rm_metadata (dv_message d)) = cs_tenant_id cs)"
  using reachable_queues [OF assms(1-3)] assms(4) by (simp add: queues_ok_def queue_ok_def)

theorem queues_isolated_bounded_witness:
  "\<exists>(r :: (nat \<times> Delivery list \<times> bool) Router) q.
      map_of (rt_connections r) 7 = Some (sample_connection\<lparr>cs_sender := (2, q, False)\<rparr>)
    \<and> length q = 2 \<and> md_tenant_id (rm_metadata (dv_message (hd q))) = ''t1''"
proof -
  obtain r q where run: "(router_step fifo_ops)\<^sup>*\<^sup>* (router_new router_config_default) r" and q: "length q = 2"
    and cs: "map_of (rt_connections r) 7 = Some (sample_connection\<lparr>cs_sender := (2, q, False)\<rparr>)"
    using sample_full by auto
  have "hd q \<in> set q" using q by (cases q) auto
  then have "md_tenant_id (rm_metadata (dv_message (hd q))) = ''t1''"
    using queues_isolated_bounded [OF fifo_laws sample_config run cs] by (simp add: fifo_ops_def)
  with cs q show ?thesis by (intro exI [of _ r] exI [of _ q]) simp
qed

text \<open>
  Slow consumers: in a run, a registered connection whose queue is full when a matching message
  is dispatched is removed exactly when this is its strike number \<open>max(slow_consumer_strikes, 1)\<close> in a
  row; before that it stays, with one more strike and the same queue. The counter never saturates.
\<close>

theorem slow_consumer_eviction:
  assumes laws: "mpsc_laws ops" and cfg: "config_usize config"
    and run: "(router_step ops)\<^sup>*\<^sup>* (router_new config) r" and m: "message_valid m"
    and d: "dispatch ops t1 t2 m r = Some (rep, r')" and cs: "map_of (rt_connections r) c = Some cs"
    and full: "ref_matches cs (rm_metadata m) \<noteq> []" "\<not> ch_closed ops (cs_sender cs)"
      "ch_capacity ops (cs_sender cs) \<le> length (ch_queued ops (cs_sender cs))"
  shows "if unat (cs_full_strikes cs) + 1 = max (unat (rc_slow_consumer_strikes (rt_config r))) 1
    then map_of (rt_connections r') c = None
    else \<exists>cs'. map_of (rt_connections r') c = Some cs' \<and> unat (cs_full_strikes cs') = unat (cs_full_strikes cs) + 1
      \<and> ch_queued ops (cs_sender cs') = ch_queued ops (cs_sender cs)"
proof -
  let ?thr = "max (rc_slow_consumer_strikes (rt_config r)) 1"
  have thr: "unat ?thr = max (unat (rc_slow_consumer_strikes (rt_config r))) 1"
    by (simp add: max_def word_le_nat_alt)
  have "cs_full_strikes cs < ?thr"
    using reachable_queues [OF laws cfg run] cs by (simp add: queues_ok_def queue_ok_def)
  then have lt: "unat (cs_full_strikes cs) < unat ?thr" by (simp add: word_less_nat_alt)
  then have sat: "unat (sat_add (cs_full_strikes cs) 1) = unat (cs_full_strikes cs) + 1"
    using unsigned_less [of ?thr, where ?'a = nat] by (simp add: unat_sat_add)
  then have "?thr \<le> sat_add (cs_full_strikes cs) 1 \<longleftrightarrow> unat (cs_full_strikes cs) + 1 = unat ?thr"
    using lt by (auto simp: word_le_nat_alt)
  moreover have inv: "router_inv r" using cfg run by (rule reachable_inv)
  then obtain ids where ids: "map_of (collect_matches (rt_routes r) (rm_metadata m)) c = Some ids"
    using collected_none [OF _ _ cs] m full(1) by (auto simp: message_valid_def)
  note send = mpsc_send_facts [OF laws, of "cs_sender cs" "\<lparr>dv_message = m, dv_subscription_ids = ids\<rparr>"]
  ultimately show ?thesis using dispatch_connection [OF inv d, of c] cs ids full(2,3) sat thr
    by (auto simp: evicted_def after_send_def send_outcome_def send(2,3))
qed

theorem slow_consumer_eviction_witness:
  "\<exists>r rep r' cs'. dispatch fifo_ops 0 0 sample_message r = Some (rep, r')
    \<and> map_of (rt_connections r') 7 = Some cs' \<and> unat (cs_full_strikes cs') = 1"
proof -
  obtain r q where run: "(router_step fifo_ops)\<^sup>*\<^sup>* (router_new router_config_default) r" and q: "length q = 2"
    and cs: "map_of (rt_connections r) 7 = Some (sample_connection\<lparr>cs_sender := (2, q, False)\<rparr>)"
    using sample_full by auto
  obtain rep r' where d: "dispatch fifo_ops 0 0 sample_message r = Some (rep, r')"
    by (simp add: dispatch_eq Let_def)
  have "rt_config r = router_config_default"
    using run by (induction rule: rtranclp_induct) (simp_all add: router_new_def router_step_config)
  moreover have "ref_matches (sample_connection\<lparr>cs_sender := (2, q, False)\<rparr>) (rm_metadata sample_message) \<noteq> []"
    using sample_ref_matches by (simp add: ref_matches_def sample_message_def)
  ultimately show ?thesis
    using slow_consumer_eviction [OF fifo_laws sample_config run sample_message_valid d cs] d q
    by (auto simp: fifo_ops_def router_config_default_def)
qed

subsection \<open>Removal\<close>

text \<open>
  C10. Unregistering removes every trace of a connection: afterwards it is not registered, no bucket
  mentions it, every other connection and its entries are unchanged, and doing it again changes
  nothing.
\<close>

theorem unregister_complete:
  assumes "router_inv r"
  shows "map_of (rt_connections (unregister_connection c r)) c' =
      (if c' = c then None else map_of (rt_connections r) c')
    \<and> (indexed (rt_routes (unregister_connection c r)) k c' s \<longleftrightarrow> c' \<noteq> c \<and> indexed (rt_routes r) k c' s)
    \<and> unregister_connection c (unregister_connection c r) = unregister_connection c r"
proof (cases "map_of (rt_connections r) c")
  case None
  then have "\<not> indexed (rt_routes r) k c s"
    using assms by (simp add: router_inv_def index_agrees_def subscribed_def)
  with None show ?thesis by (auto simp: unregister_connection_def)
next
  case (Some cs)
  have "index_agrees r" using assms by (simp add: router_inv_def)
  with Some show ?thesis
    by (simp add: unregister_connection_def unregister_routes alist_simps)
qed

theorem unregister_complete_witness:
  "map_of (rt_connections (unregister_connection 7 sample_router)) 7 = None
    \<and> \<not> indexed (rt_routes (unregister_connection 7 sample_router)) (route_key_of sample_filter) 7 (SubscriptionId ''s1'')"
  using unregister_complete [OF sample_inv] by simp

text \<open>
  Subscribing and then unsubscribing the same id succeeds and restores the connections and what
  the index holds, entry by entry.
\<close>

theorem subscribe_unsubscribe:
  assumes inv: "router_inv r" and sub: "subscribe c s f r = (Inr (), r1)"
  shows "\<exists>r2. unsubscribe c s r1 = (Inr (), r2)
    \<and> map_of (rt_connections r2) = map_of (rt_connections r)
    \<and> (\<forall>k c' s'. indexed (rt_routes r2) k c' s' \<longleftrightarrow> indexed (rt_routes r) k c' s')"
proof -
  obtain cs where cs: "map_of (rt_connections r) c = Some cs" and r1: "r1 = with_subscription c cs s f r"
    and s: "map_of (cs_subscriptions cs) s = None"
    using sub by (auto simp: subscribe_Inr split: option.splits)
  let ?cs = "cs\<lparr>cs_subscriptions := AList.update s f (cs_subscriptions cs)\<rparr>"
  have u: "unsubscribe c s r1 = (Inr (), without_subscription c ?cs s f r1)"
    by (simp add: unsubscribe_Inr r1 with_subscription_def alist_simps)
  have fresh: "\<not> indexed (rt_routes r) (route_key_of f) c s"
    using inv cs s by (simp add: router_inv_def index_agrees_def subscribed_def)
  have "AList.delete s (AList.update s f (cs_subscriptions cs)) = cs_subscriptions cs"
    using s by (simp add: alist_update_fresh alist_delete_snoc)
  then have "map_of (rt_connections (without_subscription c ?cs s f r1)) = map_of (rt_connections r)"
    using cs by (intro ext) (simp add: without_subscription_def r1 with_subscription_def alist_simps)
  moreover have "indexed (rt_routes (without_subscription c ?cs s f r1)) k c' s' \<longleftrightarrow> indexed (rt_routes r) k c' s'" for k c' s'
    using ri.remove_add [OF fresh] by (simp add: without_subscription_def r1 with_subscription_def)
  ultimately show ?thesis using u by blast
qed

theorem subscribe_unsubscribe_witness:
  "\<exists>r2. unsubscribe 7 (SubscriptionId ''s1'') sample_router = (Inr (), r2)
    \<and> map_of (rt_connections r2) 7 = Some (sample_connection\<lparr>cs_subscriptions := []\<rparr>)"
proof -
  let ?r = "registered fifo_ops 7 ''t1'' WebSocket 2 (router_new router_config_default)"
  have "router_step fifo_ops (router_new router_config_default) ?r"
    by (rule step_register [OF _ sample_registered]) (simp add: router_new_def)
  then have "router_inv ?r" using reachable_inv [OF sample_config] by blast
  from subscribe_unsubscribe [OF this sample_subscribed] obtain r2 where
    r2: "unsubscribe 7 (SubscriptionId ''s1'') sample_router = (Inr (), r2)"
      "map_of (rt_connections r2) = map_of (rt_connections ?r)"
    by (auto simp: sample_router_def sample_registered sample_subscribed)
  moreover have "map_of (rt_connections ?r) 7 = Some (sample_connection\<lparr>cs_subscriptions := []\<rparr>)"
    by (simp add: registered_def alist_simps fifo_ops_def)
  ultimately show ?thesis by (intro exI [of _ r2]) simp
qed

subsection \<open>The order of the hash map does not matter\<close>

text \<open>
  The collected matches are iterated in the unspecified order of a hash map. For any two orders
  of the same matches the loop returns, and both leave every connection in the same state, produce
  the same report and disconnect the same connections.
\<close>

lemma fan_out_order_irrelevant:
  assumes perm: "mset ms = mset ms'" and d: "distinct (map fst ms)"
  shows "\<exists>a b. fan_out_loop ops config (length ms) 0 (Some m) ms fo = Some a
    \<and> fan_out_loop ops config (length ms') 0 (Some m) ms' fo = Some b
    \<and> map_of (fo_connections a) = map_of (fo_connections b) \<and> fo_report a = fo_report b
    \<and> set (fo_disconnect a) = set (fo_disconnect b)"
proof -
  have d': "distinct (map fst ms')" using d perm by (metis mset_map mset_eq_imp_distinct_iff)
  have "map_of ms = map_of ms'"
    using d d' mset_eq_setD [OF perm] by (intro map_of_inject_set [THEN iffD2]) auto
  then have "map_of (fo_connections (fold (fan_out_step ops config m) ms fo)) =
      map_of (fo_connections (fold (fan_out_step ops config m) ms' fo))"
    by (intro ext) (simp add: fan_out_connections [OF d] fan_out_connections [OF d'])
  moreover have "fo_report (fold (fan_out_step ops config m) ms fo) = fo_report (fold (fan_out_step ops config m) ms' fo)"
    using perm by (simp add: fan_out_report [OF d] fan_out_report [OF d'] count_outcomes mset_eq_length_filter [of "map _ ms" "map _ ms'"])
  moreover have "set (fo_disconnect (fold (fan_out_step ops config m) ms fo)) =
      set (fo_disconnect (fold (fan_out_step ops config m) ms' fo))"
    using mset_eq_setD [OF perm] by (simp add: fan_out_disconnect [OF d] fan_out_disconnect [OF d'])
  ultimately show ?thesis by (simp add: fan_out_loop_eq)
qed

lemma fan_out_order_irrelevant_witness:
  "\<exists>a b. fan_out_loop fifo_ops router_config_default 2 0 (Some sample_message)
        [(7, [SubscriptionId ''s1'']), (8, [SubscriptionId ''s2''])] (dispatch_start sample_message sample_router) = Some a
    \<and> fan_out_loop fifo_ops router_config_default 2 0 (Some sample_message)
        [(8, [SubscriptionId ''s2'']), (7, [SubscriptionId ''s1''])] (dispatch_start sample_message sample_router) = Some b
    \<and> map_of (fo_connections a) 7 = map_of (fo_connections b) 7 \<and> fo_report a = fo_report b"
proof -
  let ?ms = "[(7, [SubscriptionId ''s1'']), (8, [SubscriptionId ''s2''])] :: Bucket"
  let ?ms' = "[(8, [SubscriptionId ''s2'']), (7, [SubscriptionId ''s1''])] :: Bucket"
  have p: "mset ?ms = mset ?ms'" and d: "distinct (map fst ?ms)" and l: "length ?ms = 2" "length ?ms' = 2"
    by simp_all
  obtain a b where "fan_out_loop fifo_ops router_config_default (length ?ms) 0 (Some sample_message) ?ms
        (dispatch_start sample_message sample_router) = Some a"
    "fan_out_loop fifo_ops router_config_default (length ?ms') 0 (Some sample_message) ?ms'
        (dispatch_start sample_message sample_router) = Some b"
    "map_of (fo_connections a) = map_of (fo_connections b)" "fo_report a = fo_report b"
    using fan_out_order_irrelevant [OF p d] by blast
  then show ?thesis unfolding l by (intro exI [of _ a] exI [of _ b]) (simp del: fan_out_loop.simps)
qed

end
