(* ===== verification/Api_State.thy ===== *)
theory Api_State
  imports Rate_Window Router_Props
begin

text \<open>
  Shared state of the protocol adapters (\<open>router-api/src/state.rs\<close>): limits, health gates, the
  process-wide rate limiter and the guard that unregisters a connection, together with the command
  limiter of one WebSocket connection (\<open>CommandRateLimiter\<close> in \<open>router-api/src/http.rs\<close>).

  Instants are nanoseconds on the monotonic clock. A limiter reads the clock more than once; each
  reading is an argument. \<open>Instant::elapsed\<close> saturates at zero, like subtraction on naturals.
\<close>

subsection \<open>Limits\<close>

record ApiConfig =
  ac_http_body_limit_bytes :: nat
  ac_stream_queue_capacity :: nat
  ac_max_stream_queue_capacity :: nat
  ac_sse_keep_alive_secs :: u64
  ac_ws_max_message_bytes :: nat
  ac_ws_max_frame_bytes :: nat
  ac_ws_max_commands_per_second :: "32 word"
  ac_grpc_max_decoding_message_bytes :: nat
  ac_grpc_max_encoding_message_bytes :: nat
  ac_grpc_concurrency_limit :: nat
  ac_grpc_keep_alive_interval_secs :: u64
  ac_grpc_keep_alive_timeout_secs :: u64
  ac_grpc_health_enabled :: bool
  ac_grpc_reflection_enabled :: bool
  ac_publish_max_payload_bytes :: nat
  ac_max_rate_limit_principals :: nat
  ac_global_commands_per_second :: "32 word"
  ac_principal_commands_per_second :: "32 word"
  ac_global_publishes_per_second :: "32 word"
  ac_principal_publishes_per_second :: "32 word"

definition api_config_default :: ApiConfig where
  "api_config_default =
    \<lparr>ac_http_body_limit_bytes = 1048576, ac_stream_queue_capacity = 256, ac_max_stream_queue_capacity = 4096,
     ac_sse_keep_alive_secs = 15, ac_ws_max_message_bytes = 65536, ac_ws_max_frame_bytes = 65536,
     ac_ws_max_commands_per_second = 32, ac_grpc_max_decoding_message_bytes = 4 * 1024 * 1024,
     ac_grpc_max_encoding_message_bytes = 4 * 1024 * 1024, ac_grpc_concurrency_limit = 256,
     ac_grpc_keep_alive_interval_secs = 30, ac_grpc_keep_alive_timeout_secs = 10, ac_grpc_health_enabled = True,
     ac_grpc_reflection_enabled = False, ac_publish_max_payload_bytes = 1048576, ac_max_rate_limit_principals = 10000,
     ac_global_commands_per_second = 10000, ac_principal_commands_per_second = 64,
     ac_global_publishes_per_second = 1000, ac_principal_publishes_per_second = 32\<rparr>"

definition resolve_stream_queue_capacity :: "ApiConfig \<Rightarrow> nat option \<Rightarrow> nat + nat" where
  "resolve_stream_queue_capacity config requested =
    (let capacity = (case requested of Some n \<Rightarrow> n | None \<Rightarrow> ac_stream_queue_capacity config)
     in if capacity = 0 \<or> capacity > ac_max_stream_queue_capacity config
        then Inl (ac_max_stream_queue_capacity config) else Inr capacity)"

subsection \<open>Health gates\<close>

text \<open>
  \<open>ready_changes\<close> is a \<open>tokio::sync::watch\<close> channel: a value and a version that every \<open>send_replace\<close>
  increases. A subscriber has seen the version at the time it subscribed.
\<close>

record HealthState =
  hs_live :: bool
  hs_ready :: bool
  hs_ready_changes :: bool
  hs_version :: nat

definition health_state_default :: HealthState where
  "health_state_default = \<lparr>hs_live = False, hs_ready = False, hs_ready_changes = False, hs_version = 0\<rparr>"

definition set_live :: "bool \<Rightarrow> HealthState \<Rightarrow> HealthState" where
  "set_live value h = h\<lparr>hs_live := value\<rparr>"

definition set_ready :: "bool \<Rightarrow> HealthState \<Rightarrow> HealthState" where
  "set_ready value h = h\<lparr>hs_ready := value, hs_ready_changes := value, hs_version := Suc (hs_version h)\<rparr>"

definition is_live :: "HealthState \<Rightarrow> bool" where
  "is_live h = hs_live h"

definition is_ready :: "HealthState \<Rightarrow> bool" where
  "is_ready h = hs_ready h"

definition readiness :: "HealthState \<Rightarrow> nat" where
  "readiness h = hs_version h"

subsection \<open>The process-wide rate limiter\<close>

datatype RateKind = Command | Publish

record PrincipalRate =
  pr_window_started :: nat
  pr_commands :: "32 word"
  pr_publishes :: "32 word"

record RateState =
  rs_window_started :: nat
  rs_commands :: "32 word"
  rs_publishes :: "32 word"
  rs_principals :: "(string \<times> PrincipalRate) list"

record AbuseLimiter =
  al_config :: ApiConfig
  al_state :: RateState

definition one_second :: nat where
  "one_second = 1000000000"

definition limiter_new :: "ApiConfig \<Rightarrow> nat \<Rightarrow> AbuseLimiter" where
  "limiter_new config now = \<lparr>al_config = config, al_state =
     \<lparr>rs_window_started = now, rs_commands = 0, rs_publishes = 0, rs_principals = []\<rparr>\<rparr>"

definition global_limit :: "ApiConfig \<Rightarrow> RateKind \<Rightarrow> 32 word" where
  "global_limit config kind =
    (case kind of Command \<Rightarrow> ac_global_commands_per_second config | Publish \<Rightarrow> ac_global_publishes_per_second config)"

definition principal_limit :: "ApiConfig \<Rightarrow> RateKind \<Rightarrow> 32 word" where
  "principal_limit config kind =
    (case kind of Command \<Rightarrow> ac_principal_commands_per_second config | Publish \<Rightarrow> ac_principal_publishes_per_second config)"

definition global_count :: "RateKind \<Rightarrow> RateState \<Rightarrow> 32 word" where
  "global_count kind state = (case kind of Command \<Rightarrow> rs_commands state | Publish \<Rightarrow> rs_publishes state)"

definition principal_count :: "RateKind \<Rightarrow> PrincipalRate \<Rightarrow> 32 word" where
  "principal_count kind p = (case kind of Command \<Rightarrow> pr_commands p | Publish \<Rightarrow> pr_publishes p)"

definition count_global :: "RateKind \<Rightarrow> RateState \<Rightarrow> RateState" where
  "count_global kind state =
    (case kind of Command \<Rightarrow> state\<lparr>rs_commands := rs_commands state + 1\<rparr>
     | Publish \<Rightarrow> state\<lparr>rs_publishes := rs_publishes state + 1\<rparr>)"

definition count_principal :: "RateKind \<Rightarrow> PrincipalRate \<Rightarrow> PrincipalRate" where
  "count_principal kind p =
    (case kind of Command \<Rightarrow> p\<lparr>pr_commands := pr_commands p + 1\<rparr> | Publish \<Rightarrow> p\<lparr>pr_publishes := pr_publishes p + 1\<rparr>)"

text \<open>\<open>now\<close> is read before the lock is taken, \<open>t1\<close> by the test of the window and \<open>t2\<close> by that of the principal.\<close>

definition allow :: "nat \<Rightarrow> nat \<Rightarrow> nat \<Rightarrow> string \<Rightarrow> RateKind \<Rightarrow> AbuseLimiter \<Rightarrow> bool \<times> AbuseLimiter" where
  "allow now t1 t2 tenant_id kind limiter =
    (let config = al_config limiter;
         state = al_state limiter;
         state = (if t1 - rs_window_started state \<ge> one_second
                  then \<lparr>rs_window_started = now, rs_commands = 0, rs_publishes = 0, rs_principals = []\<rparr> else state)
     in if global_count kind state \<ge> global_limit config kind then (False, limiter\<lparr>al_state := state\<rparr>)
        else if map_of (rs_principals state) tenant_id = None
                \<and> length (rs_principals state) \<ge> ac_max_rate_limit_principals config
        then (False, limiter\<lparr>al_state := state\<rparr>)
        else
          let principal = (case map_of (rs_principals state) tenant_id of
                 Some p \<Rightarrow> p | None \<Rightarrow> \<lparr>pr_window_started = now, pr_commands = 0, pr_publishes = 0\<rparr>);
              principal = (if t2 - pr_window_started principal \<ge> one_second
                 then \<lparr>pr_window_started = now, pr_commands = 0, pr_publishes = 0\<rparr> else principal)
          in if principal_count kind principal \<ge> principal_limit config kind
             then (False, limiter\<lparr>al_state :=
                state\<lparr>rs_principals := AList.update tenant_id principal (rs_principals state)\<rparr>\<rparr>)
             else (True, limiter\<lparr>al_state := count_global kind
                (state\<lparr>rs_principals := AList.update tenant_id (count_principal kind principal) (rs_principals state)\<rparr>)\<rparr>))"

subsection \<open>The limiter of one WebSocket connection\<close>

record CommandRateLimiter =
  cl_window_started :: nat
  cl_accepted :: "32 word"
  cl_limit :: "32 word"

definition command_limiter_new :: "32 word \<Rightarrow> nat \<Rightarrow> CommandRateLimiter" where
  "command_limiter_new limit now = \<lparr>cl_window_started = now, cl_accepted = 0, cl_limit = limit\<rparr>"

definition command_allow :: "nat \<Rightarrow> nat \<Rightarrow> CommandRateLimiter \<Rightarrow> bool \<times> CommandRateLimiter" where
  "command_allow t1 t2 limiter =
    (let limiter = (if t1 - cl_window_started limiter \<ge> one_second
                    then limiter\<lparr>cl_window_started := t2, cl_accepted := 0\<rparr> else limiter)
     in if cl_accepted limiter \<ge> cl_limit limiter then (False, limiter)
        else (True, limiter\<lparr>cl_accepted := cl_accepted limiter + 1\<rparr>))"

subsection \<open>Shared state\<close>

record ('c, 'auth, 'publisher) ApiState =
  as_router :: "'c Router"
  as_authenticator :: 'auth
  as_publisher :: "'publisher option"
  as_health :: HealthState
  as_config :: ApiConfig
  as_abuse_limiter :: AbuseLimiter

definition api_state_with_authenticator ::
  "'c Router \<Rightarrow> 'auth \<Rightarrow> 'publisher option \<Rightarrow> HealthState \<Rightarrow> ApiConfig \<Rightarrow> nat \<Rightarrow> ('c, 'auth, 'publisher) ApiState" where
  "api_state_with_authenticator router authenticator publisher health config now =
    \<lparr>as_router = router, as_authenticator = authenticator, as_publisher = publisher, as_health = health,
     as_config = config, as_abuse_limiter = limiter_new config now\<rparr>"

definition allow_rate ::
  "nat \<times> nat \<times> nat \<Rightarrow> string \<Rightarrow> RateKind \<Rightarrow> ('c, 'auth, 'publisher) ApiState \<Rightarrow> bool \<times> ('c, 'auth, 'publisher) ApiState" where
  "allow_rate clock tenant_id kind st =
    (let (now, t1, t2) = clock;
         (allowed, limiter) = allow now t1 t2 tenant_id kind (as_abuse_limiter st);
         st = st\<lparr>as_abuse_limiter := limiter\<rparr>;
         router = as_router st
     in (allowed, if allowed then st else
           st\<lparr>as_router := router\<lparr>rt_metrics := record_security_limit_rejection (rt_metrics router)\<rparr>\<rparr>))"

text \<open>\<open>ConnectionGuard\<close>: dropping it unregisters the connection.\<close>

definition guard_drop :: "connection_id \<Rightarrow> 'c Router \<Rightarrow> 'c Router" where
  "guard_drop connection_id r = unregister_connection connection_id r"

subsection \<open>Both limiters are fixed-window limiters\<close>

lemma counts_simps [simp]:
  "rs_window_started (count_global k s) = rs_window_started s" "rs_principals (count_global k s) = rs_principals s"
  "pr_window_started (count_principal k p) = pr_window_started p"
  "global_count j (count_global k s) = (if j = k then global_count k s + 1 else global_count j s)"
  "principal_count j (count_principal k p) = (if j = k then principal_count k p + 1 else principal_count j p)"
  "global_count j (s\<lparr>rs_principals := ps\<rparr>) = global_count j s"
  "global_count j \<lparr>rs_window_started = t, rs_commands = 0, rs_publishes = 0, rs_principals = ps\<rparr> = 0"
  "principal_count j \<lparr>pr_window_started = t, pr_commands = 0, pr_publishes = 0\<rparr> = 0"
  by (auto simp: global_count_def principal_count_def count_global_def count_principal_def split: RateKind.splits)

text \<open>A counter below its limit does not wrap around when it is increased.\<close>

lemma unat_below_limit: "(a :: 32 word) < b \<Longrightarrow> unat (a + 1) = Suc (unat a) \<and> Suc (unat a) \<le> unat b"
  using unsigned_less [of b, where ?'a = nat] by (simp add: word_less_nat_alt unat_word_ariths)

text \<open>
  The budgets of the process-wide limiter: those of the process and those of each tenant, for each kind.
  An attempt in which all readings of the clock agree.
\<close>

definition rate_attempt :: "nat \<Rightarrow> string \<times> RateKind \<Rightarrow> AbuseLimiter \<Rightarrow> bool \<times> AbuseLimiter" where
  "rate_attempt t r limiter = allow t t t (fst r) (snd r) limiter"

definition rate_window :: "AbuseLimiter \<Rightarrow> nat" where
  "rate_window limiter = rs_window_started (al_state limiter)"

fun rate_used :: "AbuseLimiter \<Rightarrow> RateKind \<times> string option \<Rightarrow> nat" where
  "rate_used limiter (kind, None) = unat (global_count kind (al_state limiter))"
| "rate_used limiter (kind, Some tenant_id) =
    (case map_of (rs_principals (al_state limiter)) tenant_id of None \<Rightarrow> 0 | Some p \<Rightarrow> unat (principal_count kind p))"

fun rate_limit :: "ApiConfig \<Rightarrow> RateKind \<times> string option \<Rightarrow> nat" where
  "rate_limit config (kind, None) = unat (global_limit config kind)"
| "rate_limit config (kind, Some tenant_id) = unat (principal_limit config kind)"

fun rate_charges :: "string \<times> RateKind \<Rightarrow> RateKind \<times> string option \<Rightarrow> bool" where
  "rate_charges (tenant_id, kind) (k, None) \<longleftrightarrow> k = kind"
| "rate_charges (tenant_id, kind) (k, Some t) \<longleftrightarrow> k = kind \<and> t = tenant_id"

definition rate_valid :: "ApiConfig \<Rightarrow> AbuseLimiter \<Rightarrow> bool" where
  "rate_valid config limiter \<longleftrightarrow> al_config limiter = config
    \<and> length (rs_principals (al_state limiter)) \<le> ac_max_rate_limit_principals config
    \<and> (\<forall>t p. map_of (rs_principals (al_state limiter)) t = Some p \<longrightarrow> rate_window limiter \<le> pr_window_started p)"

text \<open>One attempt in a valid limiter: the window's state, then the cases.\<close>

definition rolled :: "nat \<Rightarrow> RateState \<Rightarrow> RateState" where
  "rolled t state = (if rs_window_started state + one_second \<le> t
     then \<lparr>rs_window_started = t, rs_commands = 0, rs_publishes = 0, rs_principals = []\<rparr> else state)"

definition principal_of :: "nat \<Rightarrow> string \<Rightarrow> RateState \<Rightarrow> PrincipalRate" where
  "principal_of t tenant_id state = (case map_of (rs_principals state) tenant_id of
     Some p \<Rightarrow> p | None \<Rightarrow> \<lparr>pr_window_started = t, pr_commands = 0, pr_publishes = 0\<rparr>)"

lemma rolled_facts:
  assumes "rate_valid config limiter" and "rate_window limiter \<le> t"
  shows "rs_window_started (rolled t (al_state limiter)) \<le> t"
    and "t < rs_window_started (rolled t (al_state limiter)) + one_second"
    and "length (rs_principals (rolled t (al_state limiter))) \<le> ac_max_rate_limit_principals config"
    and "map_of (rs_principals (rolled t (al_state limiter))) tenant_id = Some p \<Longrightarrow>
      rs_window_started (rolled t (al_state limiter)) \<le> pr_window_started p"
  using assms by (auto simp: rolled_def rate_valid_def rate_window_def one_second_def)

lemma principal_of_window:
  assumes "rate_valid config limiter" and "rate_window limiter \<le> t"
  shows "rs_window_started (rolled t (al_state limiter)) \<le> pr_window_started (principal_of t tenant_id (rolled t (al_state limiter)))"
  using rolled_facts [OF assms] by (simp add: principal_of_def split: option.split)

lemma rate_attempt_cases:
  assumes "rate_valid config limiter" and "rate_window limiter \<le> t"
  shows "rate_attempt t (tenant_id, kind) limiter =
    (let state = rolled t (al_state limiter); p = principal_of t tenant_id state
     in if global_limit config kind \<le> global_count kind state
           \<or> (map_of (rs_principals state) tenant_id = None \<and> ac_max_rate_limit_principals config \<le> length (rs_principals state))
        then (False, limiter\<lparr>al_state := state\<rparr>)
        else if principal_limit config kind \<le> principal_count kind p
        then (False, limiter\<lparr>al_state := state\<lparr>rs_principals := AList.update tenant_id p (rs_principals state)\<rparr>\<rparr>)
        else (True, limiter\<lparr>al_state := count_global kind
          (state\<lparr>rs_principals := AList.update tenant_id (count_principal kind p) (rs_principals state)\<rparr>)\<rparr>))"
proof -
  have w: "one_second \<le> t - rs_window_started (al_state limiter) \<longleftrightarrow> rs_window_started (al_state limiter) + one_second \<le> t"
    using assms(2) by (auto simp: rate_window_def one_second_def)
  have "\<not> one_second \<le> t - pr_window_started (principal_of t tenant_id (rolled t (al_state limiter)))"
    using principal_of_window [OF assms, of tenant_id] rolled_facts(2) [OF assms]
    by (auto simp: one_second_def)
  moreover have "al_config limiter = config" using assms(1) by (simp add: rate_valid_def)
  ultimately show ?thesis
    unfolding rate_attempt_def allow_def fst_conv snd_conv w rolled_def [symmetric] principal_of_def [symmetric] Let_def
    by simp
qed

lemma rate_used_rolled:
  "rate_used (limiter\<lparr>al_state := rolled t (al_state limiter)\<rparr>) b = (if rate_window limiter + one_second \<le> t then 0 else rate_used limiter b)"
  by (cases "(limiter, b)" rule: rate_used.cases) (simp_all add: rolled_def rate_window_def)

interpretation al: fixed_window rate_attempt "rate_valid config" rate_window one_second rate_used "rate_limit config" rate_charges
  for config
proof
  show "0 < one_second" by (simp add: one_second_def)
next
  fix limiter t and r :: "string \<times> RateKind" and b
  assume v: "rate_valid config limiter" "rate_window limiter \<le> t"
  obtain tenant_id kind where r: "r = (tenant_id, kind)" by fastforce
  let ?s = "rolled t (al_state limiter)"
  note facts = rolled_facts [OF v] principal_of_window [OF v, of tenant_id]
  note cases = rate_attempt_cases [OF v, of tenant_id kind]
  have config: "al_config limiter = config" using v(1) by (simp add: rate_valid_def)
  show "rate_valid config (snd (rate_attempt t r limiter))"
    using facts config unfolding r cases
    by (auto simp: Let_def rate_valid_def rate_window_def alist_length_update alist_simps split: if_splits)
  show "rate_window (snd (rate_attempt t r limiter)) = (if rate_window limiter + one_second \<le> t then t else rate_window limiter)"
    unfolding r cases by (simp add: Let_def rate_window_def rolled_def)
  show "rate_used (snd (rate_attempt t r limiter)) b = (if rate_window limiter + one_second \<le> t then 0 else rate_used limiter b)
      + (if fst (rate_attempt t r limiter) \<and> rate_charges r b then 1 else 0)"
    unfolding r cases rate_used_rolled [symmetric]
    by (cases "(limiter, b)" rule: rate_used.cases)
      (auto simp: Let_def principal_of_def alist_simps unat_below_limit not_le split: option.splits)
  show "rate_used (snd (rate_attempt t r limiter)) b \<le> rate_limit config b"
    if "fst (rate_attempt t r limiter)" "rate_charges r b"
    using that unfolding r cases
    by (cases "(limiter, b)" rule: rate_used.cases)
      (auto simp: Let_def alist_simps unat_below_limit not_le split: if_splits)
qed

text \<open>The limiter of a connection has one budget.\<close>

definition command_attempt :: "nat \<Rightarrow> unit \<Rightarrow> CommandRateLimiter \<Rightarrow> bool \<times> CommandRateLimiter" where
  "command_attempt t r limiter = command_allow t t limiter"

interpretation cl: fixed_window command_attempt "\<lambda>l. cl_limit l = n" cl_window_started one_second
    "\<lambda>l (b :: unit). unat (cl_accepted l)" "\<lambda>b. unat n" "\<lambda>r b. True"
  for n
proof
  show "0 < one_second" by (simp add: one_second_def)
next
  fix l :: CommandRateLimiter and t and r :: unit and b :: unit
  assume v: "cl_limit l = n" "cl_window_started l \<le> t"
  then have w: "one_second \<le> t - cl_window_started l \<longleftrightarrow> cl_window_started l + one_second \<le> t" by (auto simp: one_second_def)
  note simps = command_attempt_def command_allow_def w Let_def
  show "cl_limit (snd (command_attempt t r l)) = n" using v(1) by (simp add: simps)
  show "cl_window_started (snd (command_attempt t r l)) = (if cl_window_started l + one_second \<le> t then t else cl_window_started l)"
    by (simp add: simps)
  show "unat (cl_accepted (snd (command_attempt t r l))) = (if cl_window_started l + one_second \<le> t then 0 else unat (cl_accepted l))
      + (if fst (command_attempt t r l) \<and> True then 1 else 0)"
    by (auto simp: simps unat_below_limit not_le)
  show "unat (cl_accepted (snd (command_attempt t r l))) \<le> unat n" if "fst (command_attempt t r l)"
    using that v(1) unat_below_limit [of 0 n]
    by (auto simp: simps unat_below_limit not_le split: if_splits)
qed

lemma connection_commands_bounded:
  assumes "fold (advance command_attempt cl_window_started) calls (t0, command_limiter_new n t0, []) = (now, l, log)"
  shows "length (filter (\<lambda>e. a \<le> ad_at e \<and> ad_at e < a + one_second) log) \<le> 2 * unat n"
proof -
  have "cl.log_inv n (t0, command_limiter_new n t0, [])"
    by (rule cl.log_inv_start) (simp_all add: command_limiter_new_def)
  from cl.admissions_bounded [OF this assms] show ?thesis by simp
qed

text \<open>Positive limits leave no tenant locked out: a request in a new window is admitted.\<close>

lemma new_window_admits:
  assumes "rate_valid config limiter" and "rate_window limiter + one_second \<le> t"
    and "0 < global_limit config kind" and "0 < principal_limit config kind" and "0 < ac_max_rate_limit_principals config"
  shows "fst (rate_attempt t (tenant_id, kind) limiter)"
proof -
  have r: "rolled t (al_state limiter) = \<lparr>rs_window_started = t, rs_commands = 0, rs_publishes = 0, rs_principals = []\<rparr>"
    using assms(2) by (simp add: rolled_def rate_window_def)
  have "principal_of t tenant_id (rolled t (al_state limiter)) = \<lparr>pr_window_started = t, pr_commands = 0, pr_publishes = 0\<rparr>"
    by (simp add: r principal_of_def)
  with assms r show ?thesis
    by (subst rate_attempt_cases [OF assms(1)]) (auto simp: Let_def not_le)
qed

subsection \<open>Properties\<close>


end
