(* ===== verification/Api_Publish.thy ===== *)
theory Api_Publish
  imports Api_Auth Api_State
begin

text \<open>
  The publish endpoints: \<open>publish\<close>, \<open>publish_http_inner\<close> and \<open>http_publish_payload\<close> of
  \<open>router-api/src/http.rs\<close> and \<open>publish\<close>, \<open>publish_inner\<close> of \<open>router-api/src/grpc.rs\<close>. The publisher is the
  trait object of the source: a function that takes a command and the world it acts on. Everything else
  a handler needs from outside (clock, UUID, JSON, base64, MIME) is in \<open>PublishEnv\<close>.
\<close>

record ('jwk, 'key) PublishEnv =
  pv_auth :: "('jwk, 'key) AuthEnv"
  pv_mime :: "string \<Rightarrow> (string \<times> string) option"
  pv_mime_suffix :: "string \<Rightarrow> string option"
  pv_uuid :: string
  pv_to_vec :: "Json \<Rightarrow> string + string"
  pv_base64_decode :: "string \<Rightarrow> string option"
  pv_clock :: "nat \<times> nat \<times> nat"
  pv_elapsed :: nat

type_synonym 'w publisher = "PublishCommand \<Rightarrow> 'w \<Rightarrow> (PublishError + PublishReceipt) \<times> 'w"

type_synonym ('c, 'key, 'w) api_state = "('c, 'key Authenticator, 'w publisher) ApiState"

subsection \<open>Tenant agreement\<close>

definition authorize_requested_tenant :: "Principal \<Rightarrow> string option \<Rightarrow> ApiError + unit" where
  "authorize_requested_tenant p requested =
    (case requested of
       Some t \<Rightarrow> if t \<noteq> [] \<and> t \<noteq> pl_tenant_id p then Inl Forbidden else Inr ()
     | None \<Rightarrow> Inr ())"

definition authorize_tenant :: "Principal \<Rightarrow> string option \<Rightarrow> ApiError + unit" where
  "authorize_tenant p requested =
    (case requested of
       Some t \<Rightarrow> if t \<noteq> [] \<and> t \<noteq> pl_tenant_id p then Inl Forbidden else Inr ()
     | None \<Rightarrow> Inr ())"

lemma authorize_tenant_eq: "authorize_tenant = authorize_requested_tenant"
  by (intro ext) (simp add: authorize_tenant_def authorize_requested_tenant_def)

subsection \<open>HTTP\<close>

datatype JsonPayload = Missing | Present Json

record HttpPublishRequest =
  hp_message_id :: "string option"
  hp_tenant_id :: "string option"
  hp_kind :: "string option"
  hp_message_type :: "string option"
  hp_channel :: "string option"
  hp_actor_id :: "string option"
  hp_recipient_type :: "string option"
  hp_recipient_identity :: "string option"
  hp_ordering_key :: "string option"
  hp_content_type :: "string option"
  hp_payload :: JsonPayload
  hp_payload_base64 :: "string option"

text \<open>The longest base64 text of a payload within the limit, in saturating arithmetic.\<close>

definition maximum_encoded :: "nat \<Rightarrow> nat" where
  "maximum_encoded maximum_payload_bytes = min (min (maximum_payload_bytes + 2) usize_max div 3 * 4) usize_max"

definition http_publish_payload ::
  "('jwk, 'key) PublishEnv \<Rightarrow> JsonPayload \<Rightarrow> string option \<Rightarrow> string option \<Rightarrow> nat \<Rightarrow> ApiError + string \<times> string" where
  "http_publish_payload env payload payload_base64 content_type maximum_payload_bytes =
    (case (payload, payload_base64) of
       (Present v, None) \<Rightarrow>
         let content_type = (case content_type of Some t \<Rightarrow> t | None \<Rightarrow> ''application/json'')
         in and_then (validate_json_content_type (pv_mime env) (pv_mime_suffix env) content_type) (\<lambda>_.
            and_then (map_err BadRequest (pv_to_vec env v)) (\<lambda>bytes. Inr (bytes, content_type)))
     | (Missing, Some encoded) \<Rightarrow>
         and_then (ok_or (BadRequest ''content_type is required with payload_base64'')
           (case content_type of Some t \<Rightarrow> if trim t = [] then None else Some t | None \<Rightarrow> None)) (\<lambda>content_type.
         if length encoded > maximum_encoded maximum_payload_bytes then
           Inl (BadRequest (''payload exceeds maximum size of '' @ show_nat maximum_payload_bytes @ '' bytes''))
         else
           and_then (ok_or (BadRequest ''payload_base64 is not valid base64'') (pv_base64_decode env encoded)) (\<lambda>decoded.
           Inr (decoded, content_type)))
     | _ \<Rightarrow> Inl (BadRequest ''provide exactly one of payload or payload_base64''))"

definition http_command :: "('jwk, 'key) PublishEnv \<Rightarrow> HttpPublishRequest \<Rightarrow> Principal \<Rightarrow> string \<Rightarrow> string \<Rightarrow> PublishCommand" where
  "http_command env req p payload content_type =
    \<lparr>pc_message_id = effective_message_id (pv_uuid env) (hp_message_id req), pc_tenant_id = pl_tenant_id p,
     pc_kind = hp_kind req, pc_message_type = hp_message_type req, pc_channel = hp_channel req,
     pc_actor_id = hp_actor_id req, pc_recipient_type = hp_recipient_type req,
     pc_recipient_identity = hp_recipient_identity req, pc_ordering_key = hp_ordering_key req,
     pc_content_type = content_type, pc_payload = payload\<rparr>"

text \<open>The call of the publisher, common to both endpoints.\<close>

definition call_publisher ::
  "'w publisher option \<Rightarrow> PublishCommand \<Rightarrow> 'w \<Rightarrow> (ApiError + PublishReceipt) \<times> 'w" where
  "call_publisher publisher command w =
    (case publisher of
       None \<Rightarrow> (Inl PublisherUnavailable, w)
     | Some publish \<Rightarrow> (case publish command w of (result, w) \<Rightarrow> (map_err map_publish_error result, w)))"

definition publish_http_inner ::
  "('jwk, 'key) PublishEnv \<Rightarrow> headers \<Rightarrow> HttpPublishRequest \<Rightarrow> ('c, 'key, 'w) api_state \<times> 'w
   \<Rightarrow> (ApiError + PublishReceipt) \<times> ('c, 'key, 'w) api_state \<times> 'w" where
  "publish_http_inner env headers req sw =
    (case sw of (st, w) \<Rightarrow>
     (case and_then (authenticate_http (pv_auth env) (as_authenticator st) headers (hp_tenant_id req)) (\<lambda>p.
           and_then (authorize_requested_tenant p (hp_tenant_id req)) (\<lambda>_.
           and_then (authorize_publish p) (\<lambda>_. Inr p))) of
        Inl e \<Rightarrow> (Inl e, st, w)
      | Inr p \<Rightarrow>
        (case allow_rate (pv_clock env) (pl_tenant_id p) Publish st of
           (False, st) \<Rightarrow> (Inl RateLimited, st, w)
         | (True, st) \<Rightarrow>
           (case and_then (http_publish_payload env (hp_payload req) (hp_payload_base64 req) (hp_content_type req)
                   (ac_publish_max_payload_bytes (as_config st))) (\<lambda>(payload, content_type).
                 validate_command (pv_mime env) (http_command env req p payload content_type)
                   (ac_publish_max_payload_bytes (as_config st))) of
              Inl e \<Rightarrow> (Inl e, st, w)
            | Inr command \<Rightarrow> (case call_publisher (as_publisher st) command w of (result, w) \<Rightarrow> (result, st, w))))))"

text \<open>An operation on the metrics of the shared router.\<close>

definition with_api_metrics :: "(Metrics \<Rightarrow> Metrics) \<Rightarrow> ('c, 'key, 'w) api_state \<Rightarrow> ('c, 'key, 'w) api_state" where
  "with_api_metrics f st = st\<lparr>as_router := (as_router st)\<lparr>rt_metrics := f (rt_metrics (as_router st))\<rparr>\<rparr>"

text \<open>\<open>publish\<close> over HTTP; the request is an error when the body was rejected.\<close>

definition publish_http ::
  "('jwk, 'key) PublishEnv \<Rightarrow> headers \<Rightarrow> unit + HttpPublishRequest \<Rightarrow> ('c, 'key, 'w) api_state \<times> 'w
   \<Rightarrow> (ApiError + PublishReceipt) \<times> ('c, 'key, 'w) api_state \<times> 'w" where
  "publish_http env headers request sw =
    (case sw of (st, w) \<Rightarrow>
     let st = with_api_metrics (record_publish_attempt PublishHttp) st;
         (result, st, w) =
           (case request of
              Inr req \<Rightarrow> publish_http_inner env headers req (st, w)
            | Inl _ \<Rightarrow> (Inl (BadRequest ''request body is not valid for the publish contract''), st, w));
         st = with_api_metrics (record_latency LatencyStage.Publish (pv_elapsed env)) st;
         st = with_api_metrics (if is_ok result then record_publish_acknowledged PublishHttp else record_publish_failure PublishHttp) st
     in (result, st, w))"

subsection \<open>gRPC\<close>

record PublishRequest =
  gp_message_id :: "string option"
  gp_tenant_id :: string
  gp_kind :: "string option"
  gp_message_type :: "string option"
  gp_channel :: "string option"
  gp_actor_id :: "string option"
  gp_recipient_type :: "string option"
  gp_recipient_identity :: "string option"
  gp_content_type :: string
  gp_payload :: string
  gp_ordering_key :: "string option"

definition grpc_command :: "('jwk, 'key) PublishEnv \<Rightarrow> PublishRequest \<Rightarrow> Principal \<Rightarrow> PublishCommand" where
  "grpc_command env req p =
    \<lparr>pc_message_id = effective_message_id (pv_uuid env) (gp_message_id req), pc_tenant_id = pl_tenant_id p,
     pc_kind = gp_kind req, pc_message_type = gp_message_type req, pc_channel = gp_channel req,
     pc_actor_id = gp_actor_id req, pc_recipient_type = gp_recipient_type req,
     pc_recipient_identity = gp_recipient_identity req, pc_ordering_key = gp_ordering_key req,
     pc_content_type = (if gp_content_type req = [] then ''application/octet-stream'' else gp_content_type req),
     pc_payload = gp_payload req\<rparr>"

definition publish_grpc_inner ::
  "('jwk, 'key) PublishEnv \<Rightarrow> headers \<Rightarrow> PublishRequest \<Rightarrow> ('c, 'key, 'w) api_state \<times> 'w
   \<Rightarrow> (GrpcStatus + PublishReceipt) \<times> ('c, 'key, 'w) api_state \<times> 'w" where
  "publish_grpc_inner env metadata req sw =
    (case sw of (st, w) \<Rightarrow>
     let requested_tenant = (if gp_tenant_id req \<noteq> [] then Some (gp_tenant_id req) else None) in
     (case and_then (map_err into_status (authenticate_grpc (pv_auth env) (as_authenticator st) metadata requested_tenant)) (\<lambda>p.
           and_then (map_err into_status (authorize_tenant p (Some (gp_tenant_id req)))) (\<lambda>_.
           and_then (map_err into_status (authorize_publish p)) (\<lambda>_. Inr p))) of
        Inl e \<Rightarrow> (Inl e, st, w)
      | Inr p \<Rightarrow>
        (case allow_rate (pv_clock env) (pl_tenant_id p) Publish st of
           (False, st) \<Rightarrow> (Inl (into_status RateLimited), st, w)
         | (True, st) \<Rightarrow>
           (case map_err into_status (validate_command (pv_mime env) (grpc_command env req p)
                   (ac_publish_max_payload_bytes (as_config st))) of
              Inl e \<Rightarrow> (Inl e, st, w)
            | Inr command \<Rightarrow>
                (case call_publisher (as_publisher st) command w of (result, w) \<Rightarrow> (map_err into_status result, st, w))))))"

definition publish_grpc ::
  "('jwk, 'key) PublishEnv \<Rightarrow> headers \<Rightarrow> PublishRequest \<Rightarrow> ('c, 'key, 'w) api_state \<times> 'w
   \<Rightarrow> (GrpcStatus + PublishReceipt) \<times> ('c, 'key, 'w) api_state \<times> 'w" where
  "publish_grpc env metadata req sw =
    (case sw of (st, w) \<Rightarrow>
     let st = with_api_metrics (record_publish_attempt PublishGrpc) st;
         (result, st, w) = publish_grpc_inner env metadata req (st, w);
         st = with_api_metrics (record_latency LatencyStage.Publish (pv_elapsed env)) st;
         st = with_api_metrics (if is_ok result then record_publish_acknowledged PublishGrpc else record_publish_failure PublishGrpc) st
     in (result, st, w))"

subsection \<open>What a publish request can do\<close>

text \<open>The encoded length is only tested to refuse what cannot fit: a payload within the limit passes.\<close>

lemma maximum_encoded_admits:
  assumes "n \<le> maximum_payload_bytes" and "maximum_payload_bytes + 2 \<le> usize_max" and "4 * ((n + 2) div 3) \<le> usize_max"
  shows "4 * ((n + 2) div 3) \<le> maximum_encoded maximum_payload_bytes"
proof -
  have "(n + 2) div 3 \<le> (maximum_payload_bytes + 2) div 3" using assms(1) by (simp add: div_le_mono)
  with assms(2,3) show ?thesis by (simp add: maximum_encoded_def)
qed

lemma with_api_metrics_simps [simp]:
  "as_authenticator (with_api_metrics f st) = as_authenticator st" "as_publisher (with_api_metrics f st) = as_publisher st"
  "as_config (with_api_metrics f st) = as_config st" "as_abuse_limiter (with_api_metrics f st) = as_abuse_limiter st"
  "rt_metrics (as_router (with_api_metrics f st)) = f (rt_metrics (as_router st))"
  "rt_connections (as_router (with_api_metrics f st)) = rt_connections (as_router st)"
  "rt_routes (as_router (with_api_metrics f st)) = rt_routes (as_router st)"
  by (simp_all add: with_api_metrics_def)

lemma allow_rate_frame:
  assumes "allow_rate clock t k st = (ok, st')"
  shows "as_authenticator st' = as_authenticator st \<and> as_publisher st' = as_publisher st \<and> as_config st' = as_config st
    \<and> rt_connections (as_router st') = rt_connections (as_router st) \<and> rt_routes (as_router st') = rt_routes (as_router st)
    \<and> rt_config (as_router st') = rt_config (as_router st)"
  using assms by (auto simp: allow_rate_def Let_def split: prod.splits if_splits)

lemma allow_rate_metrics [simp]: "fst (allow_rate clock t k (with_api_metrics f st)) = fst (allow_rate clock t k st)"
  by (simp add: allow_rate_def Let_def with_api_metrics_def split: prod.splits)

text \<open>
  The publisher was called once, for an authenticated principal that may publish, within the rate limits,
  with a valid command of the principal's tenant, and the response is what it answered.
\<close>

definition published ::
  "('jwk, 'key) PublishEnv \<Rightarrow> ApiError + Principal \<Rightarrow> string option \<Rightarrow> ('c, 'key, 'w) api_state \<Rightarrow> 'w
   \<Rightarrow> ApiError + PublishReceipt \<Rightarrow> 'w \<Rightarrow> bool" where
  "published env auth requested st w res w' \<longleftrightarrow>
    (\<exists>p command publish out. auth = Inr p \<and> pl_can_publish p \<and> authorize_requested_tenant p requested = Inr ()
      \<and> fst (allow_rate (pv_clock env) (pl_tenant_id p) Publish st)
      \<and> pc_tenant_id command = pl_tenant_id p \<and> length (pc_payload command) \<le> ac_publish_max_payload_bytes (as_config st)
      \<and> command_validate (pv_mime env) command = Inr () \<and> as_publisher st = Some publish
      \<and> publish command w = (out, w') \<and> res = map_err map_publish_error out)"

lemma call_publisher_cases:
  assumes "call_publisher publisher command w = (res, w')"
  obtains (none) "publisher = None" "res = Inl PublisherUnavailable" "w' = w"
  | (called) publish out where "publisher = Some publish" "publish command w = (out, w')" "res = map_err map_publish_error out"
  using assms by (auto simp: call_publisher_def split: option.splits prod.splits)

lemma publish_http_inner_gated:
  assumes "publish_http_inner env headers req (st, w) = (res, st', w')"
  shows "published env (authenticate_http (pv_auth env) (as_authenticator st) headers (hp_tenant_id req)) (hp_tenant_id req)
      st w res w' \<or> (w' = w \<and> \<not> is_ok res)"
proof -
  let ?auth = "authenticate_http (pv_auth env) (as_authenticator st) headers (hp_tenant_id req)"
  consider e where "res = Inl e" "w' = w"
    | p st1 payload content_type where "?auth = Inr p" "authorize_requested_tenant p (hp_tenant_id req) = Inr ()" "pl_can_publish p"
      "allow_rate (pv_clock env) (pl_tenant_id p) Publish st = (True, st1)"
      "validate_command (pv_mime env) (http_command env req p payload content_type)
         (ac_publish_max_payload_bytes (as_config st1)) = Inr (http_command env req p payload content_type)"
      "call_publisher (as_publisher st1) (http_command env req p payload content_type) w = (res, w')"
    using assms
    by (auto simp: publish_http_inner_def result_simps validate_command_Inr authorize_publish_def
      split: sum.splits prod.splits bool.splits if_splits)
  then show ?thesis
  proof cases
    case 2
    from 2(6) show ?thesis
    proof (cases rule: call_publisher_cases)
      case (called publish out)
      moreover have "pc_tenant_id (http_command env req p payload content_type) = pl_tenant_id p" by (simp add: http_command_def)
      ultimately have "published env ?auth (hp_tenant_id req) st w res w'"
        unfolding published_def using 2(1-5) allow_rate_frame [OF 2(4)]
        by (intro exI [of _ p] exI [of _ "http_command env req p payload content_type"] exI [of _ publish] exI [of _ out])
          (simp add: validate_command_Inr)
      then show ?thesis ..
    qed simp
  qed simp
qed

lemma publish_grpc_inner_gated:
  assumes "publish_grpc_inner env metadata req (st, w) = (res, st', w')"
  shows "(\<exists>out. published env (authenticate_grpc (pv_auth env) (as_authenticator st) metadata
        (if gp_tenant_id req \<noteq> [] then Some (gp_tenant_id req) else None)) (Some (gp_tenant_id req)) st w out w'
        \<and> res = map_err into_status out) \<or> (w' = w \<and> \<not> is_ok res)"
proof -
  let ?auth = "authenticate_grpc (pv_auth env) (as_authenticator st) metadata
        (if gp_tenant_id req \<noteq> [] then Some (gp_tenant_id req) else None)"
  consider e where "res = Inl e" "w' = w"
    | p st1 out where "?auth = Inr p" "authorize_requested_tenant p (Some (gp_tenant_id req)) = Inr ()" "pl_can_publish p"
      "allow_rate (pv_clock env) (pl_tenant_id p) Publish st = (True, st1)"
      "validate_command (pv_mime env) (grpc_command env req p)
         (ac_publish_max_payload_bytes (as_config st1)) = Inr (grpc_command env req p)"
      "call_publisher (as_publisher st1) (grpc_command env req p) w = (out, w')" "res = map_err into_status out"
    using assms
    by (auto simp: publish_grpc_inner_def Let_def result_simps validate_command_Inr authorize_publish_def authorize_tenant_eq
      split: sum.splits prod.splits bool.splits if_splits)
  then show ?thesis
  proof cases
    case 2
    from 2(6) show ?thesis
    proof (cases rule: call_publisher_cases)
      case none
      with 2(7) show ?thesis by simp
    next
      case (called publish out')
      moreover have "pc_tenant_id (grpc_command env req p) = pl_tenant_id p" by (simp add: grpc_command_def)
      ultimately have "published env ?auth (Some (gp_tenant_id req)) st w out w'"
        unfolding published_def using 2(1-5) allow_rate_frame [OF 2(4)]
        by (intro exI [of _ p] exI [of _ "grpc_command env req p"] exI [of _ publish] exI [of _ out'])
          (simp add: validate_command_Inr)
      with 2(7) show ?thesis by blast
    qed
  qed simp
qed

text \<open>The publish counters of a protocol: attempts, acknowledgements and failures.\<close>

fun publish_counts :: "PublishProtocol \<Rightarrow> ('c, 'key, 'w) api_state \<Rightarrow> u64 \<times> u64 \<times> u64" where
  "publish_counts PublishHttp st = (let m = rt_metrics (as_router st) in
     (mt_http_publish_attempts m, mt_http_publish_acknowledged m, mt_http_publish_failures m))"
| "publish_counts PublishGrpc st = (let m = rt_metrics (as_router st) in
     (mt_grpc_publish_attempts m, mt_grpc_publish_acknowledged m, mt_grpc_publish_failures m))"

definition count_publish :: "bool \<Rightarrow> u64 \<times> u64 \<times> u64 \<Rightarrow> u64 \<times> u64 \<times> u64" where
  "count_publish ok c = (case c of (attempts, acknowledged, failures) \<Rightarrow>
     if ok then (attempts + 1, acknowledged + 1, failures) else (attempts + 1, acknowledged, failures + 1))"

lemma allow_rate_counts: "allow_rate clock t k st = (ok, st') \<Longrightarrow> publish_counts p st' = publish_counts p st"
  by (cases p) (auto simp: allow_rate_def Let_def record_security_limit_rejection_def split: prod.splits if_splits)

lemma publish_counts_outer:
  "publish_counts p (with_api_metrics (if ok then record_publish_acknowledged q else record_publish_failure q)
     (with_api_metrics (record_latency stage n) st)) =
    (if p = q then case publish_counts p st of (a, k, f) \<Rightarrow> if ok then (a, k + 1, f) else (a, k, f + 1) else publish_counts p st)"
  "publish_counts p (with_api_metrics (record_publish_attempt q) st) =
    (if p = q then case publish_counts p st of (a, k, f) \<Rightarrow> (a + 1, k, f) else publish_counts p st)"
  by (cases p; cases q; simp add: record_latency_def record_publish_acknowledged_def record_publish_failure_def
    record_publish_attempt_def Let_def)+

declare publish_counts.simps [simp del]

lemma publish_http_inner_counts:
  "publish_http_inner env headers req (st, w) = (res, st', w') \<Longrightarrow> publish_counts p st' = publish_counts p st"
  by (auto simp: publish_http_inner_def split: sum.splits prod.splits bool.splits dest: allow_rate_counts)

lemma publish_grpc_inner_counts:
  "publish_grpc_inner env metadata req (st, w) = (res, st', w') \<Longrightarrow> publish_counts p st' = publish_counts p st"
  by (auto simp: publish_grpc_inner_def Let_def split: sum.splits prod.splits bool.splits dest: allow_rate_counts)

lemma map_publish_error_neq [simp]: "map_publish_error d \<noteq> Unauthorized" "map_publish_error d \<noteq> Forbidden"
  "Unauthorized \<noteq> map_publish_error d" "Forbidden \<noteq> map_publish_error d"
  by (cases "pe_kind d"; simp add: map_publish_error_def)+

lemma publish_errors_after_limiter:
  "http_publish_payload env payload b64 ct n = Inl e \<Longrightarrow> \<exists>t. e = BadRequest t"
  "validate_command mime c n = Inl e \<Longrightarrow> \<exists>t. e = BadRequest t"
  "call_publisher publisher c w = (Inl e, w') \<Longrightarrow> e \<noteq> Unauthorized \<and> e \<noteq> Forbidden"
  by (auto simp: http_publish_payload_def validate_json_content_type_def validate_command_def result_simps Let_def
    call_publisher_def split: JsonPayload.splits option.splits if_splits prod.splits)

lemma publish_http_inner_uncharged:
  assumes "publish_http_inner env headers req (st, w) = (Inl e, st', w')" and "e = Unauthorized \<or> e = Forbidden"
  shows "as_abuse_limiter st' = as_abuse_limiter st"
  using assms
  by (auto simp: publish_http_inner_def result_simps split: sum.splits prod.splits bool.splits
    dest!: publish_errors_after_limiter)

subsection \<open>Properties\<close>

text \<open>
  C29. Publishing is gated, over HTTP and over gRPC: either the publisher is called exactly once, for an
  authenticated principal that may publish, within the rate limits, with a valid command of that
  principal's tenant and of bounded size, and its answer is the response; or nothing is published and
  the response is an error.
\<close>

theorem publish_gated:
  "(case publish_http env headers request (st, w) of (res, st', w') \<Rightarrow>
      (w' = w \<and> \<not> is_ok res) \<or>
      (\<exists>req. request = Inr req \<and> published env
         (authenticate_http (pv_auth env) (as_authenticator st) headers (hp_tenant_id req)) (hp_tenant_id req) st w res w'))
  \<and> (case publish_grpc env metadata greq (st, w) of (res, st', w') \<Rightarrow>
      (w' = w \<and> \<not> is_ok res) \<or>
      (\<exists>out. res = map_err into_status out \<and> published env
         (authenticate_grpc (pv_auth env) (as_authenticator st) metadata
           (if gp_tenant_id greq \<noteq> [] then Some (gp_tenant_id greq) else None)) (Some (gp_tenant_id greq)) st w out w'))"
proof -
  have frame: "published env auth requested (with_api_metrics f st) w res w' = published env auth requested st w res w'"
    for auth requested f res w'
    by (simp add: published_def)
  note http = publish_http_inner_gated [of env headers _ "with_api_metrics (record_publish_attempt PublishHttp) st" w, unfolded frame]
  note grpc = publish_grpc_inner_gated [of env metadata greq "with_api_metrics (record_publish_attempt PublishGrpc) st" w, unfolded frame]
  show ?thesis
    using http grpc
    by (auto simp: publish_http_def publish_grpc_def Let_def split: prod.splits sum.splits)
qed

text \<open>
  Every publish request is accounted for: it is counted as one attempt and as exactly one
  acknowledgement or failure of its protocol, according to the response, and a request that is refused
  as unauthenticated or unauthorized leaves the budgets of the rate limiter untouched.
\<close>

lemma publish_accounted:
  "(case publish_http env headers request (st, w) of (res, st', w') \<Rightarrow>
      publish_counts PublishHttp st' = count_publish (is_ok res) (publish_counts PublishHttp st)
      \<and> publish_counts PublishGrpc st' = publish_counts PublishGrpc st
      \<and> (case res of Inl Unauthorized \<Rightarrow> as_abuse_limiter st' = as_abuse_limiter st
         | Inl Forbidden \<Rightarrow> as_abuse_limiter st' = as_abuse_limiter st | _ \<Rightarrow> True))
  \<and> (case publish_grpc env metadata greq (st, w) of (res, st', w') \<Rightarrow>
      publish_counts PublishGrpc st' = count_publish (is_ok res) (publish_counts PublishGrpc st)
      \<and> publish_counts PublishHttp st' = publish_counts PublishHttp st)"
proof -
  let ?h = "with_api_metrics (record_publish_attempt PublishHttp) st" and ?g = "with_api_metrics (record_publish_attempt PublishGrpc) st"
  obtain res1 st1 w1 where h: "(case request of Inr req \<Rightarrow> publish_http_inner env headers req (?h, w)
      | Inl _ \<Rightarrow> (Inl (BadRequest ''request body is not valid for the publish contract''), ?h, w)) = (res1, st1, w1)"
    by (metis prod_cases3)
  obtain res2 st2 w2 where g: "publish_grpc_inner env metadata greq (?g, w) = (res2, st2, w2)" by (metis prod_cases3)
  have c1: "publish_counts p st1 = publish_counts p ?h" for p
    using h by (auto split: sum.splits dest: publish_http_inner_counts)
  have c2: "publish_counts p st2 = publish_counts p ?g" for p
    using g by (rule publish_grpc_inner_counts)
  have "as_abuse_limiter st1 = as_abuse_limiter st" if "res1 = Inl Unauthorized \<or> res1 = Inl Forbidden"
    using h that by (auto split: sum.splits dest!: publish_http_inner_uncharged)
  then show ?thesis
    unfolding publish_http_def publish_grpc_def Let_def prod.case h g
    by (auto simp: publish_counts_outer c1 c2 count_publish_def split: prod.split sum.split ApiError.split)
qed

end
