(* ===== verification/Api_Stream.thy ===== *)
theory Api_Stream
  imports Api_Publish
begin

text \<open>
  What the live streams share (\<open>router-api/src/http.rs\<close>, \<open>router-api/src/grpc.rs\<close>): the filter of a client,
  the queue capacity, opening a connection with its first subscription, and the session of a client,
  whose guard unregisters the connection when the stream ends for whatever reason.

  A session is a step function: an iteration of its loop consumes one input (a delivery taken off the
  queue, or something from the client) and gives the messages it sends. The locale \<open>client_session\<close> is
  the contract of such a function towards the rest of the router.
\<close>

subsection \<open>Filters and capacities\<close>

record FilterInput =
  fi_tenant_id :: "string option"
  fi_kind :: "string option"
  fi_message_type :: "string option"
  fi_channel :: "string option"
  fi_actor_id :: "string option"
  fi_recipient_type :: "string option"
  fi_recipient_identity :: "string option"

definition into_filter :: "FilterInput \<Rightarrow> Principal \<Rightarrow> ApiError + RouteFilter" where
  "into_filter fi p =
    and_then (authorize_requested_tenant p (fi_tenant_id fi)) (\<lambda>_.
    Inr \<lparr>rf_tenant_id = pl_tenant_id p, rf_kind = fi_kind fi, rf_message_type = fi_message_type fi,
         rf_channel = fi_channel fi, rf_actor_id = fi_actor_id fi, rf_recipient_type = fi_recipient_type fi,
         rf_recipient_identity = fi_recipient_identity fi\<rparr>)"

definition stream_queue_capacity :: "ApiConfig \<Rightarrow> nat option \<Rightarrow> ApiError + nat" where
  "stream_queue_capacity config requested =
    map_err (\<lambda>maximum. BadRequest (''queue_capacity must be between 1 and '' @ show_nat maximum))
      (resolve_stream_queue_capacity config requested)"

text \<open>A connection with its first subscription; when the subscription fails the connection is taken back.\<close>

definition register_and_subscribe ::
  "'c mpsc_ops \<Rightarrow> connection_id \<Rightarrow> string \<Rightarrow> DeliveryProtocol \<Rightarrow> nat \<Rightarrow> SubscriptionId \<Rightarrow> RouteFilter \<Rightarrow> 'c Router
   \<Rightarrow> (CoreError + connection_id) \<times> 'c Router" where
  "register_and_subscribe ops fresh tenant protocol capacity sid flt r =
    (case register_connection ops fresh tenant protocol (Some capacity) r of
       (Inl e, r) \<Rightarrow> (Inl e, r)
     | (Inr connection_id, r) \<Rightarrow>
         (case subscribe connection_id sid flt r of
            (Inl e, r) \<Rightarrow> (Inl e, unregister_connection connection_id r)
          | (Inr _, r) \<Rightarrow> (Inr connection_id, r)))"

subsection \<open>Sessions\<close>

record StreamSession =
  ss_connection :: connection_id
  ss_principal :: Principal
  ss_open :: bool

text \<open>The stream ends: its guard is dropped.\<close>

definition end_session ::
  "('c, 'key, 'w) api_state \<Rightarrow> 'x StreamSession_scheme \<Rightarrow> ('c, 'key, 'w) api_state \<times> 'x StreamSession_scheme" where
  "end_session st s = (st\<lparr>as_router := guard_drop (ss_connection s) (as_router st)\<rparr>, s\<lparr>ss_open := False\<rparr>)"

definition end_unless ::
  "bool \<Rightarrow> ('c, 'key, 'w) api_state \<Rightarrow> 'x StreamSession_scheme \<Rightarrow> ('c, 'key, 'w) api_state \<times> 'x StreamSession_scheme" where
  "end_unless sent st s = (if sent then (st, s) else end_session st s)"

text \<open>
  A stream that only delivers (server-sent events, gRPC \<open>Subscribe\<close>): the next delivery, the end of the
  queue, or the client dropping the response.
\<close>

datatype StreamInput = Next "Delivery option" | Dropped

definition pump_step ::
  "(Delivery \<Rightarrow> 'o) \<Rightarrow> nat \<Rightarrow> StreamInput \<Rightarrow> ('c, 'key, 'w) api_state \<Rightarrow> 'x StreamSession_scheme
   \<Rightarrow> 'o list \<times> ('c, 'key, 'w) api_state \<times> 'x StreamSession_scheme" where
  "pump_step event elapsed input st s =
    (if \<not> ss_open s then ([], st, s)
     else case input of
       Next (Some delivery) \<Rightarrow> ([event delivery], with_api_metrics (record_latency ProtocolWrite elapsed) st, s)
     | Next None \<Rightarrow> ([], end_session st s)
     | Dropped \<Rightarrow> ([], end_session st s))"

subsection \<open>Text of a delivery\<close>

text \<open>
  \<open>String::from_utf8_lossy\<close>: an ill-formed prefix, as long as it could begin a character, becomes one
  replacement character. \<open>broken_prefix\<close> counts the bytes after the first that belong to it.
\<close>

definition broken_prefix :: "char \<Rightarrow> string \<Rightarrow> nat" where
  "broken_prefix b s =
    (let n = of_char b :: nat in
     if 0xE0 \<le> n \<and> n \<le> 0xEF then
       (case s of
          c1 # _ \<Rightarrow> if in_range (if n = 0xE0 then 0xA0 else 0x80) (if n = 0xED then 0x9F else 0xBF) c1 then 1 else 0
        | [] \<Rightarrow> 0)
     else if 0xF0 \<le> n \<and> n \<le> 0xF4 then
       (case s of
          c1 # r \<Rightarrow>
            if in_range (if n = 0xF0 then 0x90 else 0x80) (if n = 0xF4 then 0x8F else 0xBF) c1
            then (case r of c2 # _ \<Rightarrow> if in_range 0x80 0xBF c2 then 2 else 1 | [] \<Rightarrow> 1) else 0
        | [] \<Rightarrow> 0)
     else 0)"

function from_utf8_lossy :: "string \<Rightarrow> string" where
  "from_utf8_lossy [] = []"
| "from_utf8_lossy (b # s) =
    (case utf8_next b s of
       Some (n, bs, r) \<Rightarrow> bs @ from_utf8_lossy r
     | None \<Rightarrow> map char_of [0xEF, 0xBF, 0xBD :: nat] @ from_utf8_lossy (drop (broken_prefix b s) s))"
  by pat_completeness auto
termination
  by (relation "measure length") (auto simp: utf8_next_shorter)

lemma from_utf8_lossy_valid: "utf8_valid s \<Longrightarrow> from_utf8_lossy s = s"
  by (induction s rule: from_utf8_lossy.induct) (auto split: option.splits dest: utf8_next_split)

record JsonEnv =
  jv_from_slice :: "string \<Rightarrow> Json option"
  jv_base64 :: "string \<Rightarrow> string"
  jv_to_vec :: "Json \<Rightarrow> string"

definition delivery_text :: "JsonEnv \<Rightarrow> Delivery \<Rightarrow> string" where
  "delivery_text env delivery =
    from_utf8_lossy (encode_delivery_json (jv_from_slice env) (jv_base64 env) (jv_to_vec env) delivery)"

subsection \<open>What a client can do to the router\<close>

text \<open>
  Only connection \<open>c\<close> may change, and only by its subscriptions or by being removed; the router stays
  well-formed.
\<close>

definition same_owner :: "'c ConnectionState \<Rightarrow> 'c ConnectionState \<Rightarrow> bool" where
  "same_owner cs cs' \<longleftrightarrow> (\<exists>subs. cs' = cs\<lparr>cs_subscriptions := subs\<rparr>)"

definition touches_only :: "connection_id \<Rightarrow> 'c Router \<Rightarrow> 'c Router \<Rightarrow> bool" where
  "touches_only c r r' \<longleftrightarrow> (router_inv r \<longrightarrow> router_inv r') \<and> rt_config r' = rt_config r
    \<and> (\<forall>d. d \<noteq> c \<longrightarrow> map_of (rt_connections r') d = map_of (rt_connections r) d)
    \<and> (\<forall>cs'. map_of (rt_connections r') c = Some cs' \<longrightarrow>
         (\<exists>cs. map_of (rt_connections r) c = Some cs \<and> same_owner cs cs'))"

lemma same_owner_facts [simp]: "same_owner cs cs"
  "same_owner cs (cs\<lparr>cs_subscriptions := subs\<rparr>)"
  unfolding same_owner_def by (rule exI [of _ "cs_subscriptions cs"], simp) blast

lemma same_owner_trans: "same_owner a b \<Longrightarrow> same_owner b c \<Longrightarrow> same_owner a c"
  by (auto simp: same_owner_def)

lemma touches_only_refl [simp]: "touches_only c r r"
  by (simp add: touches_only_def)

lemma touches_only_trans: "touches_only c r r' \<Longrightarrow> touches_only c r' r'' \<Longrightarrow> touches_only c r r''"
  unfolding touches_only_def by (elim conjE, intro conjI) (blast | (simp; fail) | blast intro: same_owner_trans)+

lemma touches_only_metrics:
  assumes "\<And>m p. conn_gauge p (f m) = conn_gauge p m" "\<And>m p. sub_gauge p (f m) = sub_gauge p m"
    and "\<And>m. metrics_shape m \<Longrightarrow> metrics_shape (f m)"
  shows "touches_only c r (r\<lparr>rt_metrics := f (rt_metrics r)\<rparr>)"
proof -
  have "router_inv r \<Longrightarrow> router_inv (r\<lparr>rt_metrics := f (rt_metrics r)\<rparr>)"
    using assms by (intro router_inv_metrics) (auto simp: router_inv_def gauges_ok_def)
  then show ?thesis by (simp add: touches_only_def)
qed

lemma touches_only_rejection [simp]:
  "touches_only c r (r\<lparr>rt_metrics := record_security_limit_rejection (rt_metrics r)\<rparr>)"
  by (rule touches_only_metrics) (simp_all add: gauge_simps)

lemma touches_only_latency [simp]:
  "touches_only c r (r\<lparr>rt_metrics := record_latency stage n (rt_metrics r)\<rparr>)"
  by (rule touches_only_metrics) (simp_all add: gauge_simps)

lemma subscribe_touches:
  assumes "subscribe c sid flt r = (res, r')"
  shows "touches_only c r r'"
proof (cases res)
  case (Inl e)
  with assms show ?thesis by (auto dest!: subscribe_Inl)
next
  case (Inr u)
  with assms subscribe_inv [OF _ assms] show ?thesis
    by (auto simp: touches_only_def subscribe_Inr with_subscription_def alist_simps split: option.splits)
qed

lemma unsubscribe_touches:
  assumes "unsubscribe c sid r = (res, r')"
  shows "touches_only c r r'"
proof (cases res)
  case (Inl e)
  with assms show ?thesis by (auto dest!: unsubscribe_Inl)
next
  case (Inr u)
  with assms unsubscribe_inv [OF _ assms] show ?thesis
    by (auto simp: touches_only_def unsubscribe_Inr without_subscription_def alist_simps split: option.splits)
qed

lemma unregister_touches [simp]: "touches_only c r (unregister_connection c r)"
  and unregister_gone [simp]: "map_of (rt_connections (unregister_connection c r)) c = None"
  using unregister_connection_inv [of r c]
  by (auto simp: touches_only_def unregister_connection_def alist_simps split: option.splits)

lemma allow_rate_touches: "allow_rate clock t k st = (ok, st') \<Longrightarrow> touches_only c (as_router st) (as_router st')"
  by (auto simp: allow_rate_def Let_def split: prod.splits if_splits)

subsection \<open>The contract of a session\<close>

definition session_step_ok ::
  "('c, 'key, 'w) api_state \<Rightarrow> 'x StreamSession_scheme \<Rightarrow> ('c, 'key, 'w) api_state \<Rightarrow> 'x StreamSession_scheme \<Rightarrow> bool" where
  "session_step_ok st s st' s' \<longleftrightarrow>
    ss_connection s' = ss_connection s \<and> ss_principal s' = ss_principal s \<and> (ss_open s' \<longrightarrow> ss_open s)
    \<and> touches_only (ss_connection s) (as_router st) (as_router st')
    \<and> (ss_open s \<and> \<not> ss_open s' \<longrightarrow> map_of (rt_connections (as_router st')) (ss_connection s) = None)
    \<and> (\<not> ss_open s \<longrightarrow> st' = st)"

lemma session_step_okI:
  assumes "ss_connection s' = ss_connection s" "ss_principal s' = ss_principal s" "ss_open s"
    and "touches_only (ss_connection s) (as_router st) (as_router st')"
    and "\<not> ss_open s' \<Longrightarrow> map_of (rt_connections (as_router st')) (ss_connection s) = None"
  shows "session_step_ok st s st' s'"
  using assms by (simp add: session_step_ok_def)

lemma session_step_ok_refl: "session_step_ok st s st s"
  by (simp add: session_step_ok_def)

lemma session_step_ok_trans:
  assumes "session_step_ok st s st' s'" "session_step_ok st' s' st'' s''"
  shows "session_step_ok st s st'' s''"
proof -
  have "map_of (rt_connections (as_router st'')) (ss_connection s) = None"
    if "ss_open s" "\<not> ss_open s''" using assms that
    by (cases "ss_open s'") (auto simp: session_step_ok_def)
  moreover have "touches_only (ss_connection s) (as_router st) (as_router st'')"
    using assms by (auto simp: session_step_ok_def intro: touches_only_trans)
  ultimately show ?thesis using assms by (auto simp: session_step_ok_def)
qed

text \<open>One input, then the run over a sequence of inputs with all it sends.\<close>

fun run_session ::
  "('e \<Rightarrow> 'a \<Rightarrow> 's \<Rightarrow> 'o list \<times> 'a \<times> 's) \<Rightarrow> 'e list \<Rightarrow> 'a \<Rightarrow> 's \<Rightarrow> 'o list \<times> 'a \<times> 's" where
  "run_session step [] st s = ([], st, s)"
| "run_session step (e # es) st s =
    (case step e st s of (out, st, s) \<Rightarrow> case run_session step es st s of (rest, st, s) \<Rightarrow> (out @ rest, st, s))"

locale client_session =
  fixes step :: "'e \<Rightarrow> ('c, 'key, 'w) api_state \<Rightarrow> 'x StreamSession_scheme
    \<Rightarrow> 'o list \<times> ('c, 'key, 'w) api_state \<times> 'x StreamSession_scheme"
  assumes step_contract: "step e st s = (out, st', s') \<Longrightarrow> session_step_ok st s st' s'"
begin

lemma run_contract: "run_session step es st s = (out, st', s') \<Longrightarrow> session_step_ok st s st' s'"
proof (induction es arbitrary: st s out)
  case Nil
  then show ?case by (simp add: session_step_ok_refl)
next
  case (Cons e es)
  then show ?case by (auto split: prod.splits intro: session_step_ok_trans dest: step_contract)
qed

lemma run_isolated:
  assumes "run_session step es st s = (out, st', s')" and "router_inv (as_router st)" and "d \<noteq> ss_connection s"
  shows "router_inv (as_router st') \<and> map_of (rt_connections (as_router st')) d = map_of (rt_connections (as_router st)) d"
  using run_contract [OF assms(1)] assms(2,3) by (auto simp: session_step_ok_def touches_only_def)

end

lemma end_session_simps:
  "end_session st s = (st', s') \<Longrightarrow> ss_connection s' = ss_connection s \<and> ss_principal s' = ss_principal s
    \<and> \<not> ss_open s' \<and> as_router st' = unregister_connection (ss_connection s) (as_router st)"
  by (auto simp: end_session_def guard_drop_def)

text \<open>Ending a session after a step that only touched its connection.\<close>

lemma end_session_ok:
  assumes "end_session st1 s1 = (st', s')" and "ss_open s"
    and "ss_connection s1 = ss_connection s" "ss_principal s1 = ss_principal s"
    and "touches_only (ss_connection s) (as_router st) (as_router st1)"
  shows "session_step_ok st s st' s'"
  using end_session_simps [OF assms(1)] assms(2-5)
  by (auto simp: session_step_ok_def intro: touches_only_trans)

lemma end_unless_ok:
  assumes "end_unless sent st1 s1 = (st', s')" and "ss_open s" "ss_open s1"
    and "ss_connection s1 = ss_connection s" "ss_principal s1 = ss_principal s"
    and "touches_only (ss_connection s) (as_router st) (as_router st1)"
  shows "session_step_ok st s st' s'"
proof (cases sent)
  case True
  with assms show ?thesis by (auto simp: end_unless_def intro: session_step_okI)
next
  case False
  with assms show ?thesis by (auto simp: end_unless_def intro: end_session_ok)
qed

lemma with_latency_touches: "touches_only c (as_router st) (as_router (with_api_metrics (record_latency stage n) st))"
  by (simp add: with_api_metrics_def)

lemma pump_step_ok:
  assumes "pump_step event elapsed input st s = (out, st', s')"
  shows "session_step_ok st s st' s'"
proof (cases "ss_open s")
  case True
  then have "end_session st s = (st', s') \<Longrightarrow> session_step_ok st s st' s'" by (auto intro: end_session_ok)
  with True assms show ?thesis
    by (auto simp: pump_step_def with_latency_touches split: StreamInput.splits option.splits intro: session_step_okI)
next
  case False
  with assms show ?thesis by (simp add: pump_step_def session_step_ok_refl)
qed

interpretation ps: client_session "\<lambda>(elapsed, input). pump_step event elapsed input" for event
  by unfold_locales (auto dest: pump_step_ok)

subsection \<open>Opening a stream\<close>

text \<open>An attempt to open a connection either adds exactly that connection or changes no connection.\<close>

definition opened ::
  "connection_id \<Rightarrow> string \<Rightarrow> DeliveryProtocol \<Rightarrow> ('e + 'a) \<Rightarrow> 'c Router \<Rightarrow> 'c Router \<Rightarrow> bool" where
  "opened c tenant protocol res r r' \<longleftrightarrow> (router_inv r \<longrightarrow> router_inv r') \<and> rt_config r' = rt_config r
    \<and> (\<forall>d. d \<noteq> c \<longrightarrow> map_of (rt_connections r') d = map_of (rt_connections r) d)
    \<and> (if is_ok res
       then \<exists>cs. map_of (rt_connections r') c = Some cs \<and> cs_tenant_id cs = tenant \<and> cs_protocol cs = protocol
       else map_of (rt_connections r') c = None)"

lemma register_opened:
  assumes "map_of (rt_connections r) fresh = None" and "register_connection ops fresh tenant protocol cap r = (res, r')"
  shows "opened fresh tenant protocol res r r' \<and> (\<forall>c. res = Inr c \<longrightarrow> c = fresh)"
proof (cases res)
  case (Inl e)
  with register_connection_Inl assms(2)
  have "r' = r \<or> r' = r\<lparr>rt_metrics := record_security_limit_rejection (rt_metrics r)\<rparr>" by blast
  with assms(1) Inl register_connection_inv [OF _ assms] show ?thesis by (auto simp: opened_def)
next
  case (Inr c)
  with assms register_connection_inv [OF _ assms] show ?thesis
    by (auto simp: opened_def register_connection_Inr registered_def alist_simps)
qed

lemma opened_touches:
  assumes "opened c tenant protocol res r r'" and "touches_only c r' r''"
    and "if is_ok res' then is_ok res \<and> map_of (rt_connections r'') c \<noteq> None else map_of (rt_connections r'') c = None"
  shows "opened c tenant protocol res' r r''"
  using assms unfolding opened_def touches_only_def same_owner_def by (auto split: if_splits)

lemma register_and_subscribe_opened:
  assumes fresh: "map_of (rt_connections r) fresh = None"
    and run: "register_and_subscribe ops fresh tenant protocol capacity sid flt r = (res, r')"
  shows "opened fresh tenant protocol res r r' \<and> (\<forall>c. res = Inr c \<longrightarrow> c = fresh)"
proof -
  obtain res1 r1 where reg: "register_connection ops fresh tenant protocol (Some capacity) r = (res1, r1)" by fastforce
  note o1 = register_opened [OF fresh reg]
  show ?thesis
  proof (cases res1)
    case (Inl e)
    with run reg o1 show ?thesis by (auto simp: register_and_subscribe_def opened_def)
  next
    case (Inr c)
    with o1 have c: "c = fresh" by simp
    obtain res2 r2 where sub: "subscribe fresh sid flt r1 = (res2, r2)" by fastforce
    note t = subscribe_touches [OF sub]
    show ?thesis
    proof (cases res2)
      case (Inl e)
      with run reg sub \<open>res1 = Inr c\<close> c have e: "res = Inl e" "r' = unregister_connection fresh r2"
        by (simp_all add: register_and_subscribe_def)
      from opened_touches [OF conjunct1 [OF o1] touches_only_trans [OF t unregister_touches], of res] e show ?thesis by simp
    next
      case (Inr u)
      with sub have "map_of (rt_connections r2) fresh \<noteq> None"
        by (auto simp: subscribe_Inr with_subscription_def alist_simps split: option.splits)
      moreover from run reg sub \<open>res1 = Inr c\<close> Inr c have e: "res = Inr fresh" "r' = r2"
        by (simp_all add: register_and_subscribe_def)
      ultimately show ?thesis using opened_touches [OF conjunct1 [OF o1] t, of res] \<open>res1 = Inr c\<close> by simp
    qed
  qed
qed

text \<open>
  A request for a stream: an error changes no connection; otherwise the stream has the one new connection,
  which belongs to the authenticated principal's tenant, and the principal may subscribe.
\<close>

definition stream_opened ::
  "connection_id \<Rightarrow> DeliveryProtocol \<Rightarrow> ApiError + Principal \<Rightarrow> 'e + 'x StreamSession_scheme \<Rightarrow> 'c Router \<Rightarrow> 'c Router \<Rightarrow> bool" where
  "stream_opened c protocol auth res r r' \<longleftrightarrow>
    (case res of
       Inl _ \<Rightarrow> (router_inv r \<longrightarrow> router_inv r') \<and> rt_config r' = rt_config r
         \<and> (\<forall>d. map_of (rt_connections r') d = map_of (rt_connections r) d)
     | Inr s \<Rightarrow> opened c (pl_tenant_id (ss_principal s)) protocol res r r' \<and> auth = Inr (ss_principal s)
         \<and> pl_can_subscribe (ss_principal s) \<and> ss_connection s = c \<and> ss_open s)"

lemma opened_failed:
  assumes "opened c tenant protocol (Inl e) r r'" and "map_of (rt_connections r) c = None"
  shows "map_of (rt_connections r') d = map_of (rt_connections r) d"
  using assms by (cases "d = c") (auto simp: opened_def)

lemma stream_opened_refused [simp]: "stream_opened c protocol auth (Inl e) r r"
  by (simp add: stream_opened_def)

lemma stream_opened_Inl:
  assumes "opened c tenant protocol (Inl e) r r'" and "map_of (rt_connections r) c = None"
  shows "stream_opened c protocol auth (Inl e') r r'"
  using assms opened_failed [OF assms] by (simp add: stream_opened_def opened_def)

lemma stream_opened_Inr:
  assumes "opened c (pl_tenant_id (ss_principal s)) protocol (Inr x) r r'" and "auth = Inr (ss_principal s)"
    and "pl_can_subscribe (ss_principal s)" "ss_connection s = c" "ss_open s"
  shows "stream_opened c protocol auth (Inr s) r r'"
  using assms by (simp add: stream_opened_def opened_def)

end
