(* ===== verification/Net_Addr.thy ===== *)
theory Net_Addr
  imports Rust_Str
begin

text \<open>
  Internet addresses of \<open>std::net\<close>, as far as the webhook egress checks use them: the two address
  types, the predicates \<open>is_private\<close>, \<open>is_loopback\<close> and so on, and parsing. An IPv4 address has four
  octets, an IPv6 address eight segments. The parser is the recursive descent parser of the library,
  which works on the bytes of the string and returns what it has not consumed.
\<close>

datatype Ipv4Addr = Ipv4Addr (oct_a: "8 word") (oct_b: "8 word") (oct_c: "8 word") (oct_d: "8 word")

text \<open>A segment list has length 8.\<close>

datatype Ipv6Addr = Ipv6Addr (segments: "16 word list")

datatype IpAddr = V4 Ipv4Addr | V6 Ipv6Addr

record SocketAddr =
  sa_ip :: IpAddr
  sa_port :: nat

subsection \<open>Predicates\<close>

definition v4_is_private :: "Ipv4Addr \<Rightarrow> bool" where
  "v4_is_private x \<longleftrightarrow> oct_a x = 10 \<or> (oct_a x = 172 \<and> 16 \<le> oct_b x \<and> oct_b x \<le> 31)
     \<or> (oct_a x = 192 \<and> oct_b x = 168)"

definition v4_is_loopback :: "Ipv4Addr \<Rightarrow> bool" where
  "v4_is_loopback x \<longleftrightarrow> oct_a x = 127"

definition v4_is_link_local :: "Ipv4Addr \<Rightarrow> bool" where
  "v4_is_link_local x \<longleftrightarrow> oct_a x = 169 \<and> oct_b x = 254"

definition v4_is_broadcast :: "Ipv4Addr \<Rightarrow> bool" where
  "v4_is_broadcast x \<longleftrightarrow> x = Ipv4Addr 255 255 255 255"

definition v4_is_documentation :: "Ipv4Addr \<Rightarrow> bool" where
  "v4_is_documentation x \<longleftrightarrow> (oct_a x = 192 \<and> oct_b x = 0 \<and> oct_c x = 2)
     \<or> (oct_a x = 198 \<and> oct_b x = 51 \<and> oct_c x = 100) \<or> (oct_a x = 203 \<and> oct_b x = 0 \<and> oct_c x = 113)"

definition v4_is_unspecified :: "Ipv4Addr \<Rightarrow> bool" where
  "v4_is_unspecified x \<longleftrightarrow> x = Ipv4Addr 0 0 0 0"

definition v4_is_multicast :: "Ipv4Addr \<Rightarrow> bool" where
  "v4_is_multicast x \<longleftrightarrow> 224 \<le> oct_a x \<and> oct_a x \<le> 239"

definition v6_is_loopback :: "Ipv6Addr \<Rightarrow> bool" where
  "v6_is_loopback x \<longleftrightarrow> segments x = [0, 0, 0, 0, 0, 0, 0, 1]"

definition v6_is_unspecified :: "Ipv6Addr \<Rightarrow> bool" where
  "v6_is_unspecified x \<longleftrightarrow> segments x = [0, 0, 0, 0, 0, 0, 0, 0]"

definition v6_is_multicast :: "Ipv6Addr \<Rightarrow> bool" where
  "v6_is_multicast x \<longleftrightarrow> and (segments x ! 0) 0xff00 = 0xff00"

definition to_ipv4_mapped :: "Ipv6Addr \<Rightarrow> Ipv4Addr option" where
  "to_ipv4_mapped x =
    (case segments x of
       [s0, s1, s2, s3, s4, s5, ab, cd] \<Rightarrow>
         if s0 = 0 \<and> s1 = 0 \<and> s2 = 0 \<and> s3 = 0 \<and> s4 = 0 \<and> s5 = 0xffff
         then Some (Ipv4Addr (ucast (drop_bit 8 ab)) (ucast ab) (ucast (drop_bit 8 cd)) (ucast cd))
         else None
     | _ \<Rightarrow> None)"

subsection \<open>Parsing\<close>

definition digit_value :: "nat \<Rightarrow> char \<Rightarrow> nat option" where
  "digit_value radix c =
    (let n = of_char c :: nat;
         d = (if 48 \<le> n \<and> n \<le> 57 then Some (n - 48)
              else if 97 \<le> n \<and> n \<le> 102 then Some (n - 87)
              else if 65 \<le> n \<and> n \<le> 70 then Some (n - 55) else None)
     in case d of None \<Rightarrow> None | Some v \<Rightarrow> if v < radix then Some v else None)"

text \<open>
  Digits in a radix, at most \<open>max_digits\<close> of them, with a value below \<open>bound\<close>; a leading zero only
  where allowed or alone.
\<close>

definition read_number :: "nat \<Rightarrow> nat \<Rightarrow> bool \<Rightarrow> nat \<Rightarrow> string \<Rightarrow> (nat \<times> string) option" where
  "read_number radix max_digits allow_zero_prefix bound s =
    (let ds = takeWhile (\<lambda>c. digit_value radix c \<noteq> None) s;
         v = fold (\<lambda>c acc. acc * radix + the (digit_value radix c)) ds 0
     in if ds = [] \<or> length ds > max_digits \<or> v \<ge> bound
           \<or> (\<not> allow_zero_prefix \<and> hd ds = CHR ''0'' \<and> length ds > 1)
        then None else Some (v, drop (length ds) s))"

definition read_char :: "char \<Rightarrow> string \<Rightarrow> string option" where
  "read_char c s = (case s of x # r \<Rightarrow> if x = c then Some r else None | [] \<Rightarrow> None)"

definition read_octet :: "string \<Rightarrow> (nat \<times> string) option" where
  "read_octet = read_number 10 3 False 256"

definition read_ipv4 :: "string \<Rightarrow> (Ipv4Addr \<times> string) option" where
  "read_ipv4 s =
    (case read_octet s of None \<Rightarrow> None | Some (a, s) \<Rightarrow>
     (case read_char CHR ''.'' s of None \<Rightarrow> None | Some s \<Rightarrow>
     (case read_octet s of None \<Rightarrow> None | Some (b, s) \<Rightarrow>
     (case read_char CHR ''.'' s of None \<Rightarrow> None | Some s \<Rightarrow>
     (case read_octet s of None \<Rightarrow> None | Some (c, s) \<Rightarrow>
     (case read_char CHR ''.'' s of None \<Rightarrow> None | Some s \<Rightarrow>
     (case read_octet s of None \<Rightarrow> None | Some (d, s) \<Rightarrow>
        Some (Ipv4Addr (of_nat a) (of_nat b) (of_nat c) (of_nat d), s))))))))"

text \<open>\<open>read_separator\<close>: from the second group on, a colon comes first.\<close>

definition separated :: "bool \<Rightarrow> (string \<Rightarrow> 'a option) \<Rightarrow> string \<Rightarrow> 'a option" where
  "separated first p s = (if first then p s else case read_char CHR '':'' s of None \<Rightarrow> None | Some r \<Rightarrow> p r)"

definition v4_groups :: "Ipv4Addr \<Rightarrow> 16 word list" where
  "v4_groups x = [push_bit 8 (ucast (oct_a x)) + ucast (oct_b x), push_bit 8 (ucast (oct_c x)) + ucast (oct_d x)]"

text \<open>
  Up to \<open>limit\<close> groups: their values, whether they ended with an embedded IPv4 address (which takes
  the place of two groups), and the rest.
\<close>

fun read_groups :: "bool \<Rightarrow> nat \<Rightarrow> string \<Rightarrow> 16 word list \<times> bool \<times> string" where
  "read_groups first 0 s = ([], False, s)"
| "read_groups first (Suc n) s =
    (case (if n > 0 then separated first read_ipv4 s else None) of
       Some (x, r) \<Rightarrow> (v4_groups x, True, r)
     | None \<Rightarrow>
         (case separated first (read_number 16 4 True 65536) s of
            None \<Rightarrow> ([], False, s)
          | Some (g, r) \<Rightarrow>
              let (gs, v4, r') = read_groups False n r in (of_nat g # gs, v4, r')))"

definition read_ipv6 :: "string \<Rightarrow> (Ipv6Addr \<times> string) option" where
  "read_ipv6 s =
    (let (head, head_v4, r) = read_groups True 8 s
     in if length head = 8 then Some (Ipv6Addr head, r)
        else if head_v4 then None
        else (case read_char CHR '':'' r of None \<Rightarrow> None | Some r \<Rightarrow>
             (case read_char CHR '':'' r of None \<Rightarrow> None | Some r \<Rightarrow>
                let (tail, _, r) = read_groups True (8 - (length head + 1)) r
                in Some (Ipv6Addr (head @ replicate (8 - length head - length tail) 0 @ tail), r))))"

text \<open>\<open>str::parse::<IpAddr>()\<close>: IPv4 first, then IPv6, and the whole string must be consumed.\<close>

definition parse_ip :: "string \<Rightarrow> IpAddr option" where
  "parse_ip s =
    (case read_ipv4 s of
       Some (x, r) \<Rightarrow> if r = [] then Some (V4 x) else None
     | None \<Rightarrow> (case read_ipv6 s of
                 Some (x, r) \<Rightarrow> if r = [] then Some (V6 x) else None
               | None \<Rightarrow> None))"

lemma length_v4_groups [simp]: "length (v4_groups x) = 2"
  by (simp add: v4_groups_def)

lemma length_read_groups:
  "length (fst (read_groups first n s)) \<le> n"
proof (induction first n s rule: read_groups.induct)
  case (2 first n s)
  show ?case
    using "2.IH" by (fastforce split: option.splits prod.splits if_splits)
qed simp

text \<open>Every parsed IPv6 address has eight segments.\<close>

lemma pad_to_eight: "n \<le> 8 \<Longrightarrow> n \<noteq> 8 \<Longrightarrow> a \<le> 7 - n \<Longrightarrow> n + (8 - (n + a) + a) = (8 :: nat)"
  by simp

lemma read_ipv6_length:
  assumes "read_ipv6 s = Some (x, r)"
  shows "length (segments x) = 8"
proof -
  obtain hd4 v r1 where h: "read_groups True 8 s = (hd4, v, r1)" by (metis prod_cases3)
  have "length hd4 \<le> 8" using length_read_groups [of True 8 s] h by simp
  moreover have "length (fst (read_groups True (8 - (length hd4 + 1)) r2)) \<le> 8 - (length hd4 + 1)" for r2
    by (rule length_read_groups)
  ultimately show ?thesis using assms
    by (auto simp: read_ipv6_def h Let_def case_prod_unfold intro!: pad_to_eight split: if_splits option.splits)
qed

lemma parse_ip_v6_length: "parse_ip s = Some (V6 x) \<Longrightarrow> length (segments x) = 8"
  by (auto simp: parse_ip_def split: option.splits if_splits prod.splits dest: read_ipv6_length)

lemma read_number_none: "digit_value radix c = None \<Longrightarrow> read_number radix n z b (c # s) = None"
  by (simp add: read_number_def)

text \<open>A host whose first character is neither a hexadecimal digit nor a colon is not an address.\<close>

lemma parse_ip_name:
  assumes "digit_value 16 c = None" and "c \<noteq> CHR '':''"
  shows "parse_ip (c # s) = None"
proof -
  have "digit_value 10 c = None" using assms(1) by (auto simp: digit_value_def Let_def split: if_splits)
  then have v4: "read_ipv4 (c # s) = None" by (simp add: read_ipv4_def read_octet_def read_number_none)
  have "read_groups True (Suc n) (c # s) = ([], False, c # s)" for n
    by (simp add: separated_def v4 read_number_none assms(1))
  from this [of 7] have "read_groups True 8 (c # s) = ([], False, c # s)" by simp
  then have "read_ipv6 (c # s) = None"
    using assms(2) by (simp add: read_ipv6_def read_char_def)
  with v4 show ?thesis by (simp add: parse_ip_def)
qed

end
