(* ===== verification/Webhook_Security.thy ===== *)
theory Webhook_Security
  imports Net_Addr
begin

text \<open>
  Webhook egress controls (\<open>router-webhook/src/security.rs\<close>). URL parsing is done by the \<open>url\<close> crate:
  a parsed URL is the record of the parts the code reads, and \<open>url_parse\<close> a parameter. Name
  resolution is the parameter \<open>lookup\<close>, which yields the answers in order, or fails. A client is the
  record of the settings the builder is given; building it may fail.
\<close>

datatype WebhookError =
    InvalidUrl string
  | HostNotAllowed string
  | PrivateAddress IpAddr
  | InvalidHeader string string
  | Client string
  | Registration string string
  | Durable string
  | Worker string string

record Url =
  url_scheme :: string
  url_username :: string
  url_password :: "string option"
  url_fragment :: "string option"
  url_host_str :: "string option"
  url_port_or_known_default :: "nat option"

definition max_resolved_addresses :: nat where
  "max_resolved_addresses = 16"

definition normalized_host :: "string \<Rightarrow> string" where
  "normalized_host host =
    (case host of
       c # rest \<Rightarrow> if c = CHR ''['' \<and> rest \<noteq> [] \<and> last rest = CHR '']'' then butlast rest else host
     | [] \<Rightarrow> host)"

definition ipv4_private_or_special :: "Ipv4Addr \<Rightarrow> bool" where
  "ipv4_private_or_special x \<longleftrightarrow>
    v4_is_private x \<or> v4_is_loopback x \<or> v4_is_link_local x \<or> v4_is_broadcast x
    \<or> v4_is_documentation x \<or> v4_is_unspecified x \<or> v4_is_multicast x
    \<or> oct_a x = 0
    \<or> (oct_a x = 100 \<and> 64 \<le> oct_b x \<and> oct_b x \<le> 127)
    \<or> (oct_a x = 192 \<and> oct_b x = 0 \<and> oct_c x = 0)
    \<or> (oct_a x = 192 \<and> oct_b x = 88 \<and> oct_c x = 99)
    \<or> (oct_a x = 198 \<and> 18 \<le> oct_b x \<and> oct_b x \<le> 19)
    \<or> 240 \<le> oct_a x"

definition ipv6_private_or_special :: "Ipv6Addr \<Rightarrow> bool" where
  "ipv6_private_or_special x \<longleftrightarrow>
    (let s = segments x; first = s ! 0
     in v6_is_loopback x \<or> v6_is_unspecified x \<or> v6_is_multicast x
      \<or> and first 0xfe00 = 0xfc00
      \<or> and first 0xffc0 = 0xfe80
      \<or> (first = 0x0064 \<and> s ! 1 = 0xff9b)
      \<or> (first = 0x0100 \<and> s ! 1 = 0 \<and> s ! 2 = 0 \<and> s ! 3 = 0)
      \<or> (first = 0x2001 \<and> s ! 1 < 0x0200)
      \<or> (first = 0x2001 \<and> s ! 1 = 0x0db8)
      \<or> first = 0x2002
      \<or> (first = 0x3fff \<and> s ! 1 < 0x1000)
      \<or> first = 0x5f00
      \<or> (case to_ipv4_mapped x of None \<Rightarrow> False | Some y \<Rightarrow> ipv4_private_or_special y))"

definition is_private_or_special :: "IpAddr \<Rightarrow> bool" where
  "is_private_or_special x = (case x of V4 y \<Rightarrow> ipv4_private_or_special y | V6 y \<Rightarrow> ipv6_private_or_special y)"

definition validate_destination_url ::
  "(string \<Rightarrow> string + Url) \<Rightarrow> string \<Rightarrow> string list \<Rightarrow> bool \<Rightarrow> bool \<Rightarrow> WebhookError + Url" where
  "validate_destination_url url_parse raw allowed_hosts allow_private_ips allow_http =
    and_then (map_err InvalidUrl (url_parse raw)) (\<lambda>url.
    if \<not> (url_scheme url = ''https'' \<or> (url_scheme url = ''http'' \<and> allow_http)) then
      Inl (InvalidUrl (''scheme '' @ [CHR 0x22] @ url_scheme url @ [CHR 0x22] @ '' is not permitted''))
    else if url_username url \<noteq> [] \<or> url_password url \<noteq> None then
      Inl (InvalidUrl ''embedded credentials are not permitted'')
    else if url_fragment url \<noteq> None then
      Inl (InvalidUrl ''URL fragments are not permitted'')
    else
      and_then (ok_or (InvalidUrl ''host is required'') (url_host_str url)) (\<lambda>host.
      let host = normalized_host host
      in if allowed_hosts \<noteq> [] \<and> \<not> (\<exists>allowed\<in>set allowed_hosts. eq_ignore_ascii_case allowed host)
         then Inl (HostNotAllowed host)
         else if \<not> allow_private_ips
                 \<and> (case parse_ip host of None \<Rightarrow> False | Some ip \<Rightarrow> is_private_or_special ip)
         then Inl (InvalidUrl ''private or special destination address is not allowed'')
         else Inr url))"

definition validate_destination_port :: "Url \<Rightarrow> nat list \<Rightarrow> WebhookError + unit" where
  "validate_destination_port url allowed_ports =
    and_then (ok_or (InvalidUrl ''destination port is required'') (url_port_or_known_default url)) (\<lambda>port.
    let permitted = (if allowed_ports = []
          then (url_scheme url = ''https'' \<and> port = 443) \<or> (url_scheme url = ''http'' \<and> port = 80)
          else port \<in> set allowed_ports)
    in if \<not> permitted then Inl (InvalidUrl (''destination port '' @ show_nat port @ '' is not permitted''))
       else Inr ())"

text \<open>The loop over the DNS answers: distinct addresses in order, an error beyond the maximum.\<close>

fun collect_addresses :: "SocketAddr list \<Rightarrow> SocketAddr list \<Rightarrow> WebhookError + SocketAddr list" where
  "collect_addresses [] addresses = Inr addresses"
| "collect_addresses (a # resolved) addresses =
    (if length addresses = max_resolved_addresses then
       Inl (InvalidUrl ''destination resolves to too many addresses'')
     else collect_addresses resolved (if a \<in> set addresses then addresses else addresses @ [a]))"

record PinnedClient =
  cl_follow_redirects :: bool
  cl_use_proxy :: bool
  cl_connect_timeout :: nat
  cl_timeout :: nat
  cl_host :: string
  cl_addresses :: "SocketAddr list"

definition pinned_client ::
  "(string \<Rightarrow> nat \<Rightarrow> (SocketAddr list) option) \<Rightarrow> (PinnedClient \<Rightarrow> string option) \<Rightarrow> Url \<Rightarrow> bool \<Rightarrow> nat
   \<Rightarrow> WebhookError + PinnedClient" where
  "pinned_client lookup build_error url allow_private_ips timeout =
    and_then (ok_or (InvalidUrl ''host is required'') (url_host_str url)) (\<lambda>host.
    let host = normalized_host host in
    and_then (ok_or (InvalidUrl ''destination port is required'') (url_port_or_known_default url)) (\<lambda>port.
    and_then
      (case parse_ip host of
         Some ip \<Rightarrow> Inr [\<lparr>sa_ip = ip, sa_port = port\<rparr>]
       | None \<Rightarrow>
           and_then (ok_or (InvalidUrl ''destination DNS resolution failed'') (lookup host port)) (\<lambda>resolved.
           collect_addresses resolved [])) (\<lambda>addresses.
    if addresses = [] then Inl (InvalidUrl ''destination resolved to no addresses'')
    else if \<not> allow_private_ips \<and> (\<exists>a\<in>set addresses. is_private_or_special (sa_ip a)) then
      Inl (InvalidUrl ''destination DNS includes a private or special address'')
    else
      let client = \<lparr>cl_follow_redirects = False, cl_use_proxy = False, cl_connect_timeout = timeout,
                    cl_timeout = timeout, cl_host = host, cl_addresses = addresses\<rparr>
      in case build_error client of Some e \<Rightarrow> Inl (Client e) | None \<Rightarrow> Inr client)))"

subsection \<open>The blocked IPv4 addresses as network blocks\<close>

definition v4_value :: "Ipv4Addr \<Rightarrow> nat" where
  "v4_value x = unat (oct_a x) * 16777216 + unat (oct_b x) * 65536 + unat (oct_c x) * 256 + unat (oct_d x)"

text \<open>The address agrees with a network address in its first \<open>len\<close> bits.\<close>

definition in_block :: "Ipv4Addr \<Rightarrow> Ipv4Addr \<times> nat \<Rightarrow> bool" where
  "in_block x block \<longleftrightarrow> v4_value x div 2 ^ (32 - snd block) = v4_value (fst block) div 2 ^ (32 - snd block)"

definition special_v4_blocks :: "(Ipv4Addr \<times> nat) list" where
  "special_v4_blocks =
    [(Ipv4Addr 0 0 0 0, 8), (Ipv4Addr 10 0 0 0, 8), (Ipv4Addr 100 64 0 0, 10), (Ipv4Addr 127 0 0 0, 8),
     (Ipv4Addr 169 254 0 0, 16), (Ipv4Addr 172 16 0 0, 12), (Ipv4Addr 192 0 0 0, 24), (Ipv4Addr 192 0 2 0, 24),
     (Ipv4Addr 192 88 99 0, 24), (Ipv4Addr 192 168 0 0, 16), (Ipv4Addr 198 18 0 0, 15), (Ipv4Addr 198 51 100 0, 24),
     (Ipv4Addr 203 0 113 0, 24), (Ipv4Addr 224 0 0 0, 4), (Ipv4Addr 240 0 0 0, 4)]"

lemma octet_lt: "unat (w :: 8 word) < 256"
  using unsigned_less [of w, where ?'a = nat] by simp

lemma div_split: "r < k \<Longrightarrow> (b * k + r) div k = b" for b k r :: nat
  by (simp add: div_mult_self3)

lemma v4_value_div:
  "v4_value x div 16777216 = unat (oct_a x)"
  "v4_value x div 65536 = unat (oct_a x) * 256 + unat (oct_b x)"
  "v4_value x div 256 = unat (oct_a x) * 65536 + unat (oct_b x) * 256 + unat (oct_c x)"
proof -
  have lt: "unat (oct_b x) < 256" "unat (oct_c x) < 256" "unat (oct_d x) < 256" by (rule octet_lt)+
  have "v4_value x = unat (oct_a x) * 16777216 + (unat (oct_b x) * 65536 + unat (oct_c x) * 256 + unat (oct_d x))"
    by (simp add: v4_value_def)
  with lt show "v4_value x div 16777216 = unat (oct_a x)" by (simp add: div_split)
  have "v4_value x = (unat (oct_a x) * 256 + unat (oct_b x)) * 65536 + (unat (oct_c x) * 256 + unat (oct_d x))"
    by (simp add: v4_value_def)
  with lt show "v4_value x div 65536 = unat (oct_a x) * 256 + unat (oct_b x)" by (simp add: div_split)
  have "v4_value x = (unat (oct_a x) * 65536 + unat (oct_b x) * 256 + unat (oct_c x)) * 256 + unat (oct_d x)"
    by (simp add: v4_value_def)
  with lt show "v4_value x div 256 = unat (oct_a x) * 65536 + unat (oct_b x) * 256 + unat (oct_c x)"
    by (simp add: div_split)
qed

text \<open>The first bits of an address, for the prefix lengths in use, by its octets.\<close>

lemma v4_prefix:
  "v4_value x div 4194304 = unat (oct_a x) * 4 + unat (oct_b x) div 64"
  "v4_value x div 1048576 = unat (oct_a x) * 16 + unat (oct_b x) div 16"
  "v4_value x div 131072 = unat (oct_a x) * 128 + unat (oct_b x) div 2"
  "v4_value x div 268435456 = unat (oct_a x) div 16"
proof -
  have "v4_value x div 4194304 = v4_value x div 65536 div 64" by (simp add: div_mult2_eq [symmetric])
  then show "v4_value x div 4194304 = unat (oct_a x) * 4 + unat (oct_b x) div 64" by (simp add: v4_value_div)
  have "v4_value x div 1048576 = v4_value x div 65536 div 16" by (simp add: div_mult2_eq [symmetric])
  then show "v4_value x div 1048576 = unat (oct_a x) * 16 + unat (oct_b x) div 16" by (simp add: v4_value_div)
  have "v4_value x div 131072 = v4_value x div 65536 div 2" by (simp add: div_mult2_eq [symmetric])
  then show "v4_value x div 131072 = unat (oct_a x) * 128 + unat (oct_b x) div 2" by (simp add: v4_value_div)
  have "v4_value x div 268435456 = v4_value x div 16777216 div 16" by (simp add: div_mult2_eq [symmetric])
  then show "v4_value x div 268435456 = unat (oct_a x) div 16" by (simp add: v4_value_div)
qed

lemma base_inj:
  assumes "b < n" "d < (n :: nat)"
  shows "a * n + b = c * n + d \<longleftrightarrow> a = c \<and> b = d"
proof
  assume eq: "a * n + b = c * n + d"
  have "(a * n + b) div n = a" "(c * n + d) div n = c" "(a * n + b) mod n = b" "(c * n + d) mod n = d"
    using assms by simp_all
  with eq show "a = c \<and> b = d" by metis
qed simp

lemma base_inj3:
  assumes "b < 256" "d < 256" "e < 256" "f < (256 :: nat)"
  shows "a * 65536 + b * 256 + e = c * 65536 + d * 256 + f \<longleftrightarrow> a = c \<and> b = d \<and> e = f"
proof -
  have "x * 65536 + y * 256 + z = (x * 256 + y) * 256 + z" for x y z :: nat by simp
  then show ?thesis using assms by (simp only: base_inj) auto
qed

lemma in_block_simps:
  "in_block x (Ipv4Addr k 0 0 0, 8) \<longleftrightarrow> oct_a x = k"
  "in_block x (Ipv4Addr k l 0 0, 16) \<longleftrightarrow> oct_a x = k \<and> oct_b x = l"
  "in_block x (Ipv4Addr k l m 0, 24) \<longleftrightarrow> oct_a x = k \<and> oct_b x = l \<and> oct_c x = m"
proof -
  show "in_block x (Ipv4Addr k 0 0 0, 8) \<longleftrightarrow> oct_a x = k"
    by (simp add: in_block_def v4_value_div word_unat_eq_iff)
  show "in_block x (Ipv4Addr k l 0 0, 16) \<longleftrightarrow> oct_a x = k \<and> oct_b x = l"
    by (simp add: in_block_def v4_value_div base_inj octet_lt word_unat_eq_iff)
  show "in_block x (Ipv4Addr k l m 0, 24) \<longleftrightarrow> oct_a x = k \<and> oct_b x = l \<and> oct_c x = m"
    by (simp add: in_block_def v4_value_div base_inj3 octet_lt word_unat_eq_iff)
qed

lemma octet_range:
  fixes w :: "8 word"
  shows "64 \<le> w \<and> w \<le> 127 \<longleftrightarrow> unat w div 64 = 1" "16 \<le> w \<and> w \<le> 31 \<longleftrightarrow> unat w div 16 = 1"
    "18 \<le> w \<and> w \<le> 19 \<longleftrightarrow> unat w div 2 = 9" "224 \<le> w \<and> w \<le> 239 \<longleftrightarrow> unat w div 16 = 14"
    "240 \<le> w \<longleftrightarrow> unat w div 16 = 15"
  using octet_lt [of w] by (simp_all add: word_le_nat_alt) linarith+

lemma in_block_ranges:
  "in_block x (Ipv4Addr 100 64 0 0, 10) \<longleftrightarrow> oct_a x = 100 \<and> 64 \<le> oct_b x \<and> oct_b x \<le> 127"
  "in_block x (Ipv4Addr 172 16 0 0, 12) \<longleftrightarrow> oct_a x = 172 \<and> 16 \<le> oct_b x \<and> oct_b x \<le> 31"
  "in_block x (Ipv4Addr 198 18 0 0, 15) \<longleftrightarrow> oct_a x = 198 \<and> 18 \<le> oct_b x \<and> oct_b x \<le> 19"
  "in_block x (Ipv4Addr 224 0 0 0, 4) \<longleftrightarrow> 224 \<le> oct_a x \<and> oct_a x \<le> 239"
  "in_block x (Ipv4Addr 240 0 0 0, 4) \<longleftrightarrow> 240 \<le> oct_a x"
proof -
  have lt: "unat (oct_b x) div 64 < 4" "unat (oct_b x) div 16 < 16" "unat (oct_b x) div 2 < 128"
    using octet_lt [of "oct_b x"] by simp_all
  show "in_block x (Ipv4Addr 100 64 0 0, 10) \<longleftrightarrow> oct_a x = 100 \<and> 64 \<le> oct_b x \<and> oct_b x \<le> 127"
    using base_inj [of "unat (oct_b x) div 64" 4 1 "unat (oct_a x)" 100] lt
    by (simp add: in_block_def v4_prefix octet_range word_unat_eq_iff)
  show "in_block x (Ipv4Addr 172 16 0 0, 12) \<longleftrightarrow> oct_a x = 172 \<and> 16 \<le> oct_b x \<and> oct_b x \<le> 31"
    using base_inj [of "unat (oct_b x) div 16" 16 1 "unat (oct_a x)" 172] lt
    by (simp add: in_block_def v4_prefix octet_range word_unat_eq_iff)
  show "in_block x (Ipv4Addr 198 18 0 0, 15) \<longleftrightarrow> oct_a x = 198 \<and> 18 \<le> oct_b x \<and> oct_b x \<le> 19"
    using base_inj [of "unat (oct_b x) div 2" 128 9 "unat (oct_a x)" 198] lt
    by (simp add: in_block_def v4_prefix octet_range word_unat_eq_iff)
qed (simp_all add: in_block_def v4_prefix octet_range)

subsection \<open>Properties\<close>

lemma collect_addresses_Inr:
  "collect_addresses resolved as = Inr bs \<Longrightarrow> distinct as \<Longrightarrow> length as \<le> max_resolved_addresses
   \<Longrightarrow> distinct bs \<and> length bs \<le> max_resolved_addresses \<and> set bs = set as \<union> set resolved"
  by (induction resolved as rule: collect_addresses.induct) (auto split: if_splits)

lemma collect_addresses_full:
  "length as = max_resolved_addresses \<Longrightarrow> resolved \<noteq> [] \<Longrightarrow>
   collect_addresses resolved as = Inl (InvalidUrl ''destination resolves to too many addresses'')"
  by (cases resolved) simp_all

lemma collect_addresses_distinct:
  "distinct (as @ bs) \<Longrightarrow> length (as @ bs) \<le> max_resolved_addresses \<Longrightarrow>
   collect_addresses (bs @ cs) as = collect_addresses cs (as @ bs)"
  by (induction bs arbitrary: as) auto

text \<open>
  The octet tests of \<open>ipv4_private_or_special\<close> are membership in fifteen address blocks, written
  in the network and prefix-length notation of the registry: this network, the private and shared
  networks, loopback, link-local, protocol assignments, the documentation networks, 6to4 relay,
  benchmarking, multicast and the reserved range. No other IPv4 address is refused.
\<close>

lemma ipv4_special_is_blocks: "ipv4_private_or_special x \<longleftrightarrow> list_ex (in_block x) special_v4_blocks"
proof -
  have "v4_is_broadcast x \<Longrightarrow> 240 \<le> oct_a x" by (auto simp: v4_is_broadcast_def)
  moreover have "v4_is_unspecified x \<Longrightarrow> oct_a x = 0" by (auto simp: v4_is_unspecified_def)
  ultimately show ?thesis
    unfolding ipv4_private_or_special_def special_v4_blocks_def list_ex_Nil_iff list_ex_Cons_iff in_block_simps in_block_ranges
      v4_is_private_def v4_is_loopback_def v4_is_link_local_def v4_is_documentation_def v4_is_multicast_def
    by argo
qed

text \<open>
  \<open>validate_destination_url\<close> accepts exactly the URLs that parse, use HTTPS (or HTTP where it is
  enabled), carry no credentials and no fragment, name a host of the allow list (when there is one),
  and do not spell out a private or special address unless those are enabled.
\<close>

lemma destination_url_policy:
  "validate_destination_url url_parse raw allowed_hosts allow_private_ips allow_http = Inr url \<longleftrightarrow>
    url_parse raw = Inr url
    \<and> (url_scheme url = ''https'' \<or> url_scheme url = ''http'' \<and> allow_http)
    \<and> url_username url = [] \<and> url_password url = None \<and> url_fragment url = None
    \<and> (\<exists>host. url_host_str url = Some host
        \<and> (allowed_hosts = [] \<or> list_ex (\<lambda>h. eq_ignore_ascii_case h (normalized_host host)) allowed_hosts)
        \<and> (allow_private_ips
            \<or> pred_option (\<lambda>ip. \<not> is_private_or_special ip) (parse_ip (normalized_host host))))"
proof (cases "url_parse raw")
  case (Inl e)
  then show ?thesis by (simp add: validate_destination_url_def result_simps)
next
  case (Inr u)
  show ?thesis
  proof (cases "url_host_str u")
    case None
    with Inr show ?thesis by (auto simp: validate_destination_url_def result_simps)
  next
    case (Some host)
    with Inr show ?thesis
      by (cases "parse_ip (normalized_host host)")
        (auto simp: validate_destination_url_def result_simps Let_def list_ex_iff)
  qed
qed

text \<open>
  C14. Whatever client one attempt gets, its connections go only to checked addresses: the host of the
  URL is pinned to a non-empty list of at most sixteen distinct addresses; when the host is a name
  these are all the answers of the single lookup, and when it is a literal that literal with the port
  of the URL; none is private or special unless those are enabled; redirects and environment proxies
  are off.
\<close>

theorem pinned_client_checked:
  assumes "pinned_client lookup build_error url allow_private_ips timeout = Inr client"
  shows "\<exists>host port. url_host_str url = Some host \<and> url_port_or_known_default url = Some port
    \<and> cl_host client = normalized_host host
    \<and> cl_addresses client \<noteq> [] \<and> distinct (cl_addresses client)
    \<and> length (cl_addresses client) \<le> max_resolved_addresses
    \<and> (case parse_ip (normalized_host host) of
         Some ip \<Rightarrow> cl_addresses client = [\<lparr>sa_ip = ip, sa_port = port\<rparr>]
       | None \<Rightarrow> map_option set (lookup (normalized_host host) port) = Some (set (cl_addresses client)))
    \<and> (allow_private_ips \<or> list_all (\<lambda>a. \<not> is_private_or_special (sa_ip a)) (cl_addresses client))
    \<and> \<not> cl_follow_redirects client \<and> \<not> cl_use_proxy client
    \<and> cl_connect_timeout client = timeout \<and> cl_timeout client = timeout"
proof -
  obtain host port where hp: "url_host_str url = Some host" "url_port_or_known_default url = Some port"
    using assms by (cases "url_host_str url"; cases "url_port_or_known_default url")
      (auto simp: pinned_client_def result_simps Let_def)
  define addresses where "addresses = (case parse_ip (normalized_host host) of
      Some ip \<Rightarrow> Inr [\<lparr>sa_ip = ip, sa_port = port\<rparr>]
    | None \<Rightarrow> and_then (ok_or (InvalidUrl ''destination DNS resolution failed'') (lookup (normalized_host host) port))
        (\<lambda>resolved. collect_addresses resolved []))"
  obtain as where as: "addresses = Inr as" "as \<noteq> []"
    "allow_private_ips \<or> list_all (\<lambda>a. \<not> is_private_or_special (sa_ip a)) as"
    "client = \<lparr>cl_follow_redirects = False, cl_use_proxy = False, cl_connect_timeout = timeout,
       cl_timeout = timeout, cl_host = normalized_host host, cl_addresses = as\<rparr>"
    using assms by (cases addresses)
      (auto simp: pinned_client_def result_simps Let_def hp list_all_iff simp flip: addresses_def
        split: if_splits option.splits)
  have "distinct as \<and> length as \<le> max_resolved_addresses \<and>
    (case parse_ip (normalized_host host) of Some ip \<Rightarrow> as = [\<lparr>sa_ip = ip, sa_port = port\<rparr>]
     | None \<Rightarrow> map_option set (lookup (normalized_host host) port) = Some (set as))"
  proof (cases "parse_ip (normalized_host host)")
    case None
    then show ?thesis using as(1) collect_addresses_Inr [of _ "[]"]
      by (cases "lookup (normalized_host host) port") (auto simp: addresses_def result_simps)
  qed (use as(1) in \<open>auto simp: addresses_def max_resolved_addresses_def\<close>)
  with hp as(2,3) show ?thesis unfolding as(4) by (simp split: option.splits)
qed

definition sample_url :: Url where
  "sample_url = \<lparr>url_scheme = ''https'', url_username = [], url_password = None, url_fragment = None,
     url_host_str = Some ''hooks.test'', url_port_or_known_default = Some 443\<rparr>"

definition sample_addr :: "8 word \<Rightarrow> SocketAddr" where
  "sample_addr n = \<lparr>sa_ip = V4 (Ipv4Addr 93 184 216 n), sa_port = 443\<rparr>"

lemma sample_host: "parse_ip ''hooks.test'' = None"
  by (rule parse_ip_name) (simp_all add: digit_value_def)

lemma sample_pinned:
  "pinned_client (\<lambda>_ _. Some [sample_addr 34, sample_addr 34, sample_addr 35]) (\<lambda>_. None) sample_url False 5 =
   Inr \<lparr>cl_follow_redirects = False, cl_use_proxy = False, cl_connect_timeout = 5, cl_timeout = 5,
        cl_host = ''hooks.test'', cl_addresses = [sample_addr 34, sample_addr 35]\<rparr>"
  by (simp add: pinned_client_def sample_url_def normalized_host_def sample_host max_resolved_addresses_def
    sample_addr_def is_private_or_special_def ipv4_private_or_special_def v4_is_private_def v4_is_loopback_def
    v4_is_link_local_def v4_is_broadcast_def v4_is_documentation_def v4_is_unspecified_def v4_is_multicast_def)

theorem pinned_client_checked_witness:
  "\<exists>client. pinned_client (\<lambda>_ _. Some [sample_addr 34, sample_addr 34, sample_addr 35]) (\<lambda>_. None) sample_url False 5
     = Inr client \<and> cl_addresses client \<noteq> [] \<and> distinct (cl_addresses client)
     \<and> length (cl_addresses client) \<le> max_resolved_addresses \<and> \<not> cl_follow_redirects client"
  using pinned_client_checked [OF sample_pinned] sample_pinned by blast

text \<open>
  The bound on DNS answers is applied before the duplicate test: once sixteen distinct addresses
  are collected, any further answer, a repetition included, makes the attempt fail with ``resolves to
  too many addresses'', although there are no more than sixteen addresses.
\<close>

lemma repeated_answer_refused:
  assumes "distinct as" and "length as = max_resolved_addresses" and "a \<in> set as"
  shows "collect_addresses (as @ [a]) [] = Inl (InvalidUrl ''destination resolves to too many addresses'')
    \<and> length (remdups (as @ [a])) = max_resolved_addresses"
proof -
  have "length (remdups (as @ [a])) = card (set (as @ [a]))" by (rule length_remdups_card_conv)
  with assms collect_addresses_distinct [of "[]" as "[a]"] show ?thesis
    by (simp add: distinct_card insert_absorb)
qed

lemma repeated_answer_refused_witness:
  "collect_addresses (map (\<lambda>n. sample_addr (of_nat n)) [0..<16] @ [sample_addr 0]) []
    = Inl (InvalidUrl ''destination resolves to too many addresses'')"
proof -
  have d: "distinct (map (\<lambda>n. sample_addr (of_nat n)) [0..<16])"
    "length (map (\<lambda>n. sample_addr (of_nat n)) [0..<16]) = max_resolved_addresses"
    "sample_addr 0 \<in> set (map (\<lambda>n. sample_addr (of_nat n)) [0..<16])"
    by code_simp+
  show ?thesis using repeated_answer_refused [OF d] by blast
qed

text \<open>
  IPv6 addresses get the IPv4 tests only in the mapped form: the address of an IPv4 loopback host
  in the IPv4-compatible form and a site-local address pass as public destinations.
\<close>

lemma ipv6_special_gaps:
  "\<not> is_private_or_special (V6 (Ipv6Addr [0, 0, 0, 0, 0, 0, 0x7f00, 1]))
   \<and> \<not> is_private_or_special (V6 (Ipv6Addr [0xfec0, 0, 0, 0, 0, 0, 0, 1]))
   \<and> is_private_or_special (V6 (Ipv6Addr [0, 0, 0, 0, 0, 0xffff, 0x7f00, 1]))"
  by (simp add: is_private_or_special_def ipv6_private_or_special_def ipv4_private_or_special_def
    v6_is_loopback_def v6_is_unspecified_def v6_is_multicast_def to_ipv4_mapped_def v4_is_loopback_def)

end
