(* ===== verification/Webhook_Worker.thy ===== *)
theory Webhook_Worker
  imports Webhook_Security Wire Publish Router_Props
begin

text \<open>
  Webhook configuration (\<open>router-webhook/src/config.rs\<close>) and the volatile worker
  (\<open>router-webhook/src/manager.rs\<close>): one destination, its bounded queue, its attempts with exponential
  backoff, and the manager that supervises the workers. Header parsing, HMAC, the HTTP exchange, DNS
  and the clock are the record \<open>HttpEnv\<close>; what varies between attempts is indexed by the attempt
  number. A \<open>Duration\<close> is a number of nanoseconds with the saturation of the type written out.
\<close>

subsection \<open>Configuration\<close>

record WebhookDestinationConfig =
  wd_id :: string
  wd_url :: string
  wd_filter :: RouteFilter
  wd_queue_capacity :: nat
  wd_timeout_ms :: u64
  wd_max_attempts :: "32 word"
  wd_initial_backoff_ms :: u64
  wd_max_backoff_ms :: u64
  wd_signing_secret :: "string option"
  wd_headers :: "(string \<times> string) list"
  wd_allowed_hosts :: "string list"
  wd_allowed_ports :: "nat list"
  wd_allow_private_ips :: bool
  wd_allow_http :: bool

datatype WebhookDeliveryMode = Volatile | Durable

record DurableWebhookConfig =
  dc_brokers :: string
  dc_client_id :: string
  dc_group_id :: string
  dc_delivery_topic :: string
  dc_retry_topic :: string
  dc_dead_letter_topic :: string
  dc_delivery_timeout_ms :: u64
  dc_max_record_bytes :: nat
  dc_max_recovery_records :: nat
  dc_properties :: "(string \<times> string) list"

definition durable_webhook_config_default :: DurableWebhookConfig where
  "durable_webhook_config_default =
    \<lparr>dc_brokers = ''localhost:9092'', dc_client_id = ''kafka-edge-router-webhook'',
     dc_group_id = ''kafka-edge-router-webhook'', dc_delivery_topic = ''router.webhook.delivery'',
     dc_retry_topic = ''router.webhook.retry'', dc_dead_letter_topic = ''router.webhook.dead-letter'',
     dc_delivery_timeout_ms = 10000, dc_max_record_bytes = 2097152, dc_max_recovery_records = 10000,
     dc_properties = []\<rparr>"

record WebhookConfig =
  wc_enabled :: bool
  wc_mode :: WebhookDeliveryMode
  wc_durable :: DurableWebhookConfig
  wc_destinations :: "WebhookDestinationConfig list"

definition webhook_config_default :: WebhookConfig where
  "webhook_config_default = \<lparr>wc_enabled = False, wc_mode = Volatile,
     wc_durable = durable_webhook_config_default, wc_destinations = []\<rparr>"

definition webhook_error_display :: "(IpAddr \<Rightarrow> string) \<Rightarrow> WebhookError \<Rightarrow> string" where
  "webhook_error_display show_ip e =
    (case e of
       InvalidUrl r \<Rightarrow> ''invalid webhook URL: '' @ r
     | HostNotAllowed h \<Rightarrow> ''webhook host '' @ h @ '' is not allowed''
     | PrivateAddress ip \<Rightarrow> ''private webhook address '' @ show_ip ip @ '' is not allowed''
     | InvalidHeader name reason \<Rightarrow> ''invalid webhook header '' @ name @ '': '' @ reason
     | Client r \<Rightarrow> ''failed to build webhook client: '' @ r
     | Registration i reason \<Rightarrow> ''failed to register webhook '' @ i @ '': '' @ reason
     | WebhookError.Durable r \<Rightarrow> ''failed to construct durable webhook adapter: '' @ r
     | Worker i reason \<Rightarrow> ''webhook worker '' @ i @ '' failed: '' @ reason)"

subsection \<open>Requests\<close>

record HttpRequest =
  rq_url :: Url
  rq_headers :: "(string \<times> string) list"
  rq_body :: string

text \<open>A response by its status code, or a failure with the three tests the code applies and its text.\<close>

datatype HttpResult = HttpResponse nat | HttpFailure bool bool bool string

record HttpEnv =
  he_url_parse :: "string \<Rightarrow> string + Url"
  he_header_name :: "string \<Rightarrow> string + string"
  he_header_value :: "string \<Rightarrow> string + string"
  he_hmac_hex :: "string \<Rightarrow> string \<Rightarrow> string"
  he_version :: string
  he_show_ip :: "IpAddr \<Rightarrow> string"
  he_status_text :: "nat \<Rightarrow> string"
  he_from_slice :: "string \<Rightarrow> Json option"
  he_base64 :: "string \<Rightarrow> string"
  he_to_vec :: "Json \<Rightarrow> string"
  he_lookup :: "nat \<Rightarrow> string \<Rightarrow> nat \<Rightarrow> SocketAddr list option"
  he_build_error :: "nat \<Rightarrow> PinnedClient \<Rightarrow> string option"
  he_send :: "nat \<Rightarrow> PinnedClient \<Rightarrow> HttpRequest \<Rightarrow> HttpResult"
  he_elapsed :: "nat \<Rightarrow> nat"

definition reserved_headers :: "string list" where
  "reserved_headers = [''host'', ''content-length'', ''content-type'', ''user-agent'', ''idempotency-key'',
     ''x-router-message-id'', ''x-router-attempt'', ''x-router-signature'']"

fun parse_headers :: "HttpEnv \<Rightarrow> (string \<times> string) list \<Rightarrow> WebhookError + (string \<times> string) list" where
  "parse_headers env [] = Inr []"
| "parse_headers env ((name, v) # rest) =
    and_then (map_err (InvalidHeader name) (he_header_name env name)) (\<lambda>parsed_name.
    if parsed_name \<in> set reserved_headers then Inl (InvalidHeader name ''reserved transport header'')
    else
      and_then (map_err (InvalidHeader name) (he_header_value env v)) (\<lambda>parsed_value.
      and_then (parse_headers env rest) (\<lambda>headers. Inr ((parsed_name, parsed_value) # headers))))"

definition is_success :: "nat \<Rightarrow> bool" where
  "is_success code \<longleftrightarrow> 200 \<le> code \<and> code < 300"

definition is_server_error :: "nat \<Rightarrow> bool" where
  "is_server_error code \<longleftrightarrow> 500 \<le> code \<and> code < 600"

definition retryable_status :: "nat \<Rightarrow> bool" where
  "retryable_status code \<longleftrightarrow> code = 408 \<or> code = 425 \<or> code = 429 \<or> is_server_error code"

definition signature :: "HttpEnv \<Rightarrow> string \<Rightarrow> string \<Rightarrow> string" where
  "signature env secret body = ''sha256='' @ he_hmac_hex env secret body"

definition attempt_request ::
  "HttpEnv \<Rightarrow> Url \<Rightarrow> (string \<times> string) list \<Rightarrow> string option \<Rightarrow> string \<Rightarrow> string \<Rightarrow> nat \<Rightarrow> HttpRequest" where
  "attempt_request env url headers signing_secret body message_id attempt =
    \<lparr>rq_url = url,
     rq_headers =
       [(''content-type'', ''application/json''), (''user-agent'', ''kafka-edge-router/'' @ he_version env),
        (''x-router-message-id'', message_id), (''idempotency-key'', message_id),
        (''x-router-attempt'', show_nat attempt)]
       @ headers
       @ (case signing_secret of None \<Rightarrow> [] | Some secret \<Rightarrow> [(''x-router-signature'', signature env secret body)]),
     rq_body = body\<rparr>"

subsection \<open>The worker\<close>

record WebhookWorker =
  ww_id :: string
  ww_url :: Url
  ww_allow_private_ips :: bool
  ww_timeout :: nat
  ww_headers :: "(string \<times> string) list"
  ww_signing_secret :: "string option"
  ww_max_attempts :: nat
  ww_initial_backoff :: nat
  ww_max_backoff :: nat
  ww_connection_id :: connection_id

definition from_millis :: "nat \<Rightarrow> nat" where
  "from_millis ms = ms * 1000000"

definition duration_max :: nat where
  "duration_max = 2 ^ 64 * 1000000000 - 1"

definition duration_saturating_mul :: "nat \<Rightarrow> nat \<Rightarrow> nat" where
  "duration_saturating_mul d k = min (d * k) duration_max"

text \<open>The connection of the destination with its one subscription; a failure takes the registration back.\<close>

definition worker_register ::
  "'c mpsc_ops \<Rightarrow> connection_id \<Rightarrow> WebhookDestinationConfig \<Rightarrow> 'c Router
   \<Rightarrow> (WebhookError + connection_id) \<times> 'c Router" where
  "worker_register ops fresh config r =
    (case register_connection ops fresh (rf_tenant_id (wd_filter config)) HttpWebhook
            (Some (wd_queue_capacity config)) r of
       (Inl e, r) \<Rightarrow> (Inl (Registration (wd_id config) (core_error_display e)), r)
     | (Inr connection_id, r) \<Rightarrow>
       (case subscription_id_new (''webhook:'' @ wd_id config) of
          Inl e \<Rightarrow> (Inl (Registration (wd_id config) (core_error_display e)), unregister_connection connection_id r)
        | Inr subscription_id \<Rightarrow>
          (case subscribe connection_id subscription_id (wd_filter config) r of
             (Inl e, r) \<Rightarrow>
               (Inl (Registration (wd_id config) (core_error_display e)), unregister_connection connection_id r)
           | (Inr _, r) \<Rightarrow> (Inr connection_id, r))))"

definition worker_new ::
  "HttpEnv \<Rightarrow> 'c mpsc_ops \<Rightarrow> connection_id \<Rightarrow> WebhookDestinationConfig \<Rightarrow> 'c Router
   \<Rightarrow> (WebhookError + WebhookWorker) \<times> 'c Router" where
  "worker_new env ops fresh config r =
    (case and_then (validate_destination_url (he_url_parse env) (wd_url config) (wd_allowed_hosts config)
             (wd_allow_private_ips config) (wd_allow_http config)) (\<lambda>url.
          and_then (validate_destination_port url (wd_allowed_ports config)) (\<lambda>_.
          and_then (parse_headers env (wd_headers config)) (\<lambda>headers. Inr (url, headers)))) of
       Inl e \<Rightarrow> (Inl e, r)
     | Inr (url, headers) \<Rightarrow>
       (case worker_register ops fresh config r of
          (Inl e, r) \<Rightarrow> (Inl e, r)
        | (Inr connection_id, r) \<Rightarrow>
            (Inr \<lparr>ww_id = wd_id config, ww_url = url, ww_allow_private_ips = wd_allow_private_ips config,
                  ww_timeout = from_millis (max (unat (wd_timeout_ms config)) 1), ww_headers = headers,
                  ww_signing_secret = wd_signing_secret config,
                  ww_max_attempts = max (unat (wd_max_attempts config)) 1,
                  ww_initial_backoff = from_millis (max (unat (wd_initial_backoff_ms config)) 1),
                  ww_max_backoff = from_millis (max (unat (wd_max_backoff_ms config))
                    (max (unat (wd_initial_backoff_ms config)) 1)),
                  ww_connection_id = connection_id\<rparr>, r)))"

datatype AttemptResult = Delivered nat | Retryable string | Permanent string

definition send_attempt :: "HttpEnv \<Rightarrow> WebhookWorker \<Rightarrow> string \<Rightarrow> string \<Rightarrow> nat \<Rightarrow> AttemptResult" where
  "send_attempt env w body message_id attempt =
    (case pinned_client (he_lookup env attempt) (he_build_error env attempt) (ww_url w)
            (ww_allow_private_ips w) (ww_timeout w) of
       Inl e \<Rightarrow> Permanent (webhook_error_display (he_show_ip env) e)
     | Inr client \<Rightarrow>
       (case he_send env attempt client
               (attempt_request env (ww_url w) (ww_headers w) (ww_signing_secret w) body message_id attempt) of
          HttpResponse code \<Rightarrow>
            if is_success code then Delivered code
            else if retryable_status code then Retryable (''HTTP '' @ he_status_text env code)
            else Permanent (''HTTP '' @ he_status_text env code)
        | HttpFailure is_timeout is_connect is_request text \<Rightarrow>
            if is_timeout \<or> is_connect \<or> is_request then Retryable text else Permanent text))"

datatype DeliverEvent = Attempted nat AttemptResult | Slept nat

text \<open>\<open>for attempt in 1..=max_attempts\<close>: the first argument list holds the attempts still to come.\<close>

fun deliver_loop ::
  "HttpEnv \<Rightarrow> WebhookWorker \<Rightarrow> string \<Rightarrow> string \<Rightarrow> nat list \<Rightarrow> nat \<Rightarrow> Metrics \<Rightarrow> Metrics \<times> DeliverEvent list" where
  "deliver_loop env w body message_id [] delay m = (m, [])"
| "deliver_loop env w body message_id (attempt # rest) delay m =
    (let m = record_webhook_attempt m;
         outcome = send_attempt env w body message_id attempt;
         m = record_latency LatencyStage.WebhookAttempt (he_elapsed env attempt) m
     in case outcome of
          Delivered code \<Rightarrow> (record_webhook_success m, [Attempted attempt outcome])
        | Permanent reason \<Rightarrow> (record_webhook_failure m, [Attempted attempt outcome])
        | Retryable reason \<Rightarrow>
            if attempt < ww_max_attempts w then
              (case deliver_loop env w body message_id rest
                      (min (duration_saturating_mul delay 2) (ww_max_backoff w)) m of
                 (m, evs) \<Rightarrow> (m, Attempted attempt outcome # Slept delay # evs))
            else (record_webhook_failure m, [Attempted attempt outcome]))"

definition deliver :: "HttpEnv \<Rightarrow> WebhookWorker \<Rightarrow> Delivery \<Rightarrow> Metrics \<Rightarrow> Metrics \<times> DeliverEvent list" where
  "deliver env w d m =
    deliver_loop env w (encode_delivery_json (he_from_slice env) (he_base64 env) (he_to_vec env) d)
      (md_message_id (rm_metadata (dv_message d))) [1..<Suc (ww_max_attempts w)] (ww_initial_backoff w) m"

text \<open>
  The loop of \<open>run\<close>, driven by events: a change of the shutdown flag (\<open>None\<close> when its sender is gone), a
  received delivery, or the end of the queue with the value of the flag. The result is \<open>None\<close> while the
  worker runs. Dropping the worker unregisters its connection.
\<close>

datatype WorkerEvent = WorkerShutdown "bool option" | WorkerDelivery Delivery | WorkerQueueClosed bool

definition worker_step ::
  "HttpEnv \<Rightarrow> WebhookWorker \<Rightarrow> WorkerEvent \<Rightarrow> (string + unit) option \<times> 'c Router
   \<Rightarrow> (string + unit) option \<times> 'c Router" where
  "worker_step env w ev s =
    (case s of
       (Some result, r) \<Rightarrow> (Some result, r)
     | (None, r) \<Rightarrow>
       (case ev of
          WorkerShutdown flag \<Rightarrow> (if flag = None \<or> flag = Some True then Some (Inr ()) else None, r)
        | WorkerQueueClosed shutdown \<Rightarrow>
            (Some (if shutdown then Inr () else Inl ''core delivery queue closed''), r)
        | WorkerDelivery d \<Rightarrow> (None, r\<lparr>rt_metrics := fst (deliver env w d (rt_metrics r))\<rparr>)))"

definition worker_drop :: "WebhookWorker \<Rightarrow> 'c Router \<Rightarrow> 'c Router" where
  "worker_drop w r = unregister_connection (ww_connection_id w) r"

text \<open>
  The supervision loop over finished tasks: the outcome of each (\<open>None\<close> when it panicked, with the text
  of the join error) and the value of the shutdown flag at that time. The first unexpected end is the
  result of the manager.
\<close>

datatype TaskOutcome = TaskResult "WebhookError + unit" | TaskPanicked string

fun join_tasks :: "(TaskOutcome \<times> bool) list \<Rightarrow> WebhookError + unit" where
  "join_tasks [] = Inr ()"
| "join_tasks ((TaskResult (Inr _), shutdown) # rest) =
    (if shutdown then join_tasks rest else Inl (Worker ''unknown'' ''worker exited before shutdown''))"
| "join_tasks ((TaskResult (Inl e), _) # rest) = Inl e"
| "join_tasks ((TaskPanicked text, _) # rest) = Inl (Worker ''unknown'' text)"

subsection \<open>Attempts and backoff\<close>

definition retryable :: "AttemptResult \<Rightarrow> bool" where
  "retryable a \<longleftrightarrow> (case a of Retryable _ \<Rightarrow> True | _ \<Rightarrow> False)"

definition delivered :: "AttemptResult \<Rightarrow> bool" where
  "delivered a \<longleftrightarrow> (case a of Delivered _ \<Rightarrow> True | _ \<Rightarrow> False)"

lemma outcome_simps [simp]:
  "\<not> retryable (Delivered c)" "\<not> retryable (Permanent p)" "retryable (Retryable p)"
  "delivered (Delivered c)" "\<not> delivered (Permanent p)" "\<not> delivered (Retryable p)"
  by (simp_all add: retryable_def delivered_def)

text \<open>The wait after attempt \<open>i\<close>.\<close>

definition backoff :: "WebhookWorker \<Rightarrow> nat \<Rightarrow> nat" where
  "backoff w i = min (ww_initial_backoff w * 2 ^ (i - 1)) (ww_max_backoff w)"

definition worker_wf :: "WebhookWorker \<Rightarrow> bool" where
  "worker_wf w \<longleftrightarrow> 1 \<le> ww_max_attempts w \<and> 0 < ww_initial_backoff w
    \<and> ww_initial_backoff w \<le> ww_max_backoff w \<and> ww_max_backoff w \<le> duration_max
    \<and> list_all (\<lambda>h. fst h \<notin> set reserved_headers) (ww_headers w)"

lemma backoff_first: "worker_wf w \<Longrightarrow> backoff w 1 = ww_initial_backoff w"
  by (simp add: backoff_def worker_wf_def)

lemma backoff_next:
  "worker_wf w \<Longrightarrow> 1 \<le> i \<Longrightarrow> min (duration_saturating_mul (backoff w i) 2) (ww_max_backoff w) = backoff w (Suc i)"
  by (cases i) (auto simp: backoff_def worker_wf_def duration_saturating_mul_def min_def)

text \<open>The counters of one delivery with \<open>k\<close> attempts and a last outcome.\<close>

definition webhook_counted :: "Metrics \<Rightarrow> nat \<Rightarrow> AttemptResult \<Rightarrow> Metrics \<Rightarrow> bool" where
  "webhook_counted m k outcome m' \<longleftrightarrow>
    mt_webhook_attempts m' = mt_webhook_attempts m + of_nat k
    \<and> mt_webhook_successes m' = mt_webhook_successes m + (if delivered outcome then 1 else 0)
    \<and> mt_webhook_failures m' = mt_webhook_failures m + (if delivered outcome then 0 else 1)"

lemma deliver_loop_shape:
  assumes "worker_wf w" "1 \<le> a" "a \<le> ww_max_attempts w"
  shows "\<exists>k\<ge>a. k \<le> ww_max_attempts w
    \<and> list_all (\<lambda>i. retryable (send_attempt env w body mid i)) [a..<k]
    \<and> (retryable (send_attempt env w body mid k) \<longrightarrow> k = ww_max_attempts w)
    \<and> snd (deliver_loop env w body mid [a..<Suc (ww_max_attempts w)] (backoff w a) m) =
        concat (map (\<lambda>i. [Attempted i (send_attempt env w body mid i), Slept (backoff w i)]) [a..<k])
        @ [Attempted k (send_attempt env w body mid k)]
    \<and> webhook_counted m (Suc k - a) (send_attempt env w body mid k)
        (fst (deliver_loop env w body mid [a..<Suc (ww_max_attempts w)] (backoff w a) m))"
  using assms(2,3)
proof (induction "ww_max_attempts w - a" arbitrary: a m)
  case (0 a m)
  then have a: "a = ww_max_attempts w" by simp
  show ?case
    by (rule exI [of _ a], cases "send_attempt env w body mid a")
      (simp_all add: a webhook_counted_def record_webhook_attempt_def record_webhook_success_def
        record_webhook_failure_def record_latency_def Let_def)
next
  case (Suc n a m)
  then have lt: "a < ww_max_attempts w" by simp
  then have upt: "[a..<Suc (ww_max_attempts w)] = a # [Suc a..<Suc (ww_max_attempts w)]"
    by (simp add: upt_conv_Cons)
  show ?case
  proof (cases "send_attempt env w body mid a")
    case (Retryable reason)
    define m1 where "m1 = record_latency LatencyStage.WebhookAttempt (he_elapsed env a) (record_webhook_attempt m)"
    have rest: "n = ww_max_attempts w - Suc a" "1 \<le> Suc a" "Suc a \<le> ww_max_attempts w"
      using Suc.hyps(2) lt by simp_all
    obtain k where k: "Suc a \<le> k" "k \<le> ww_max_attempts w"
        "list_all (\<lambda>i. retryable (send_attempt env w body mid i)) [Suc a..<k]"
        "retryable (send_attempt env w body mid k) \<longrightarrow> k = ww_max_attempts w"
        "snd (deliver_loop env w body mid [Suc a..<Suc (ww_max_attempts w)] (backoff w (Suc a)) m1) =
          concat (map (\<lambda>i. [Attempted i (send_attempt env w body mid i), Slept (backoff w i)]) [Suc a..<k])
          @ [Attempted k (send_attempt env w body mid k)]"
        "webhook_counted m1 (Suc k - Suc a) (send_attempt env w body mid k)
          (fst (deliver_loop env w body mid [Suc a..<Suc (ww_max_attempts w)] (backoff w (Suc a)) m1))"
      using Suc.hyps(1) [of "Suc a" m1] rest by blast
    have "deliver_loop env w body mid [a..<Suc (ww_max_attempts w)] (backoff w a) m =
      (fst (deliver_loop env w body mid [Suc a..<Suc (ww_max_attempts w)] (backoff w (Suc a)) m1),
       Attempted a (Retryable reason) # Slept (backoff w a)
       # snd (deliver_loop env w body mid [Suc a..<Suc (ww_max_attempts w)] (backoff w (Suc a)) m1))"
      using lt assms(1) Suc.prems(1) unfolding upt
      by (simp del: upt_Suc add: Retryable Let_def backoff_next m1_def split: prod.split)
    moreover have "webhook_counted m (Suc k - a) (send_attempt env w body mid k) x"
      if "webhook_counted m1 (Suc k - Suc a) (send_attempt env w body mid k) x" for x
    proof -
      have "Suc k - a = Suc (Suc k - Suc a)" using k(1) by simp
      then show ?thesis using that
        by (simp add: webhook_counted_def m1_def record_latency_def record_webhook_attempt_def algebra_simps)
    qed
    ultimately show ?thesis using k Retryable
      by (intro exI [of _ k]) (simp add: upt_conv_Cons del: upt_Suc)
  qed (use lt in \<open>intro exI [of _ a], simp add: upt webhook_counted_def record_webhook_attempt_def
      record_webhook_success_def record_webhook_failure_def record_latency_def Let_def del: upt_Suc\<close>)+
qed

lemma worker_new_wf:
  assumes "fst (worker_new env ops fresh config r) = Inr w"
  shows "worker_wf w"
proof -
  have headers: "parse_headers env hs = Inr hs' \<Longrightarrow> list_all (\<lambda>h. fst h \<notin> set reserved_headers) hs'" for hs hs'
    by (induction env hs arbitrary: hs' rule: parse_headers.induct) (auto simp: result_simps split: if_splits)
  have small: "unat (x :: u64) < 2 ^ 64" for x using unsigned_less [of x, where ?'a = nat] by simp
  have "max (unat a) (max (unat b) 1) * 1000000 \<le> duration_max" for a b :: u64
    using small [of a] small [of b] by (auto simp: duration_max_def max_def)
  with assms headers show ?thesis
    by (auto simp: worker_new_def worker_wf_def from_millis_def result_simps split: sum.splits prod.splits)
qed

subsection \<open>Construction\<close>

text \<open>Taking back a registration that has no subscription yet restores the connections and the index.\<close>

lemma registered_simps [simp]:
  "rt_config (registered ops fresh t p n r) = rt_config r"
  "rt_routes (registered ops fresh t p n r) = rt_routes r"
  by (simp_all add: registered_def)

lemma map_of_registered:
  "map_of (rt_connections (registered ops fresh t p n r)) fresh =
    Some \<lparr>cs_tenant_id = t, cs_protocol = p, cs_sender = ch_channel ops n, cs_subscriptions = [], cs_full_strikes = 0\<rparr>"
  by (simp add: registered_def alist_simps)

lemma unregister_registered:
  assumes "map_of (rt_connections r) fresh = None"
    and "rt_connections r' = rt_connections (registered ops fresh t p n r)" and "rt_routes r' = rt_routes r"
  shows "rt_connections (unregister_connection fresh r') = rt_connections r"
    and "rt_routes (unregister_connection fresh r') = rt_routes r"
  using assms by (simp_all add: unregister_connection_def registered_def alist_update_fresh
    alist_delete_snoc remove_all_from_route_def map_add_def)

lemma worker_register_cases:
  assumes "map_of (rt_connections r) fresh = None" and w: "worker_register ops fresh config r = (res, r')"
  shows "case res of
      Inl e \<Rightarrow> rt_connections r' = rt_connections r \<and> rt_routes r' = rt_routes r
    | Inr c \<Rightarrow> c = fresh \<and>
        (\<exists>cs. map_of (rt_connections r') fresh = Some cs \<and> cs_protocol cs = HttpWebhook
          \<and> cs_subscriptions cs = [(SubscriptionId (''webhook:'' @ wd_id config), wd_filter config)])"
proof -
  obtain reg r1 where reg: "register_connection ops fresh (rf_tenant_id (wd_filter config)) HttpWebhook
      (Some (wd_queue_capacity config)) r = (reg, r1)" by fastforce
  show ?thesis
  proof (cases reg)
    case (Inl e)
    with w reg register_connection_Inl [OF reg [unfolded Inl]] show ?thesis by (auto simp: worker_register_def)
  next
    case (Inr c)
    note undo = unregister_registered [OF assms(1)]
    have r1: "c = fresh" "r1 = registered ops fresh (rf_tenant_id (wd_filter config)) HttpWebhook
        (queue_request (Some (wd_queue_capacity config)) r) r"
      using reg unfolding Inr register_connection_Inr by blast+
    show ?thesis
    proof (cases "subscription_id_new (''webhook:'' @ wd_id config)")
      case (Inl e)
      with w reg Inr r1 undo show ?thesis by (auto simp: worker_register_def)
    next
      case (Inr sid)
      then have sid: "sid = SubscriptionId (''webhook:'' @ wd_id config)"
        by (simp add: subscription_id_new_def result_simps)
      obtain sub r2 where sub: "subscribe c sid (wd_filter config) r1 = (sub, r2)" by fastforce
      have w': "(res, r') = (case sub of Inl e \<Rightarrow> (Inl (Registration (wd_id config) (core_error_display e)),
          unregister_connection c r2) | Inr _ \<Rightarrow> (Inr c, r2))"
        using w reg \<open>reg = Inr c\<close> Inr sub by (simp add: worker_register_def split: sum.splits)
      show ?thesis
      proof (cases sub)
        case (Inl e)
        with subscribe_Inl [OF sub [unfolded Inl]] r1
        have "rt_connections r2 = rt_connections r1" "rt_routes r2 = rt_routes r" by auto
        with w' Inl r1 undo show ?thesis by auto
      next
        case (Inr u)
        with sub w' r1 sid show ?thesis
          by (auto simp: subscribe_Inr map_of_registered with_subscription_def alist_simps)
      qed
    qed
  qed
qed

subsection \<open>Properties\<close>

text \<open>
  Starting a webhook worker is atomic for the router: when it fails, for whatever reason, the
  connections and the index are what they were; when it succeeds, the worker owns one new connection
  with exactly the configured filter.
\<close>

lemma worker_new_atomic:
  assumes "map_of (rt_connections r) fresh = None"
  shows "case worker_new env ops fresh config r of
      (Inl e, r') \<Rightarrow> rt_connections r' = rt_connections r \<and> rt_routes r' = rt_routes r
    | (Inr w, r') \<Rightarrow> ww_connection_id w = fresh \<and>
        (\<exists>cs. map_of (rt_connections r') fresh = Some cs \<and> cs_protocol cs = HttpWebhook
          \<and> cs_subscriptions cs = [(SubscriptionId (''webhook:'' @ wd_id config), wd_filter config)])"
proof -
  obtain res r' where w: "worker_register ops fresh config r = (res, r')" by fastforce
  show ?thesis using worker_register_cases [OF assms w]
    by (auto simp: worker_new_def w split: sum.splits prod.splits)
qed

definition delivery_attempt :: "HttpEnv \<Rightarrow> WebhookWorker \<Rightarrow> Delivery \<Rightarrow> nat \<Rightarrow> AttemptResult" where
  "delivery_attempt env w d =
    send_attempt env w (encode_delivery_json (he_from_slice env) (he_base64 env) (he_to_vec env) d)
      (md_message_id (rm_metadata (dv_message d)))"

text \<open>
  C23. The life of one volatile delivery: attempts are numbered from one, never more than the
  configured maximum; all but the last had a retryable outcome, and the last either had not or was
  the maximum. After attempt \<open>i\<close> the worker waits the initial backoff doubled \<open>i - 1\<close> times, capped at
  the maximum. Every attempt is counted, and the delivery once, as a success or as a failure.
\<close>

theorem deliver_attempts:
  assumes "fst (worker_new env ops fresh config r) = Inr w"
  shows "\<exists>k. 1 \<le> k \<and> k \<le> ww_max_attempts w
    \<and> list_all (\<lambda>i. retryable (delivery_attempt env w d i)) [1..<k]
    \<and> (retryable (delivery_attempt env w d k) \<longrightarrow> k = ww_max_attempts w)
    \<and> snd (deliver env w d m) =
        concat (map (\<lambda>i. [Attempted i (delivery_attempt env w d i),
            Slept (min (ww_initial_backoff w * 2 ^ (i - 1)) (ww_max_backoff w))]) [1..<k])
        @ [Attempted k (delivery_attempt env w d k)]
    \<and> webhook_counted m k (delivery_attempt env w d k) (fst (deliver env w d m))"
proof -
  have wf: "worker_wf w" using assms(1) by (rule worker_new_wf)
  then have "1 \<le> ww_max_attempts w" by (simp add: worker_wf_def)
  from deliver_loop_shape [OF wf order.refl this] backoff_first [OF wf]
  show ?thesis by (simp add: delivery_attempt_def deliver_def backoff_def del: upt_Suc)
qed

definition sample_http :: HttpEnv where
  "sample_http = \<lparr>he_url_parse = (\<lambda>_. Inr sample_url), he_header_name = Inr, he_header_value = Inr,
     he_hmac_hex = (\<lambda>_ _. ''00ff''), he_version = ''1'', he_show_ip = (\<lambda>_. []), he_status_text = show_nat,
     he_from_slice = (\<lambda>_. None), he_base64 = id, he_to_vec = (\<lambda>_. ''{}''),
     he_lookup = (\<lambda>_ _ _. Some [sample_addr 34]), he_build_error = (\<lambda>_ _. None),
     he_send = (\<lambda>attempt _ _. HttpResponse (if attempt < 3 then 503 else 200)), he_elapsed = (\<lambda>_. 0)\<rparr>"

definition sample_destination :: WebhookDestinationConfig where
  "sample_destination = \<lparr>wd_id = ''billing'', wd_url = ''https://hooks.test/'', wd_filter = sample_filter,
     wd_queue_capacity = 4, wd_timeout_ms = 5000, wd_max_attempts = 5, wd_initial_backoff_ms = 250,
     wd_max_backoff_ms = 30000, wd_signing_secret = Some ''k'', wd_headers = [(''x-team'', ''a'')],
     wd_allowed_hosts = [], wd_allowed_ports = [], wd_allow_private_ips = False, wd_allow_http = False\<rparr>"

definition sample_worker :: WebhookWorker where
  "sample_worker = \<lparr>ww_id = ''billing'', ww_url = sample_url, ww_allow_private_ips = False, ww_timeout = 5000000000,
     ww_headers = [(''x-team'', ''a'')], ww_signing_secret = Some ''k'', ww_max_attempts = 5,
     ww_initial_backoff = 250000000, ww_max_backoff = 30000000000, ww_connection_id = 9\<rparr>"

lemma sample_checks:
  "validate_destination_url (he_url_parse sample_http) ''https://hooks.test/'' [] False False = Inr sample_url"
  "validate_destination_port sample_url [] = Inr ()"
  "parse_headers sample_http [(''x-team'', ''a'')] = Inr [(''x-team'', ''a'')]"
proof -
  have env: "he_url_parse sample_http = (\<lambda>_. Inr sample_url)" "he_header_name sample_http = Inr"
    "he_header_value sample_http = Inr" by (simp_all add: sample_http_def)
  show "validate_destination_url (he_url_parse sample_http) ''https://hooks.test/'' [] False False = Inr sample_url"
    by (simp add: validate_destination_url_def env sample_url_def normalized_host_def sample_host)
  show "validate_destination_port sample_url [] = Inr ()"
    by (simp add: validate_destination_port_def sample_url_def)
  show "parse_headers sample_http [(''x-team'', ''a'')] = Inr [(''x-team'', ''a'')]"
    by (simp add: env reserved_headers_def)
qed

abbreviation sample_joining :: "(nat \<times> Delivery list \<times> bool) Router" where
  "sample_joining \<equiv> registered fifo_ops 9 ''t1'' HttpWebhook 4 (router_new router_config_default)"

lemma sample_join:
  "register_connection fifo_ops 9 ''t1'' HttpWebhook (Some 4) (router_new router_config_default) = (Inr 9, sample_joining)"
  "subscription_id_new ''webhook:billing'' = Inr (SubscriptionId ''webhook:billing'')"
  "fst (subscribe 9 (SubscriptionId ''webhook:billing'') sample_filter sample_joining) = Inr ()"
proof -
  show "register_connection fifo_ops 9 ''t1'' HttpWebhook (Some 4) (router_new router_config_default) = (Inr 9, sample_joining)"
    by (subst register_connection_Inr) (simp add: queue_request_def router_config_default_def router_new_def
      tenant_connections_def is_whitespace_def is_control_def)
  show "subscription_id_new ''webhook:billing'' = Inr (SubscriptionId ''webhook:billing'')"
    by (simp add: validate_simps is_whitespace_def is_control_def)
  have "subscribe 9 (SubscriptionId ''webhook:billing'') sample_filter sample_joining
      = (Inr (), with_subscription 9 \<lparr>cs_tenant_id = ''t1'', cs_protocol = HttpWebhook, cs_sender = (4, [], False),
          cs_subscriptions = [], cs_full_strikes = 0\<rparr> (SubscriptionId ''webhook:billing'') sample_filter sample_joining)"
    by (subst subscribe_Inr)
      (simp add: registered_def router_new_def fifo_ops_def sample_filter_valid total_subscriptions_def
        tenant_subscriptions_def router_config_default_def, simp add: sample_filter_def)
  then show "fst (subscribe 9 (SubscriptionId ''webhook:billing'') sample_filter sample_joining) = Inr ()" by simp
qed

lemma sample_destination_simps:
  "wd_id sample_destination = ''billing''" "wd_filter sample_destination = sample_filter" "rf_tenant_id sample_filter = ''t1''"
  "wd_queue_capacity sample_destination = 4"
  by (simp_all add: sample_destination_def sample_filter_def)

lemma sample_worker_register:
  "fst (worker_register fifo_ops 9 sample_destination (router_new router_config_default)) = Inr 9"
proof -
  obtain r where "subscribe 9 (SubscriptionId ''webhook:billing'') sample_filter sample_joining = (Inr (), r)"
    using sample_join(3) by (metis prod.collapse)
  with sample_join show ?thesis by (simp add: worker_register_def sample_destination_simps)
qed

lemma sample_worker_new:
  "fst (worker_new sample_http fifo_ops 9 sample_destination (router_new router_config_default)) = Inr sample_worker"
proof -
  obtain r where "worker_register fifo_ops 9 sample_destination (router_new router_config_default) = (Inr 9, r)"
    using sample_worker_register by (metis prod.collapse)
  moreover have "wd_url sample_destination = ''https://hooks.test/''" "wd_allowed_hosts sample_destination = []"
    "\<not> wd_allow_private_ips sample_destination" "\<not> wd_allow_http sample_destination"
    "wd_headers sample_destination = [(''x-team'', ''a'')]" "wd_allowed_ports sample_destination = []"
    by (simp_all add: sample_destination_def)
  ultimately show ?thesis
    by (simp add: worker_new_def sample_checks sample_worker_def from_millis_def del: parse_headers.simps)
      (simp add: sample_destination_def)
qed

text \<open>The sample endpoint answers 503 twice and then 200.\<close>

theorem deliver_attempts_witness:
  "\<exists>k. 1 \<le> k \<and> k \<le> ww_max_attempts sample_worker
    \<and> webhook_counted metrics_default k (delivery_attempt sample_http sample_worker sample_delivery k)
        (fst (deliver sample_http sample_worker sample_delivery metrics_default))"
  using deliver_attempts [OF sample_worker_new] by blast

lemma worker_new_atomic_witness:
  "\<exists>r'. snd (worker_new sample_http fifo_ops 9 sample_destination (router_new router_config_default)) = r'
    \<and> (\<exists>cs. map_of (rt_connections r') 9 = Some cs \<and> cs_protocol cs = HttpWebhook)"
proof -
  have "map_of (rt_connections (router_new router_config_default :: (nat \<times> Delivery list \<times> bool) Router)) 9 = None"
    by (simp add: router_new_def)
  from worker_new_atomic [where env = sample_http and ops = fifo_ops and config = sample_destination, OF this] sample_worker_new
  show ?thesis by (auto split: prod.splits sum.splits)
qed

text \<open>
  Configured headers cannot displace the router's own: in every request of a worker the content
  type, the message id, the idempotency key and the attempt number occur exactly once with the values
  the router sets, and a signature occurs exactly when a signing secret is configured.
\<close>

lemma transport_headers_fixed:
  assumes "fst (worker_new env ops fresh config r) = Inr w"
  shows "(let values = (\<lambda>n. map snd (filter (\<lambda>h. fst h = n) (rq_headers
           (attempt_request env (ww_url w) (ww_headers w) (ww_signing_secret w) body mid k))))
     in values ''content-type'' = [''application/json''] \<and> values ''x-router-message-id'' = [mid]
      \<and> values ''idempotency-key'' = [mid] \<and> values ''x-router-attempt'' = [show_nat k]
      \<and> values ''x-router-signature'' = (case ww_signing_secret w of None \<Rightarrow> []
          | Some secret \<Rightarrow> [signature env secret body]))"
proof -
  have "list_all (\<lambda>h. fst h \<notin> set reserved_headers) (ww_headers w)"
    using worker_new_wf [OF assms] by (simp add: worker_wf_def)
  then have "n \<in> set reserved_headers \<Longrightarrow> filter (\<lambda>h. fst h = n) (ww_headers w) = []" for n
    by (auto simp: list_all_iff filter_empty_conv)
  then show ?thesis by (simp add: attempt_request_def reserved_headers_def split: option.split)
qed

lemma transport_headers_fixed_witness:
  "map snd (filter (\<lambda>h. fst h = ''idempotency-key'') (rq_headers
     (attempt_request sample_http (ww_url sample_worker) (ww_headers sample_worker) (ww_signing_secret sample_worker)
       ''{}'' ''m'' 1))) = [''m'']"
  using transport_headers_fixed [OF sample_worker_new, of "''{}''" "''m''" 1] by (simp add: Let_def)

end
