(* ===== verification/Kafka_Decoder.thy ===== *)
theory Kafka_Decoder
  imports Publish
begin

text \<open>
  The record decoder (\<open>router-kafka/src/decoder.rs\<close>). A Kafka record is what the \<open>rdkafka\<close> message
  interface exposes: coordinates, an optional payload, an optional list of headers whose values may
  be null, and an optional timestamp. Routing fields come from headers only.
\<close>

record KafkaRecord =
  kr_topic :: string
  kr_partition :: int
  kr_offset :: int
  kr_timestamp :: "int option"
  kr_key :: "string option"
  kr_payload :: "string option"
  kr_headers :: "(string \<times> string option) list option"

datatype DecodeError =
    MissingHeader string
  | InvalidUtf8 string
  | DuplicateHeader string
  | PayloadTooLarge nat nat
  | InvalidMetadata string

text \<open>
  The loop over the headers. The accumulator is the \<open>Option<Option<&str>>\<close> of the source: \<open>None\<close>
  before the first header of this name, \<open>Some None\<close> after one with a null value.
\<close>

fun header_loop ::
  "string \<Rightarrow> (string \<times> string option) list \<Rightarrow> string option option \<Rightarrow> DecodeError + string option option" where
  "header_loop name [] acc = Inr acc"
| "header_loop name ((key, v) # rest) acc =
    (if eq_ignore_ascii_case key name then
       if acc \<noteq> None then Inl (DuplicateHeader name)
       else (case v of
               None \<Rightarrow> header_loop name rest (Some None)
             | Some bytes \<Rightarrow>
                 (case from_utf8 bytes of
                    None \<Rightarrow> Inl (InvalidUtf8 name)
                  | Some s \<Rightarrow> header_loop name rest (Some (Some s))))
     else header_loop name rest acc)"

definition optional_header :: "KafkaRecord \<Rightarrow> string \<Rightarrow> DecodeError + string option" where
  "optional_header record name =
    (case kr_headers record of
       None \<Rightarrow> Inr None
     | Some headers \<Rightarrow>
         and_then (header_loop name headers None) (\<lambda>v. Inr (case v of None \<Rightarrow> None | Some x \<Rightarrow> x)))"

definition required_header :: "KafkaRecord \<Rightarrow> string \<Rightarrow> DecodeError + string" where
  "required_header record name =
    and_then (optional_header record name) (\<lambda>v. ok_or (MissingHeader name) v)"

definition decode_trace :: "string option \<Rightarrow> string option \<Rightarrow> DecodeError + TraceContext option" where
  "decode_trace traceparent tracestate =
    (case (traceparent, tracestate) of
       (Some tp, ts) \<Rightarrow>
         and_then (map_err (\<lambda>e. InvalidMetadata (core_error_display e)) (trace_context_new tp ts))
           (\<lambda>tc. Inr (Some tc))
     | (None, Some _) \<Rightarrow> Inl (InvalidMetadata ''tracestate requires traceparent'')
     | (None, None) \<Rightarrow> Inr None)"

definition default_message_id :: "KafkaRecord \<Rightarrow> string" where
  "default_message_id record =
    kr_topic record @ '':'' @ show_int (kr_partition record) @ '':'' @ show_int (kr_offset record)"

definition decode_message :: "KafkaRecord \<Rightarrow> nat \<Rightarrow> DecodeError + RoutedMessage" where
  "decode_message record max_payload_bytes =
    (let payload = (case kr_payload record of None \<Rightarrow> [] | Some p \<Rightarrow> p)
     in if length payload > max_payload_bytes then Inl (PayloadTooLarge (length payload) max_payload_bytes)
     else
      and_then (required_header record ''x-tenant-id'') (\<lambda>tenant_id.
      and_then (optional_header record ''x-message-id'') (\<lambda>message_id.
      and_then (optional_header record ''x-content-type'') (\<lambda>content_type.
      and_then (optional_header record ''traceparent'') (\<lambda>traceparent.
      and_then (optional_header record ''tracestate'') (\<lambda>tracestate.
      and_then (decode_trace traceparent tracestate) (\<lambda>trace_context.
      and_then (optional_header record ''x-kind'') (\<lambda>kind.
      and_then (optional_header record ''x-type'') (\<lambda>message_type.
      and_then (optional_header record ''x-channel'') (\<lambda>channel.
      and_then (optional_header record ''x-actor-id'') (\<lambda>actor_id.
      and_then (optional_header record ''x-recipient-type'') (\<lambda>recipient_type.
      and_then (optional_header record ''x-recipient-identity'') (\<lambda>recipient_identity.
      map_err (\<lambda>e. InvalidMetadata (core_error_display e))
        (message_new_with_trace_context
          \<lparr>md_message_id = (case message_id of None \<Rightarrow> default_message_id record | Some i \<Rightarrow> i),
           md_tenant_id = tenant_id, md_kind = kind, md_message_type = message_type,
           md_channel = channel, md_actor_id = actor_id, md_recipient_type = recipient_type,
           md_recipient_identity = recipient_identity,
           md_content_type = (case content_type of None \<Rightarrow> ''application/octet-stream'' | Some c \<Rightarrow> c),
           md_timestamp_ms = kr_timestamp record,
           md_source = Some \<lparr>kp_topic = kr_topic record, kp_partition = kr_partition record,
             kp_offset = kr_offset record\<rparr>\<rparr>
          payload trace_context))))))))))))))"

subsection \<open>Headers\<close>

text \<open>The values of the headers with a name, in record order.\<close>

definition named :: "string \<Rightarrow> (string \<times> string option) list \<Rightarrow> string option list" where
  "named name hs = map snd (filter (\<lambda>(k, v). eq_ignore_ascii_case k name) hs)"

text \<open>
  The result of the loop as a function of these values: more than one is a duplicate, unless the
  first one already was not UTF-8.
\<close>

definition header_result :: "string \<Rightarrow> string option list \<Rightarrow> DecodeError + string option option" where
  "header_result name vs =
    (case vs of
       [] \<Rightarrow> Inr None
     | v # rest \<Rightarrow>
         (case v of
            None \<Rightarrow> if rest = [] then Inr (Some None) else Inl (DuplicateHeader name)
          | Some s \<Rightarrow> if \<not> utf8_valid s then Inl (InvalidUtf8 name)
              else if rest = [] then Inr (Some (Some s)) else Inl (DuplicateHeader name)))"

lemma header_loop_found:
  "header_loop name hs (Some x) = (if named name hs = [] then Inr (Some x) else Inl (DuplicateHeader name))"
  by (induction hs) (auto simp: named_def)

lemma header_loop_result: "header_loop name hs None = header_result name (named name hs)"
proof (induction hs)
  case (Cons h hs)
  obtain k v where h: "h = (k, v)" by (cases h)
  show ?case
  proof (cases "eq_ignore_ascii_case k name")
    case True
    then show ?thesis
      by (simp add: h header_loop_found from_utf8_def header_result_def split: option.split)
        (simp add: named_def)
  next
    case False
    with Cons show ?thesis by (simp add: h named_def)
  qed
qed (simp add: header_result_def named_def)

lemma optional_header_eq:
  "optional_header record name =
    (case kr_headers record of None \<Rightarrow> Inr None
     | Some hs \<Rightarrow>
         (case named name hs of [] \<Rightarrow> Inr None
          | None # rest \<Rightarrow> if rest = [] then Inr None else Inl (DuplicateHeader name)
          | Some s # rest \<Rightarrow> if \<not> utf8_valid s then Inl (InvalidUtf8 name)
              else if rest = [] then Inr (Some s) else Inl (DuplicateHeader name)))"
  by (simp add: optional_header_def header_loop_result header_result_def split: option.split list.split)

lemma optional_header_Some:
  "optional_header record name = Inr (Some s) \<longleftrightarrow>
     (case kr_headers record of None \<Rightarrow> False | Some hs \<Rightarrow> named name hs = [Some s] \<and> utf8_valid s)"
  by (auto simp: optional_header_eq split: option.splits list.splits if_splits)

lemma optional_header_None:
  "optional_header record name = Inr None \<longleftrightarrow>
     (case kr_headers record of None \<Rightarrow> True | Some hs \<Rightarrow> named name hs = [] \<or> named name hs = [None])"
  by (auto simp: optional_header_eq split: option.splits list.splits if_splits)

lemma required_header_Inr:
  "required_header record name = Inr s \<longleftrightarrow> optional_header record name = Inr (Some s)"
  by (auto simp: required_header_def result_simps)

text \<open>
  A header is acceptable when it occurs at most once and its value, if not null, is UTF-8;
  \<open>header_value\<close> is its value then.
\<close>

definition header_ok :: "KafkaRecord \<Rightarrow> string \<Rightarrow> bool" where
  "header_ok record name \<longleftrightarrow>
    (case kr_headers record of None \<Rightarrow> True
     | Some hs \<Rightarrow> (case named name hs of [] \<Rightarrow> True | [None] \<Rightarrow> True | [Some s] \<Rightarrow> utf8_valid s | _ \<Rightarrow> False))"

definition header_value :: "KafkaRecord \<Rightarrow> string \<Rightarrow> string option" where
  "header_value record name =
    (case kr_headers record of None \<Rightarrow> None
     | Some hs \<Rightarrow> (case named name hs of [Some s] \<Rightarrow> Some s | _ \<Rightarrow> None))"

lemma optional_header_Inr:
  "optional_header record name = Inr v \<longleftrightarrow> header_ok record name \<and> v = header_value record name"
  by (auto simp: optional_header_eq header_ok_def header_value_def split: option.splits list.splits if_splits)

lemma required_header_value:
  "required_header record name = Inr s \<longleftrightarrow> header_ok record name \<and> header_value record name = Some s"
  by (auto simp: required_header_Inr optional_header_Inr)

definition routing_headers :: "string list" where
  "routing_headers =
    [''x-tenant-id'', ''x-message-id'', ''x-content-type'', ''traceparent'', ''tracestate'', ''x-kind'',
     ''x-type'', ''x-channel'', ''x-actor-id'', ''x-recipient-type'', ''x-recipient-identity'']"

definition record_payload :: "KafkaRecord \<Rightarrow> string" where
  "record_payload record = (case kr_payload record of None \<Rightarrow> [] | Some p \<Rightarrow> p)"

text \<open>The metadata the headers describe, given the tenant.\<close>

definition header_metadata :: "KafkaRecord \<Rightarrow> string \<Rightarrow> RoutingMetadata" where
  "header_metadata record tenant =
    \<lparr>md_message_id = (case header_value record ''x-message-id'' of None \<Rightarrow> default_message_id record | Some i \<Rightarrow> i),
     md_tenant_id = tenant, md_kind = header_value record ''x-kind'',
     md_message_type = header_value record ''x-type'', md_channel = header_value record ''x-channel'',
     md_actor_id = header_value record ''x-actor-id'',
     md_recipient_type = header_value record ''x-recipient-type'',
     md_recipient_identity = header_value record ''x-recipient-identity'',
     md_content_type = (case header_value record ''x-content-type'' of None \<Rightarrow> ''application/octet-stream'' | Some c \<Rightarrow> c),
     md_timestamp_ms = kr_timestamp record,
     md_source = Some \<lparr>kp_topic = kr_topic record, kp_partition = kr_partition record,
       kp_offset = kr_offset record\<rparr>\<rparr>"

lemma decode_message_Inr:
  "decode_message record limit = Inr m \<longleftrightarrow>
     length (record_payload record) \<le> limit \<and> list_all (header_ok record) routing_headers
     \<and> (case header_value record ''x-tenant-id'' of None \<Rightarrow> False
        | Some tenant \<Rightarrow> metadata_valid (header_metadata record tenant)
            \<and> rm_metadata m = header_metadata record tenant)
     \<and> rm_payload m = record_payload record
     \<and> decode_trace (header_value record ''traceparent'') (header_value record ''tracestate'') = Inr (rm_trace_context m)"
proof -
  have m: "m = \<lparr>rm_metadata = md, rm_payload = p, rm_trace_context = tc\<rparr> \<longleftrightarrow>
      rm_metadata m = md \<and> rm_payload m = p \<and> rm_trace_context m = tc" for md p tc
    by (cases m) auto
  note unfold = decode_message_def Let_def record_payload_def [symmetric] result_simps
    optional_header_Inr required_header_value validate_simps routing_headers_def m
  show ?thesis
  proof (cases "header_value record ''x-tenant-id''")
    case None
    then show ?thesis by (simp add: unfold)
  next
    case (Some tenant)
    then show ?thesis
      by (cases "limit < length (record_payload record)") (auto simp: unfold header_metadata_def)
  qed
qed

end
