(* ===== verification/Kafka_Publisher.thy ===== *)
theory Kafka_Publisher
  imports Kafka_Decoder
begin

text \<open>
  The Kafka producer (\<open>router-kafka/src/publisher.rs\<close>, \<open>config.rs\<close>). Sending a record is done by the
  \<open>rdkafka\<close> crate: \<open>send\<close> is a parameter that yields the delivery coordinates or an error with an
  optional error code. A client configuration is the sequence of its \<open>set\<close> calls; a later call
  overrides an earlier one for the same key, which \<open>effective\<close> reads off.
\<close>

record KafkaConsumerConfig =
  kc_brokers :: string
  kc_group_id :: string
  kc_client_id :: string
  kc_topics :: "string list"
  kc_auto_offset_reset :: string
  kc_max_payload_bytes :: nat
  kc_commit_invalid_messages :: bool
  kc_properties :: "(string \<times> string) list"

definition kafka_consumer_config_default :: KafkaConsumerConfig where
  "kafka_consumer_config_default =
    \<lparr>kc_brokers = ''localhost:9092'', kc_group_id = ''kafka-edge-router-local'',
     kc_client_id = ''kafka-edge-router-consumer'', kc_topics = [''router.input''],
     kc_auto_offset_reset = ''earliest'', kc_max_payload_bytes = 1048576,
     kc_commit_invalid_messages = True, kc_properties = []\<rparr>"

record KafkaProducerConfig =
  kd_enabled :: bool
  kd_brokers :: string
  kd_client_id :: string
  kd_topic :: string
  kd_delivery_timeout_ms :: nat
  kd_properties :: "(string \<times> string) list"

definition kafka_producer_config_default :: KafkaProducerConfig where
  "kafka_producer_config_default =
    \<lparr>kd_enabled = True, kd_brokers = ''localhost:9092'', kd_client_id = ''kafka-edge-router-producer'',
     kd_topic = ''router.input'', kd_delivery_timeout_ms = 10000, kd_properties = []\<rparr>"

definition producer_client_config :: "KafkaProducerConfig \<Rightarrow> (string \<times> string) list" where
  "producer_client_config config =
    kd_properties config @
    [(''bootstrap.servers'', kd_brokers config), (''client.id'', kd_client_id config),
     (''message.timeout.ms'', show_nat (kd_delivery_timeout_ms config)),
     (''enable.idempotence'', ''true''), (''acks'', ''all'')]"

definition consumer_client_config :: "KafkaConsumerConfig \<Rightarrow> (string \<times> string) list" where
  "consumer_client_config config =
    kc_properties config @
    [(''bootstrap.servers'', kc_brokers config), (''group.id'', kc_group_id config),
     (''client.id'', kc_client_id config), (''enable.auto.commit'', ''false''),
     (''enable.auto.offset.store'', ''false''), (''auto.offset.reset'', kc_auto_offset_reset config),
     (''statistics.interval.ms'', ''10000'')]"

definition effective :: "(string \<times> string) list \<Rightarrow> string \<Rightarrow> string option" where
  "effective calls key = map_of (rev calls) key"

datatype RDKafkaErrorCode =
  CodeQueueFull | MessageTimedOut | OperationTimedOut | RequestTimedOut | TimedOutQueue | OtherCode int

record KafkaError =
  ke_code :: "RDKafkaErrorCode option"
  ke_text :: string

definition classify_delivery_error :: "KafkaError \<Rightarrow> PublishError" where
  "classify_delivery_error error =
    (case ke_code error of
       Some CodeQueueFull \<Rightarrow> publish_error_queue_full (ke_text error)
     | Some MessageTimedOut \<Rightarrow> publish_error_timeout (ke_text error)
     | Some OperationTimedOut \<Rightarrow> publish_error_timeout (ke_text error)
     | Some RequestTimedOut \<Rightarrow> publish_error_timeout (ke_text error)
     | Some TimedOutQueue \<Rightarrow> publish_error_timeout (ke_text error)
     | _ \<Rightarrow> publish_error_backend (ke_text error))"

definition kafka_key :: "PublishCommand \<Rightarrow> string" where
  "kafka_key c =
    (case pc_ordering_key c of
       Some k \<Rightarrow> pc_tenant_id c @ '':explicit:'' @ k
     | None \<Rightarrow>
         (case (pc_recipient_type c, pc_recipient_identity c) of
            (Some t, Some i) \<Rightarrow> pc_tenant_id c @ '':'' @ t @ '':'' @ i
          | _ \<Rightarrow> (case pc_channel c of
                   None \<Rightarrow> pc_tenant_id c
                 | Some ch \<Rightarrow> pc_tenant_id c @ '':channel:'' @ ch)))"

definition insert_optional ::
  "string \<Rightarrow> string option \<Rightarrow> (string \<times> string option) list \<Rightarrow> (string \<times> string option) list" where
  "insert_optional key v headers = (case v of Some x \<Rightarrow> headers @ [(key, Some x)] | None \<Rightarrow> headers)"

definition publish_headers :: "PublishCommand \<Rightarrow> (string \<times> string option) list" where
  "publish_headers c =
    (let headers = [(''x-message-id'', Some (pc_message_id c)), (''x-tenant-id'', Some (pc_tenant_id c)),
                    (''x-content-type'', Some (pc_content_type c))];
         headers = insert_optional ''x-kind'' (pc_kind c) headers;
         headers = insert_optional ''x-type'' (pc_message_type c) headers;
         headers = insert_optional ''x-channel'' (pc_channel c) headers;
         headers = insert_optional ''x-actor-id'' (pc_actor_id c) headers;
         headers = insert_optional ''x-recipient-type'' (pc_recipient_type c) headers
     in insert_optional ''x-recipient-identity'' (pc_recipient_identity c) headers)"

record ProducerRecord =
  pp_topic :: string
  pp_key :: string
  pp_payload :: string
  pp_headers :: "(string \<times> string option) list"

definition publish_record_of :: "string \<Rightarrow> PublishCommand \<Rightarrow> ProducerRecord" where
  "publish_record_of topic c =
    \<lparr>pp_topic = topic, pp_key = kafka_key c, pp_payload = pc_payload c, pp_headers = publish_headers c\<rparr>"

definition kafka_publish ::
  "(string \<Rightarrow> (string \<times> string) option) \<Rightarrow> (ProducerRecord \<Rightarrow> KafkaError + int \<times> int)
   \<Rightarrow> string \<Rightarrow> PublishCommand \<Rightarrow> PublishError + PublishReceipt" where
  "kafka_publish mime_parse send topic c =
    and_then (command_validate mime_parse c) (\<lambda>_.
    and_then (map_err classify_delivery_error (send (publish_record_of topic c))) (\<lambda>(part, offset).
    Inr \<lparr>pr_message_id = pc_message_id c, pr_topic = topic, pr_partition = part, pr_offset = offset\<rparr>))"

subsection \<open>Delivery guarantees cannot be configured away\<close>

lemma effective_last: "effective (xs @ ys) k = (case effective ys k of None \<Rightarrow> effective xs k | Some v \<Rightarrow> Some v)"
  by (simp add: effective_def map_add_def split: option.split)

text \<open>
  Free-form properties cannot weaken the delivery guarantees: whatever they set, the producer is
  idempotent and waits for all replicas, the consumer neither commits nor stores offsets on its own,
  and both keep the configured identity.
\<close>

lemma client_guarantees:
  "effective (producer_client_config p) ''enable.idempotence'' = Some ''true''
   \<and> effective (producer_client_config p) ''acks'' = Some ''all''
   \<and> effective (producer_client_config p) ''client.id'' = Some (kd_client_id p)
   \<and> effective (consumer_client_config c) ''enable.auto.commit'' = Some ''false''
   \<and> effective (consumer_client_config c) ''enable.auto.offset.store'' = Some ''false''
   \<and> effective (consumer_client_config c) ''group.id'' = Some (kc_group_id c)"
  by (simp add: producer_client_config_def consumer_client_config_def effective_last)
    (simp add: effective_def)

subsection \<open>Publishing and decoding are inverse\<close>

text \<open>The strings of a command are Rust strings, that is, well-formed UTF-8.\<close>

definition opt_utf8 :: "string option \<Rightarrow> bool" where
  "opt_utf8 v \<longleftrightarrow> (case v of None \<Rightarrow> True | Some s \<Rightarrow> utf8_valid s)"

definition command_utf8 :: "PublishCommand \<Rightarrow> bool" where
  "command_utf8 c \<longleftrightarrow>
    utf8_valid (pc_message_id c) \<and> utf8_valid (pc_tenant_id c) \<and> utf8_valid (pc_content_type c)
    \<and> opt_utf8 (pc_kind c) \<and> opt_utf8 (pc_message_type c) \<and> opt_utf8 (pc_channel c)
    \<and> opt_utf8 (pc_actor_id c) \<and> opt_utf8 (pc_recipient_type c) \<and> opt_utf8 (pc_recipient_identity c)"

text \<open>The record a consumer receives for a produced record at some coordinates.\<close>

definition consumed :: "ProducerRecord \<Rightarrow> int \<Rightarrow> int \<Rightarrow> int option \<Rightarrow> KafkaRecord" where
  "consumed p part offset timestamp =
    \<lparr>kr_topic = pp_topic p, kr_partition = part, kr_offset = offset, kr_timestamp = timestamp,
     kr_key = Some (pp_key p), kr_payload = Some (pp_payload p), kr_headers = Some (pp_headers p)\<rparr>"

lemma named_insert_optional:
  "named n (insert_optional k v hs) = named n hs @ (if eq_ignore_ascii_case k n then map Some (case v of None \<Rightarrow> [] | Some x \<Rightarrow> [x]) else [])"
  by (simp add: named_def insert_optional_def split: option.split)

lemma named_Cons:
  "named n ((k, v) # hs) = (if eq_ignore_ascii_case k n then v # named n hs else named n hs)" "named n [] = []"
  by (simp_all add: named_def)

text \<open>The header names are lower case, so comparing them without case compares them.\<close>

definition lower_case :: "string \<Rightarrow> bool" where
  "lower_case s \<longleftrightarrow> map to_ascii_lowercase s = s"

lemma eq_ignore_lower_case: "lower_case a \<Longrightarrow> lower_case b \<Longrightarrow> eq_ignore_ascii_case a b \<longleftrightarrow> a = b"
  by (simp add: eq_ignore_ascii_case_def lower_case_def)

lemma header_names_lower_case [simp]:
  "lower_case ''x-tenant-id''" "lower_case ''x-message-id''" "lower_case ''x-content-type''"
  "lower_case ''traceparent''" "lower_case ''tracestate''" "lower_case ''x-kind''" "lower_case ''x-type''"
  "lower_case ''x-channel''" "lower_case ''x-actor-id''" "lower_case ''x-recipient-type''"
  "lower_case ''x-recipient-identity''"
  by (simp_all add: lower_case_def to_ascii_lowercase_def)

lemma named_publish_headers:
  "named ''x-tenant-id'' (publish_headers c) = [Some (pc_tenant_id c)]"
  "named ''x-message-id'' (publish_headers c) = [Some (pc_message_id c)]"
  "named ''x-content-type'' (publish_headers c) = [Some (pc_content_type c)]"
  "named ''traceparent'' (publish_headers c) = []"
  "named ''tracestate'' (publish_headers c) = []"
  "named ''x-kind'' (publish_headers c) = map Some (case pc_kind c of None \<Rightarrow> [] | Some x \<Rightarrow> [x])"
  "named ''x-type'' (publish_headers c) = map Some (case pc_message_type c of None \<Rightarrow> [] | Some x \<Rightarrow> [x])"
  "named ''x-channel'' (publish_headers c) = map Some (case pc_channel c of None \<Rightarrow> [] | Some x \<Rightarrow> [x])"
  "named ''x-actor-id'' (publish_headers c) = map Some (case pc_actor_id c of None \<Rightarrow> [] | Some x \<Rightarrow> [x])"
  "named ''x-recipient-type'' (publish_headers c) = map Some (case pc_recipient_type c of None \<Rightarrow> [] | Some x \<Rightarrow> [x])"
  "named ''x-recipient-identity'' (publish_headers c) = map Some (case pc_recipient_identity c of None \<Rightarrow> [] | Some x \<Rightarrow> [x])"
  by (simp_all add: publish_headers_def named_insert_optional named_Cons eq_ignore_lower_case)

lemma consumed_headers:
  assumes "command_utf8 c" and "r = consumed (publish_record_of topic c) p off t"
  shows "list_all (header_ok r) routing_headers"
    and "header_value r ''x-tenant-id'' = Some (pc_tenant_id c)"
    and "header_value r ''x-message-id'' = Some (pc_message_id c)"
    and "header_value r ''x-content-type'' = Some (pc_content_type c)"
    and "header_value r ''traceparent'' = None" and "header_value r ''tracestate'' = None"
    and "header_value r ''x-kind'' = pc_kind c" and "header_value r ''x-type'' = pc_message_type c"
    and "header_value r ''x-channel'' = pc_channel c" and "header_value r ''x-actor-id'' = pc_actor_id c"
    and "header_value r ''x-recipient-type'' = pc_recipient_type c"
    and "header_value r ''x-recipient-identity'' = pc_recipient_identity c"
  using assms
  by (simp_all add: routing_headers_def header_ok_def header_value_def consumed_def publish_record_of_def
      named_publish_headers command_utf8_def opt_utf8_def split: option.splits)

text \<open>The metadata a published command is decoded to, at its coordinates.\<close>

definition published_metadata :: "string \<Rightarrow> PublishCommand \<Rightarrow> int \<Rightarrow> int \<Rightarrow> int option \<Rightarrow> RoutingMetadata" where
  "published_metadata topic c part offset timestamp =
    (command_metadata c)\<lparr>md_timestamp_ms := timestamp,
      md_source := Some \<lparr>kp_topic = topic, kp_partition = part, kp_offset = offset\<rparr>\<rparr>"

lemma publish_decode:
  assumes utf8: "command_utf8 c" and valid: "metadata_valid (command_metadata c)"
    and fits: "length (pc_payload c) \<le> limit"
  shows "decode_message (consumed (publish_record_of topic c) p off t) limit =
    Inr \<lparr>rm_metadata = published_metadata topic c p off t, rm_payload = pc_payload c, rm_trace_context = None\<rparr>"
proof -
  let ?r = "consumed (publish_record_of topic c) p off t"
  note hdr = consumed_headers [OF utf8 refl, of topic p off t]
  have "header_metadata ?r (pc_tenant_id c) = published_metadata topic c p off t"
    by (simp add: header_metadata_def hdr published_metadata_def command_metadata_def)
      (simp add: consumed_def publish_record_of_def)
  moreover have "metadata_valid (published_metadata topic c p off t)"
    using valid by (simp add: metadata_valid_def published_metadata_def)
  ultimately show ?thesis unfolding decode_message_Inr
    using fits by (simp add: hdr decode_trace_def)
      (simp add: record_payload_def consumed_def publish_record_of_def)
qed

definition sample_command :: PublishCommand where
  "sample_command =
    \<lparr>pc_message_id = ''m-1'', pc_tenant_id = ''t1'', pc_kind = Some ''event'', pc_message_type = None,
     pc_channel = Some ''news'', pc_actor_id = None, pc_recipient_type = None,
     pc_recipient_identity = None, pc_ordering_key = None, pc_content_type = ''text/plain'',
     pc_payload = ''hello''\<rparr>"

text \<open>
  C13. What the decoder accepts: a record decodes to a message exactly when its payload is within the
  limit, each routing header occurs at most once with a UTF-8 or null value, the tenant header has a
  value, the trace headers are consistent, and the metadata the headers describe is valid. The
  message then carries this metadata, the record's coordinates and the payload unchanged.
\<close>

theorem decode_message_exact:
  "decode_message record limit = Inr m \<longleftrightarrow>
     length (record_payload record) \<le> limit \<and> list_all (header_ok record) routing_headers
     \<and> (case header_value record ''x-tenant-id'' of None \<Rightarrow> False
        | Some tenant \<Rightarrow> metadata_valid (header_metadata record tenant)
            \<and> rm_metadata m = header_metadata record tenant)
     \<and> rm_payload m = record_payload record
     \<and> decode_trace (header_value record ''traceparent'') (header_value record ''tracestate'') = Inr (rm_trace_context m)"
  by (rule decode_message_Inr)

text \<open>
  C12. Publishing and decoding are inverse: when a publish is acknowledged, the record it produced,
  read back at the acknowledged coordinates by a router whose payload limit admits it, decodes to a
  message with exactly the metadata of the command and its payload.
\<close>

theorem publish_decode_roundtrip:
  assumes "kafka_publish mime_parse send topic c = Inr receipt" and "command_utf8 c"
    and "length (pc_payload c) \<le> limit"
  shows "decode_message
      (consumed (publish_record_of topic c) (pr_partition receipt) (pr_offset receipt) t) limit =
    Inr \<lparr>rm_metadata = published_metadata topic c (pr_partition receipt) (pr_offset receipt) t,
         rm_payload = pc_payload c, rm_trace_context = None\<rparr>"
  using assms by (auto simp: kafka_publish_def result_simps validate_simps intro: publish_decode)

theorem publish_decode_roundtrip_witness:
  "decode_message (consumed (publish_record_of ''in'' sample_command) 3 17 None) 1024 =
    Inr \<lparr>rm_metadata = published_metadata ''in'' sample_command 3 17 None,
         rm_payload = ''hello'', rm_trace_context = None\<rparr>"
proof -
  have "kafka_publish (\<lambda>_. Some (''text'', ''plain'')) (\<lambda>_. Inr (3, 17)) ''in'' sample_command =
      Inr \<lparr>pr_message_id = ''m-1'', pr_topic = ''in'', pr_partition = 3, pr_offset = 17\<rparr>"
    by (simp add: kafka_publish_def result_simps validate_simps)
      (simp add: sample_command_def command_metadata_def metadata_valid_def is_whitespace_def is_control_def)
  moreover have "command_utf8 sample_command"
    by (simp add: sample_command_def command_utf8_def opt_utf8_def utf8_next_ascii)
  moreover have "length (pc_payload sample_command) \<le> 1024" by (simp add: sample_command_def)
  ultimately show ?thesis
    using publish_decode_roundtrip [where limit = 1024 and t = None and c = sample_command]
    by (fastforce simp: sample_command_def)
qed

subsection \<open>Partition keys\<close>

lemma key_tenant_prefix:
  assumes "CHR '':'' \<notin> set (pc_tenant_id c)"
  shows "takeWhile (\<lambda>x. x \<noteq> CHR '':'') (kafka_key c) = pc_tenant_id c"
proof -
  have "\<exists>rest. kafka_key c = pc_tenant_id c @ rest \<and> (rest = [] \<or> hd rest = CHR '':'')"
    by (auto simp: kafka_key_def split: option.split)
  then obtain rest where rest: "kafka_key c = pc_tenant_id c @ rest" "rest = [] \<or> hd rest = CHR '':''" by blast
  have all: "\<forall>x\<in>set (pc_tenant_id c). x \<noteq> CHR '':''" using assms by auto
  have "takeWhile (\<lambda>x. x \<noteq> CHR '':'') rest = []" using rest(2) by (cases rest) auto
  with all show ?thesis unfolding rest(1) by (simp add: takeWhile_append2)
qed

text \<open>
  Partition keys separate tenants whose identifiers contain no colon: when two commands of such
  tenants have the same key, they belong to the same tenant.
\<close>

lemma kafka_key_separates_tenants:
  assumes "CHR '':'' \<notin> set (pc_tenant_id a)" and "CHR '':'' \<notin> set (pc_tenant_id b)"
    and "kafka_key a = kafka_key b"
  shows "pc_tenant_id a = pc_tenant_id b"
  using key_tenant_prefix [OF assms(1)] key_tenant_prefix [OF assms(2)] assms(3) by simp

lemma kafka_key_separates_tenants_witness:
  "kafka_key sample_command = ''t1:channel:news''
    \<and> pc_tenant_id sample_command = pc_tenant_id (sample_command\<lparr>pc_kind := None\<rparr>)"
  using kafka_key_separates_tenants [of sample_command "sample_command\<lparr>pc_kind := None\<rparr>"]
  by (simp add: sample_command_def kafka_key_def)

text \<open>
  C15. A colon in a tenant identifier defeats this separation. The two commands below pass validation,
  belong to different tenants and have the same key: an ordering key of one spells the identifier of
  the other.
\<close>

theorem kafka_key_collision:
  "\<exists>a b. command_validate (\<lambda>_. Some (''text'', ''plain'')) a = Inr ()
     \<and> command_validate (\<lambda>_. Some (''text'', ''plain'')) b = Inr ()
     \<and> pc_tenant_id a \<noteq> pc_tenant_id b \<and> kafka_key a = kafka_key b"
proof -
  let ?a = "sample_command\<lparr>pc_ordering_key := Some ''x''\<rparr>"
  let ?b = "sample_command\<lparr>pc_tenant_id := ''t1:explicit:x'', pc_channel := None\<rparr>"
  have "command_validate (\<lambda>_. Some (''text'', ''plain'')) ?a = Inr ()"
    "command_validate (\<lambda>_. Some (''text'', ''plain'')) ?b = Inr ()"
    by (simp_all add: validate_simps)
      (simp_all add: sample_command_def command_metadata_def metadata_valid_def is_whitespace_def is_control_def)
  moreover have "pc_tenant_id ?a \<noteq> pc_tenant_id ?b" "kafka_key ?a = kafka_key ?b"
    by (simp_all add: sample_command_def kafka_key_def)
  ultimately show ?thesis by (intro exI [of _ ?a] exI [of _ ?b]) blast
qed

end
