(* ===== verification/Durable_Worker.thy ===== *)
theory Durable_Worker
  imports Webhook_Worker Kafka_Publisher
begin

text \<open>
  The durable webhook worker (\<open>router-webhook/src/durable.rs\<close>): it consumes delivery and retry
  records, attempts the delivery, and before it commits the offset of a record it has the remote
  success, a published retry record or a published dead letter.

  Outside the repository, and therefore the record \<open>DurableEnv\<close>: serde (a record's text and back),
  base64 decoding, the Kafka client, the HTTP exchange, the clock and the shutdown signal. The effects
  of a run are numbered; what the environment answers may depend on that number. The world \<open>World\<close>
  keeps the journal of effects in order: attempts with their outcomes, acknowledged publications, and
  offset commits.
\<close>

subsection \<open>Records\<close>

datatype RecordState = DeliveryState | RetryState | DeadLetterState

datatype FailureClass =
    FcTimeout | FcConnect | FcRequest | FcHttp429 | FcHttp5xx | FcPermanentHttp | FcClient | FcInvalidRecord

definition schema_version :: "16 word" where
  "schema_version = 1"

record DurableRecord =
  dr_schema_version :: "16 word"
  dr_delivery_id :: string
  dr_destination_id :: string
  dr_original_message_id :: string
  dr_body_base64 :: string
  dr_attempt :: "32 word"
  dr_next_attempt_at_ms :: u64
  dr_last_error_class :: "FailureClass option"
  dr_source_topic :: "string option"
  dr_source_partition :: "int option"
  dr_source_offset :: "int option"
  dr_trace_context :: "TraceContext option"
  dr_state :: RecordState

record RecordCursor =
  rcu_topic :: string
  rcu_partition :: int
  rcu_offset :: int

record InputRecord =
  in_record :: DurableRecord
  in_cursor :: RecordCursor

subsection \<open>Environment and world\<close>

datatype AttemptOutcome = ODelivered nat | OFailed FailureClass

datatype Effect =
    EAttempt DurableRecord AttemptOutcome
  | EPublish string DurableRecord
  | ECommit string int int

record World =
  wo_metrics :: Metrics
  wo_effects :: "Effect list"
  wo_completed :: "string list"

definition tick :: "World \<Rightarrow> nat" where
  "tick w = length (wo_effects w)"

definition with_effect :: "Effect \<Rightarrow> World \<Rightarrow> World" where
  "with_effect e w = w\<lparr>wo_effects := wo_effects w @ [e]\<rparr>"

definition bump :: "(Metrics \<Rightarrow> Metrics) \<Rightarrow> World \<Rightarrow> World" where
  "bump f w = w\<lparr>wo_metrics := f (wo_metrics w)\<rparr>"

record DurableEnv =
  de_http :: "nat \<Rightarrow> HttpEnv"
  de_to_vec :: "DurableRecord \<Rightarrow> string + string"
  de_from_slice :: "string \<Rightarrow> string + DurableRecord"
  de_base64_decode :: "string \<Rightarrow> string + string"
  de_now_ms :: "nat \<Rightarrow> nat"
  de_send_error :: "nat \<Rightarrow> string option"
  de_offset_error :: "nat \<Rightarrow> string option"
  de_commit_error :: "nat \<Rightarrow> string option"
  de_subscribe_error :: "bool \<Rightarrow> string option"
  de_wait_shutdown :: "nat \<Rightarrow> bool option option"
  de_elapsed :: "nat \<Rightarrow> nat"

definition now_ms :: "DurableEnv \<Rightarrow> World \<Rightarrow> u64" where
  "now_ms env w = (let millis = de_now_ms env (tick w) in if millis < 2 ^ 64 then of_nat millis else - 1)"

subsection \<open>Input\<close>

definition input_from_message :: "DurableEnv \<Rightarrow> nat \<Rightarrow> KafkaRecord \<Rightarrow> string + InputRecord" where
  "input_from_message env max_record_bytes msg =
    and_then (ok_or ''durable webhook record has no payload'' (kr_payload msg)) (\<lambda>payload.
    if length payload > max_record_bytes then
      Inl (''durable webhook record is '' @ show_nat (length payload) @ '' bytes, limit is '' @ show_nat max_record_bytes)
    else
      and_then (map_err (\<lambda>e. ''invalid durable webhook record: '' @ e) (de_from_slice env payload)) (\<lambda>rcd.
      if dr_schema_version rcd \<noteq> schema_version then
        Inl (''unsupported durable webhook schema version '' @ show_nat (unat (dr_schema_version rcd)))
      else Inr \<lparr>in_record = rcd, in_cursor =
        \<lparr>rcu_topic = kr_topic msg, rcu_partition = kr_partition msg, rcu_offset = kr_offset msg\<rparr>\<rparr>))"

subsection \<open>Publication and commit\<close>

definition publish_record ::
  "DurableEnv \<Rightarrow> string \<Rightarrow> DurableRecord \<Rightarrow> nat \<Rightarrow> World \<Rightarrow> (string + unit) \<times> World" where
  "publish_record env topic rcd max_record_bytes w =
    (case de_to_vec env rcd of
       Inl e \<Rightarrow> (Inl (''record serialization failed: '' @ e), w)
     | Inr payload \<Rightarrow>
         if length payload > max_record_bytes then
           (Inl (''serialized durable webhook record is '' @ show_nat (length payload) @ '' bytes, limit is ''
              @ show_nat max_record_bytes), w)
         else (case de_send_error env (tick w) of
                 Some e \<Rightarrow> (Inl (''Kafka publication to '' @ topic @ '' failed: '' @ e), w)
               | None \<Rightarrow> (Inr (), with_effect (EPublish topic rcd) w)))"

definition i64_max :: int where
  "i64_max = 2 ^ 63 - 1"

definition commit_cursor :: "DurableEnv \<Rightarrow> RecordCursor \<Rightarrow> World \<Rightarrow> (string + unit) \<times> World" where
  "commit_cursor env cursor w =
    (case de_offset_error env (tick w) of
       Some e \<Rightarrow> (Inl (''failed to build webhook commit offset: '' @ e), w)
     | None \<Rightarrow>
       (case de_commit_error env (tick w) of
          Some e \<Rightarrow> (Inl (''durable webhook offset commit failed: '' @ e), w)
        | None \<Rightarrow> (Inr (), with_effect (ECommit (rcu_topic cursor) (rcu_partition cursor)
                     (min (rcu_offset cursor + 1) i64_max)) w)))"

text \<open>\<open>sleep_until\<close>: nothing to wait for, or a wait that ends by itself (\<open>None\<close>) or by the shutdown signal.\<close>

definition sleep_until :: "DurableEnv \<Rightarrow> u64 \<Rightarrow> World \<Rightarrow> string + unit" where
  "sleep_until env next_attempt_at_ms w =
    (if sat_sub next_attempt_at_ms (now_ms env w) = 0 then Inr ()
     else case de_wait_shutdown env (tick w) of
       None \<Rightarrow> Inr ()
     | Some changed \<Rightarrow>
         if changed = None \<or> changed = Some True then Inl ''shutdown interrupted durable retry wait'' else Inr ())"

definition should_retry :: "FailureClass \<Rightarrow> bool" where
  "should_retry c \<longleftrightarrow> c \<in> set [FcTimeout, FcConnect, FcRequest, FcHttp429, FcHttp5xx]"

definition remember_completed :: "string \<Rightarrow> nat \<Rightarrow> World \<Rightarrow> (string + unit) \<times> World" where
  "remember_completed delivery_id limit w =
    (if length (wo_completed w) \<ge> limit \<and> delivery_id \<notin> set (wo_completed w) then
       (Inl (''completed retry set exceeded configured limit '' @ show_nat limit), w)
     else (Inr (), w\<lparr>wo_completed := List.insert delivery_id (wo_completed w)\<rparr>))"

subsection \<open>The endpoint\<close>

record DurableEndpoint =
  ep_id :: string
  ep_url :: Url
  ep_allow_private_ips :: bool
  ep_timeout :: nat
  ep_headers :: "(string \<times> string) list"
  ep_signing_secret :: "string option"
  ep_max_attempts :: "32 word"
  ep_initial_backoff_ms :: u64
  ep_max_backoff_ms :: u64

definition endpoint_new :: "HttpEnv \<Rightarrow> WebhookDestinationConfig \<Rightarrow> WebhookError + DurableEndpoint" where
  "endpoint_new env config =
    and_then (validate_destination_url (he_url_parse env) (wd_url config) (wd_allowed_hosts config)
      (wd_allow_private_ips config) (wd_allow_http config)) (\<lambda>url.
    and_then (validate_destination_port url (wd_allowed_ports config)) (\<lambda>_.
    and_then (parse_headers env (wd_headers config)) (\<lambda>headers.
    Inr \<lparr>ep_id = wd_id config, ep_url = url, ep_allow_private_ips = wd_allow_private_ips config,
         ep_timeout = from_millis (max (unat (wd_timeout_ms config)) 1), ep_headers = headers,
         ep_signing_secret = wd_signing_secret config, ep_max_attempts = wd_max_attempts config,
         ep_initial_backoff_ms = wd_initial_backoff_ms config, ep_max_backoff_ms = wd_max_backoff_ms config\<rparr>)))"

definition endpoint_send_attempt ::
  "HttpEnv \<Rightarrow> DurableEndpoint \<Rightarrow> string \<Rightarrow> string \<Rightarrow> nat \<Rightarrow> AttemptOutcome" where
  "endpoint_send_attempt env ep body message_id attempt =
    (case pinned_client (he_lookup env attempt) (he_build_error env attempt) (ep_url ep)
            (ep_allow_private_ips ep) (ep_timeout ep) of
       Inl _ \<Rightarrow> OFailed FcConnect
     | Inr client \<Rightarrow>
       (case he_send env attempt client
               (attempt_request env (ep_url ep) (ep_headers ep) (ep_signing_secret ep) body message_id attempt) of
          HttpResponse code \<Rightarrow>
            if is_success code then ODelivered code
            else if code = 429 then OFailed FcHttp429
            else if retryable_status code then OFailed FcHttp5xx
            else OFailed FcPermanentHttp
        | HttpFailure is_timeout is_connect is_request text \<Rightarrow>
            if is_timeout then OFailed FcTimeout
            else if is_connect then OFailed FcConnect
            else if is_request then OFailed FcRequest
            else OFailed FcClient))"

definition retry_delay_ms :: "DurableEndpoint \<Rightarrow> 32 word \<Rightarrow> u64" where
  "retry_delay_ms ep next_attempt =
    (let delay = ((\<lambda>d. min (sat_mul d 2) (ep_max_backoff_ms ep)) ^^ unat (sat_sub next_attempt 2))
           (ep_initial_backoff_ms ep)
     in min delay (ep_max_backoff_ms ep))"

subsection \<open>Clients\<close>

definition durable_producer_settings :: "DurableWebhookConfig \<Rightarrow> (string \<times> string) list" where
  "durable_producer_settings config = dc_properties config @
    [(''bootstrap.servers'', dc_brokers config), (''client.id'', dc_client_id config),
     (''message.timeout.ms'', show_nat (unat (dc_delivery_timeout_ms config))),
     (''enable.idempotence'', ''true''), (''acks'', ''all'')]"

definition durable_consumer_settings :: "DurableWebhookConfig \<Rightarrow> string \<Rightarrow> (string \<times> string) list" where
  "durable_consumer_settings config ident = dc_properties config @
    [(''bootstrap.servers'', dc_brokers config), (''group.id'', dc_group_id config @ ''.'' @ ident),
     (''client.id'', dc_client_id config @ ''-'' @ ident), (''enable.auto.commit'', ''false''),
     (''enable.auto.offset.store'', ''false''), (''auto.offset.reset'', ''earliest''),
     (''enable.partition.eof'', ''true''), (''partition.assignment.strategy'', ''range'')]"

subsection \<open>Processing one record\<close>

record DurableWorker =
  dw_endpoint :: DurableEndpoint
  dw_delivery_topic :: string
  dw_retry_topic :: string
  dw_dead_letter_topic :: string
  dw_max_record_bytes :: nat
  dw_max_recovery_records :: nat

definition next_retry :: "DurableEnv \<Rightarrow> DurableWorker \<Rightarrow> FailureClass \<Rightarrow> DurableRecord \<Rightarrow> World \<Rightarrow> DurableRecord" where
  "next_retry env wk c rcd w =
    (let attempt = sat_add (dr_attempt rcd) 1
     in rcd\<lparr>dr_attempt := attempt,
            dr_next_attempt_at_ms := sat_add (now_ms env w) (retry_delay_ms (dw_endpoint wk) attempt),
            dr_last_error_class := Some c, dr_state := RetryState\<rparr>)"

definition dead_letter :: "FailureClass \<Rightarrow> DurableRecord \<Rightarrow> DurableRecord" where
  "dead_letter c rcd = rcd\<lparr>dr_last_error_class := Some c, dr_state := DeadLetterState\<rparr>"

text \<open>\<open>if !input_committed { commit_cursor(..)? }\<close>.\<close>

definition commit_input :: "DurableEnv \<Rightarrow> bool \<Rightarrow> RecordCursor \<Rightarrow> World \<Rightarrow> (string + unit) \<times> World" where
  "commit_input env input_committed cursor w = (if input_committed then (Inr (), w) else commit_cursor env cursor w)"

text \<open>One attempt: counted, sent, timed and noted.\<close>

definition run_attempt ::
  "DurableEnv \<Rightarrow> DurableWorker \<Rightarrow> string \<Rightarrow> DurableRecord \<Rightarrow> World \<Rightarrow> AttemptOutcome \<times> World" where
  "run_attempt env wk body rcd w =
    (let outcome = endpoint_send_attempt (de_http env (tick w)) (dw_endpoint wk) body
           (dr_original_message_id rcd) (unat (dr_attempt rcd));
         w' = bump record_webhook_attempt w
     in (outcome, with_effect (EAttempt rcd outcome)
           (bump (record_latency LatencyStage.WebhookAttempt (de_elapsed env (tick w))) w')))"

lemma next_retry_attempt:
  assumes "dr_attempt rcd < (n :: 32 word)"
  shows "unat (dr_attempt (next_retry env wk c rcd w)) = Suc (unat (dr_attempt rcd))"
proof -
  have "unat (dr_attempt rcd) < unat n" using assms by (simp add: word_less_nat_alt)
  moreover have "unat n < 2 ^ 32" using unsigned_less [of n, where ?'a = nat] by simp
  ultimately show ?thesis by (simp add: next_retry_def Let_def unat_sat_add)
qed

function process_loop ::
  "DurableEnv \<Rightarrow> DurableWorker \<Rightarrow> string \<Rightarrow> RecordCursor \<Rightarrow> bool \<Rightarrow> DurableRecord \<Rightarrow> World
   \<Rightarrow> (string + unit) \<times> World" where
  "process_loop env wk body cursor input_committed rcd w =
    (case sleep_until env (dr_next_attempt_at_ms rcd) w of
       Inl e \<Rightarrow> (Inl e, w)
     | Inr _ \<Rightarrow>
       (case run_attempt env wk body rcd w of
          (ODelivered code, w) \<Rightarrow>
            (case commit_input env input_committed cursor (bump record_webhook_success w) of
               (Inl e, w) \<Rightarrow> (Inl e, w)
             | (Inr _, w) \<Rightarrow> remember_completed (dr_delivery_id rcd) (dw_max_recovery_records wk) w)
        | (OFailed c, w) \<Rightarrow>
            if should_retry c \<and> dr_attempt rcd < ep_max_attempts (dw_endpoint wk) then
              let rcd = next_retry env wk c rcd w
              in (case publish_record env (dw_retry_topic wk) rcd (dw_max_record_bytes wk) w of
                    (Inl e, w) \<Rightarrow> (Inl e, w)
                  | (Inr _, w) \<Rightarrow>
                    (case commit_input env input_committed cursor (bump record_webhook_retry_scheduled w) of
                       (Inl e, w) \<Rightarrow> (Inl e, w)
                     | (Inr _, w) \<Rightarrow> process_loop env wk body cursor True rcd w))
            else
              let rcd = dead_letter c rcd
              in (case publish_record env (dw_dead_letter_topic wk) rcd (dw_max_record_bytes wk) w of
                    (Inl e, w) \<Rightarrow> (Inl e, w)
                  | (Inr _, w) \<Rightarrow>
                    (case commit_input env input_committed cursor
                            (bump record_webhook_failure (bump record_webhook_dead_letter w)) of
                       (Inl e, w) \<Rightarrow> (Inl e, w)
                     | (Inr _, w) \<Rightarrow> remember_completed (dr_delivery_id rcd) (dw_max_recovery_records wk) w))))"
  by pat_completeness auto

termination
  by (relation "measure (\<lambda>(env, wk, body, cursor, ic, rcd, w).
      unat (ep_max_attempts (dw_endpoint wk)) - unat (dr_attempt rcd))")
    (auto simp: next_retry_attempt word_less_nat_alt)

declare process_loop.simps [simp del]

definition process :: "DurableEnv \<Rightarrow> DurableWorker \<Rightarrow> InputRecord \<Rightarrow> World \<Rightarrow> (string + unit) \<times> World" where
  "process env wk input w =
    (case map_err (\<lambda>e. ''invalid durable webhook body: '' @ e) (de_base64_decode env (dr_body_base64 (in_record input))) of
       Inl e \<Rightarrow> (Inl e, w)
     | Inr body \<Rightarrow> process_loop env wk body (in_cursor input) False (in_record input) w)"

subsection \<open>The worker loop\<close>

text \<open>
  \<open>run\<close> first replays the retry topic up to its end (\<open>recover_retries\<close>) and then serves both topics.
  The events: a change of the shutdown flag, a received message, the end of a partition with what the
  consumer reports as the number of assigned retry partitions, and a receive error. The phase tells
  where the control is; \<open>de_subscribe_error\<close> answers the subscription for recovery (\<open>False\<close>) and for
  service (\<open>True\<close>).
\<close>

datatype ConsumerEvent =
    CShutdown "bool option"
  | CMessage KafkaRecord
  | CPartitionEof int "string + nat"
  | CError string

datatype Phase = Recovering "int list" nat | Serving | Ended "string + unit"

definition durable_start :: "DurableEnv \<Rightarrow> Phase" where
  "durable_start env =
    (case de_subscribe_error env False of
       Some e \<Rightarrow> Ended (Inl (''retry recovery subscription failed: '' @ e))
     | None \<Rightarrow> Recovering [] 0)"

text \<open>What follows when \<open>recover_retries\<close> has returned Ok.\<close>

definition after_recovery :: "DurableEnv \<Rightarrow> Phase" where
  "after_recovery env =
    (case de_subscribe_error env True of
       Some e \<Rightarrow> Ended (Inl (''durable topic subscription failed: '' @ e))
     | None \<Rightarrow> Serving)"

definition ended_on_error :: "Phase \<Rightarrow> (string + unit) \<times> World \<Rightarrow> Phase \<times> World" where
  "ended_on_error phase rw = (case rw of (Inl e, w) \<Rightarrow> (Ended (Inl e), w) | (Inr _, w) \<Rightarrow> (phase, w))"

definition recover_step ::
  "DurableEnv \<Rightarrow> DurableWorker \<Rightarrow> ConsumerEvent \<Rightarrow> int list \<Rightarrow> nat \<Rightarrow> World \<Rightarrow> Phase \<times> World" where
  "recover_step env wk ev eof_partitions recovered w =
    (case ev of
       CShutdown flag \<Rightarrow>
         if flag = Some True then
           (case after_recovery env of Ended r \<Rightarrow> (Ended r, w) | _ \<Rightarrow> (Ended (Inr ()), w))
         else if flag = None then (after_recovery env, w)
         else (Recovering eof_partitions recovered, w)
     | CMessage msg \<Rightarrow>
         let eof_partitions = removeAll (kr_partition msg) eof_partitions
         in (case input_from_message env (dw_max_record_bytes wk) msg of
               Inl e \<Rightarrow> (Ended (Inl e), w)
             | Inr input \<Rightarrow>
                 if dr_destination_id (in_record input) \<noteq> ep_id (dw_endpoint wk) then
                   ended_on_error (Recovering eof_partitions recovered) (commit_cursor env (in_cursor input) w)
                 else
                   let recovered = min (recovered + 1) usize_max;
                       w = bump record_webhook_recovery_replay w
                   in if recovered > dw_max_recovery_records wk then
                        (Ended (Inl (''retry recovery exceeded configured limit '' @ show_nat (dw_max_recovery_records wk))), w)
                      else ended_on_error (Recovering eof_partitions recovered)
                        (if dr_delivery_id (in_record input) \<in> set (wo_completed w)
                         then commit_cursor env (in_cursor input) w
                         else process env wk input w))
     | CPartitionEof part assignment \<Rightarrow>
         let eof_partitions = List.insert part eof_partitions
         in (case assignment of
               Inl e \<Rightarrow> (Ended (Inl (''failed to inspect retry assignment: '' @ e)), w)
             | Inr assigned \<Rightarrow>
                 if assigned > 0 \<and> length eof_partitions \<ge> assigned then (after_recovery env, w)
                 else (Recovering eof_partitions recovered, w))
     | CError e \<Rightarrow> (Ended (Inl (''retry recovery receive failed: '' @ e)), w))"

definition serve_step :: "DurableEnv \<Rightarrow> DurableWorker \<Rightarrow> ConsumerEvent \<Rightarrow> World \<Rightarrow> Phase \<times> World" where
  "serve_step env wk ev w =
    (case ev of
       CShutdown flag \<Rightarrow> (if flag = None \<or> flag = Some True then Ended (Inr ()) else Serving, w)
     | CMessage msg \<Rightarrow>
         (case input_from_message env (dw_max_record_bytes wk) msg of
            Inl e \<Rightarrow> (Ended (Inl e), w)
          | Inr input \<Rightarrow>
              ended_on_error Serving
                (if dr_destination_id (in_record input) \<noteq> ep_id (dw_endpoint wk)
                    \<or> dr_delivery_id (in_record input) \<in> set (wo_completed w)
                 then commit_cursor env (in_cursor input) w
                 else process env wk input w))
     | CPartitionEof _ _ \<Rightarrow> (Serving, w)
     | CError _ \<Rightarrow> (Serving, w))"

definition durable_step ::
  "DurableEnv \<Rightarrow> DurableWorker \<Rightarrow> ConsumerEvent \<Rightarrow> Phase \<times> World \<Rightarrow> Phase \<times> World" where
  "durable_step env wk ev s =
    (case s of
       (Recovering eof recovered, w) \<Rightarrow> recover_step env wk ev eof recovered w
     | (Serving, w) \<Rightarrow> serve_step env wk ev w
     | (Ended r, w) \<Rightarrow> (Ended r, w))"

definition durable_run ::
  "DurableEnv \<Rightarrow> DurableWorker \<Rightarrow> ConsumerEvent list \<Rightarrow> Phase \<times> World \<Rightarrow> Phase \<times> World" where
  "durable_run env wk evs s = fold (durable_step env wk) evs s"

definition fresh_world :: World where
  "fresh_world = \<lparr>wo_metrics = metrics_default, wo_effects = [], wo_completed = []\<rparr>"

definition durable_worker_new ::
  "HttpEnv \<Rightarrow> (((string \<times> string) list) \<Rightarrow> string option) \<Rightarrow> WebhookDestinationConfig \<Rightarrow> DurableWebhookConfig
   \<Rightarrow> WebhookError + DurableWorker" where
  "durable_worker_new env create_error destination durable =
    and_then (endpoint_new env destination) (\<lambda>ep.
    case create_error (durable_consumer_settings durable (ep_id ep)) of
      Some e \<Rightarrow> Inl (WebhookError.Durable (''consumer creation failed: '' @ e))
    | None \<Rightarrow> Inr \<lparr>dw_endpoint = ep, dw_delivery_topic = dc_delivery_topic durable,
        dw_retry_topic = dc_retry_topic durable, dw_dead_letter_topic = dc_dead_letter_topic durable,
        dw_max_record_bytes = dc_max_record_bytes durable, dw_max_recovery_records = dc_max_recovery_records durable\<rparr>)"

subsection \<open>Journals\<close>

lemma world_simps [simp]:
  "wo_effects (bump f w) = wo_effects w" "wo_completed (bump f w) = wo_completed w"
  "wo_effects (with_effect e w) = wo_effects w @ [e]" "wo_completed (with_effect e w) = wo_completed w"
  by (simp_all add: bump_def with_effect_def)

lemma publish_record_effects:
  "publish_record env topic rcd n w = (res, w') \<Longrightarrow>
   (case res of Inl _ \<Rightarrow> w' = w | Inr _ \<Rightarrow> w' = with_effect (EPublish topic rcd) w)"
  by (auto simp: publish_record_def split: sum.splits option.splits if_splits)

end
