(* ===== verification/Kafka_Health.thy ===== *)
theory Kafka_Health
  imports Metrics
begin

text \<open>
  Kafka connectivity health and the consumer callbacks (\<open>router-kafka/src/health.rs\<close>, the client and
  consumer contexts of \<open>ingestor.rs\<close>). The wall clock is an argument: milliseconds since the epoch,
  saturated to 64 bits as \<open>epoch_millis\<close> does. The callbacks of \<open>rdkafka\<close> hand over statistics and
  rebalance events; their fields that the code reads are the data types below.
\<close>

definition epoch_millis :: "nat \<Rightarrow> u64" where
  "epoch_millis millis = (if millis < 2 ^ 64 then of_nat millis else - 1)"

record KafkaHealth =
  kh_connected :: bool
  kh_last_healthy_epoch_millis :: u64

definition kafka_health_default :: KafkaHealth where
  "kafka_health_default = \<lparr>kh_connected = False, kh_last_healthy_epoch_millis = 0\<rparr>"

definition mark_healthy :: "nat \<Rightarrow> KafkaHealth \<Rightarrow> KafkaHealth" where
  "mark_healthy now h = h\<lparr>kh_connected := True, kh_last_healthy_epoch_millis := epoch_millis now\<rparr>"

definition mark_unhealthy :: "KafkaHealth \<Rightarrow> KafkaHealth" where
  "mark_unhealthy h = h\<lparr>kh_connected := False\<rparr>"

text \<open>\<open>stale_after\<close> is a duration in milliseconds.\<close>

definition is_healthy :: "nat \<Rightarrow> nat \<Rightarrow> KafkaHealth \<Rightarrow> bool" where
  "is_healthy now stale_after h =
    (if \<not> kh_connected h then False
     else let last = kh_last_healthy_epoch_millis h;
              stale_after_millis = epoch_millis stale_after
          in last \<noteq> 0 \<and> sat_sub (epoch_millis now) last \<le> stale_after_millis)"

record PartitionStats =
  ps_partition :: int
  ps_consumer_lag :: int

record Statistics =
  sx_topics :: "(string \<times> PartitionStats list) list"
  sx_broker_states :: "string list"

definition lag_total :: "PartitionStats list \<Rightarrow> u64" where
  "lag_total parts =
    fold (\<lambda>p total. sat_add total (if ps_consumer_lag p < 0 then 0 else of_int (ps_consumer_lag p)))
      (filter (\<lambda>p. ps_partition p \<ge> 0 \<and> ps_consumer_lag p \<ge> 0) parts) 0"

definition context_stats :: "nat \<Rightarrow> Statistics \<Rightarrow> Metrics \<times> KafkaHealth \<Rightarrow> Metrics \<times> KafkaHealth" where
  "context_stats now stats mh =
    (set_kafka_lag_messages (lag_total (concat (map snd (sx_topics stats)))) (fst mh),
     if ''UP'' \<in> set (sx_broker_states stats) then mark_healthy now (snd mh) else mark_unhealthy (snd mh))"

datatype Rebalance = Assign nat | Revoke | RebalanceError

definition pre_rebalance :: "nat \<Rightarrow> Rebalance \<Rightarrow> Metrics \<times> KafkaHealth \<Rightarrow> Metrics \<times> KafkaHealth" where
  "pre_rebalance now rebalance mh =
    (case rebalance of
       Assign n \<Rightarrow>
         (set_kafka_assigned_partitions n (record_kafka_rebalance_assignment (fst mh)), mark_healthy now (snd mh))
     | Revoke \<Rightarrow>
         (set_kafka_assigned_partitions 0 (record_kafka_rebalance_revocation (fst mh)), snd mh)
     | RebalanceError \<Rightarrow>
         (set_kafka_assigned_partitions 0 (record_kafka_rebalance_error (fst mh)), mark_unhealthy (snd mh)))"

definition commit_callback :: "bool \<Rightarrow> Metrics \<Rightarrow> Metrics" where
  "commit_callback ok m = (if ok then m else record_kafka_commit_error m)"

lemma unat_epoch_millis: "unat (epoch_millis n) = min n (2 ^ 64 - 1)"
  by (auto simp: epoch_millis_def unat_of_nat unat_minus_one_word_eq)

text \<open>
  Health is a lease: after an observation at time \<open>t\<close>, with no later loss of the connection, the
  signal is healthy exactly up to \<open>stale_after\<close> milliseconds later, for clock values that fit 64 bits.
\<close>

lemma health_lease:
  assumes "0 < t" and "t \<le> now" and "now < 2 ^ 64"
  shows "is_healthy now stale (mark_healthy t h) \<longleftrightarrow> now - t \<le> stale"
proof -
  have "unat (epoch_millis t) = t" "unat (epoch_millis now) = now"
    using assms by (simp_all add: unat_epoch_millis)
  moreover have "epoch_millis t \<noteq> 0" using assms calculation(1) by (metis less_numeral_extra(3) unat_0)
  ultimately show ?thesis using assms
    by (auto simp: is_healthy_def mark_healthy_def word_le_nat_alt unat_sat_sub unat_epoch_millis)
qed

lemma health_lease_witness:
  "is_healthy 1000 500 (mark_healthy 600 kafka_health_default) \<and> \<not> is_healthy 1200 500 (mark_healthy 600 kafka_health_default)"
  using health_lease [of 600 1000 500 kafka_health_default] health_lease [of 600 1200 500 kafka_health_default] by simp

end
