(* ===== verification/Ingestor.thy ===== *)
theory Ingestor
  imports Kafka_Publisher Kafka_Health Router_Props "HOL-Library.Sublist"
begin

text \<open>
  The consumer loop (\<open>router-kafka/src/ingestor.rs\<close>, \<open>KafkaIngestor::run\<close>): decode, dispatch, run the
  pre-commit sinks, then commit the source offset. The loop is driven by a sequence of events: a
  received record with the readings of the clocks and whether the commit request was accepted, a
  receive error, or a change of the shutdown flag. \<open>ig_commits\<close> lists the accepted commit requests in
  order; \<open>ig_running\<close> becomes false when the loop is left, or blocked in a sink for ever.

  A sink reads the router's queues and has a state of its own. The locale \<open>pre_commit_sink\<close> is the
  contract of the trait \<open>PreCommitSink\<close>: a message whose \<open>persist\<close> returned Ok is durable, and stays so.
\<close>

type_synonym ('c, 's) sink = "RoutedMessage \<Rightarrow> 'c Router \<times> 's \<Rightarrow> ((string + unit) \<times> 'c Router \<times> 's) option"

record ('c, 's) Ingestor =
  ig_router :: "'c Router"
  ig_sink_state :: 's
  ig_health :: KafkaHealth
  ig_commits :: "KafkaPosition list"
  ig_running :: bool

record IngestConfig =
  ic_max_payload_bytes :: nat
  ic_commit_invalid_messages :: bool

record IngestEnv =
  ie_now_ms :: nat
  ie_decode_nanos :: nat
  ie_match_nanos :: nat
  ie_enqueue_nanos :: nat
  ie_end_to_end_nanos :: nat
  ie_commit_accepted :: bool

datatype IngestEvent =
    ShutdownChanged "bool option"
  | Received IngestEnv KafkaRecord
  | ReceiveFailed

definition with_metrics :: "(Metrics \<Rightarrow> Metrics) \<Rightarrow> ('c, 's) Ingestor \<Rightarrow> ('c, 's) Ingestor" where
  "with_metrics f st = st\<lparr>ig_router := (ig_router st)\<lparr>rt_metrics := f (rt_metrics (ig_router st))\<rparr>\<rparr>"

text \<open>The loop over the sinks: the first failure ends it. \<open>None\<close> is a sink that never completes.\<close>

fun persist_all ::
  "('c, 's) sink list \<Rightarrow> RoutedMessage \<Rightarrow> 'c Router \<times> 's \<Rightarrow> (bool \<times> 'c Router \<times> 's) option" where
  "persist_all [] m w = Some (True, w)"
| "persist_all (sink # sinks) m w =
    (case sink m w of
       None \<Rightarrow> None
     | Some (Inl reason, w) \<Rightarrow> Some (False, w)
     | Some (Inr _, w) \<Rightarrow> persist_all sinks m w)"

definition record_position :: "KafkaRecord \<Rightarrow> KafkaPosition" where
  "record_position record =
    \<lparr>kp_topic = kr_topic record, kp_partition = kr_partition record, kp_offset = kr_offset record\<rparr>"

definition commit_message :: "bool \<Rightarrow> KafkaRecord \<Rightarrow> ('c, 's) Ingestor \<Rightarrow> ('c, 's) Ingestor" where
  "commit_message accepted record st =
    (if accepted then st\<lparr>ig_commits := ig_commits st @ [record_position record]\<rparr>
     else with_metrics record_kafka_commit_error st)"

definition ingest_record ::
  "'c mpsc_ops \<Rightarrow> IngestConfig \<Rightarrow> ('c, 's) sink list \<Rightarrow> IngestEnv \<Rightarrow> KafkaRecord
   \<Rightarrow> ('c, 's) Ingestor \<Rightarrow> ('c, 's) Ingestor" where
  "ingest_record ops config sinks env record st =
    (let st = st\<lparr>ig_health := mark_healthy (ie_now_ms env) (ig_health st)\<rparr>;
         bytes = (case kr_payload record of None \<Rightarrow> 0 | Some p \<Rightarrow> length p);
         st = with_metrics (record_kafka_message bytes) st;
         decoded = decode_message record (ic_max_payload_bytes config);
         st = with_metrics (record_latency Decode (ie_decode_nanos env)) st
     in case decoded of
          Inr message \<Rightarrow>
            (case dispatch ops (ie_match_nanos env) (ie_enqueue_nanos env) message (ig_router st) of
               None \<Rightarrow> st\<lparr>ig_running := False\<rparr>
             | Some (report, router) \<Rightarrow>
                 (case persist_all sinks message (router, ig_sink_state st) of
                    None \<Rightarrow> st\<lparr>ig_router := router, ig_running := False\<rparr>
                  | Some (persisted, router, sink_state) \<Rightarrow>
                      let st = st\<lparr>ig_router := router, ig_sink_state := sink_state\<rparr>
                      in if \<not> persisted then st\<lparr>ig_running := False\<rparr>
                         else with_metrics (record_latency EndToEnd (ie_end_to_end_nanos env))
                                (commit_message (ie_commit_accepted env) record st)))
        | Inl decode_error \<Rightarrow>
            let st = with_metrics record_invalid_message st
            in if ic_commit_invalid_messages config then commit_message (ie_commit_accepted env) record st
               else st\<lparr>ig_running := False\<rparr>)"

definition ingest_event ::
  "'c mpsc_ops \<Rightarrow> IngestConfig \<Rightarrow> ('c, 's) sink list \<Rightarrow> IngestEvent \<Rightarrow> ('c, 's) Ingestor \<Rightarrow> ('c, 's) Ingestor" where
  "ingest_event ops config sinks ev st =
    (if \<not> ig_running st then st
     else case ev of
        ShutdownChanged v \<Rightarrow> if v = None \<or> v = Some True then st\<lparr>ig_running := False\<rparr> else st
      | Received env record \<Rightarrow> ingest_record ops config sinks env record st
      | ReceiveFailed \<Rightarrow> st\<lparr>ig_health := mark_unhealthy (ig_health st)\<rparr>)"

definition ingest_run ::
  "'c mpsc_ops \<Rightarrow> IngestConfig \<Rightarrow> ('c, 's) sink list \<Rightarrow> IngestEvent list \<Rightarrow> ('c, 's) Ingestor \<Rightarrow> ('c, 's) Ingestor" where
  "ingest_run ops config sinks evs st = fold (ingest_event ops config sinks) evs st"

subsection \<open>One record\<close>

text \<open>
  How a record is handled: it is persisted by every sink, or it is invalid and the configuration
  says to skip it. Otherwise the loop ends without a commit.
\<close>

lemma with_metrics_simps [simp]:
  "ig_commits (with_metrics f st) = ig_commits st" "ig_running (with_metrics f st) = ig_running st"
  "ig_sink_state (with_metrics f st) = ig_sink_state st" "ig_health (with_metrics f st) = ig_health st"
  by (simp_all add: with_metrics_def)

lemma commit_message_simps [simp]:
  "ig_running (commit_message a r st) = ig_running st"
  "ig_sink_state (commit_message a r st) = ig_sink_state st"
  "ig_commits (commit_message a r st) = ig_commits st @ (if a then [record_position r] else [])"
  by (simp_all add: commit_message_def)

lemma ingest_record_cases:
  fixes st :: "('c, 's) Ingestor"
  assumes "st' = ingest_record ops config sinks env record st"
  obtains (invalid) e where "decode_message record (ic_max_payload_bytes config) = Inl e"
      "ig_running st' = (ig_running st \<and> ic_commit_invalid_messages config)"
      "ig_commits st' = ig_commits st @
        (if ic_commit_invalid_messages config \<and> ie_commit_accepted env then [record_position record] else [])"
      "ig_sink_state st' = ig_sink_state st"
  | (blocked) m r where "decode_message record (ic_max_payload_bytes config) = Inr m"
      "persist_all sinks m (r, ig_sink_state st) = None"
      "\<not> ig_running st'" "ig_commits st' = ig_commits st" "ig_sink_state st' = ig_sink_state st"
  | (failed) m r r' where "decode_message record (ic_max_payload_bytes config) = Inr m"
      "persist_all sinks m (r, ig_sink_state st) = Some (False, r', ig_sink_state st')"
      "\<not> ig_running st'" "ig_commits st' = ig_commits st"
  | (persisted) m r r' where "decode_message record (ic_max_payload_bytes config) = Inr m"
      "persist_all sinks m (r, ig_sink_state st) = Some (True, r', ig_sink_state st')"
      "ig_running st' = ig_running st"
      "ig_commits st' = ig_commits st @ (if ie_commit_accepted env then [record_position record] else [])"
proof (cases "decode_message record (ic_max_payload_bytes config)")
  case (Inl e)
  show thesis by (rule invalid [OF Inl]) (simp_all add: assms ingest_record_def Inl Let_def)
next
  case (Inr m)
  let ?pre = "with_metrics (record_latency Decode (ie_decode_nanos env))
    (with_metrics (record_kafka_message (case kr_payload record of None \<Rightarrow> 0 | Some p \<Rightarrow> length p))
      (st\<lparr>ig_health := mark_healthy (ie_now_ms env) (ig_health st)\<rparr>))"
  obtain rep r where d: "dispatch ops (ie_match_nanos env) (ie_enqueue_nanos env) m (ig_router ?pre) = Some (rep, r)"
    by (simp add: dispatch_eq Let_def)
  note step = assms [unfolded ingest_record_def Let_def Inr sum.case d option.case prod.case with_metrics_simps]
  show thesis
  proof (cases "persist_all sinks m (r, ig_sink_state st)")
    case None
    show thesis by (rule blocked [OF Inr None]) (use step None in \<open>simp_all\<close>)
  next
    case (Some res)
    obtain ok r' s' where res: "res = (ok, r', s')" by (cases res) auto
    show thesis
    proof (cases ok)
      case True
      show thesis by (rule persisted [OF Inr, of r r']) (use step Some res True in simp_all)
    next
      case False
      show thesis by (rule failed [OF Inr, of r r']) (use step Some res False in simp_all)
    qed
  qed
qed

subsection \<open>Commits follow the records in order\<close>

fun received :: "IngestEvent list \<Rightarrow> KafkaRecord list" where
  "received [] = []"
| "received (Received env rcd # evs) = rcd # received evs"
| "received (_ # evs) = received evs"

text \<open>Every commit request is accepted by the client library.\<close>

fun commits_accepted :: "IngestEvent list \<Rightarrow> bool" where
  "commits_accepted [] = True"
| "commits_accepted (Received env rcd # evs) = (ie_commit_accepted env \<and> commits_accepted evs)"
| "commits_accepted (_ # evs) = commits_accepted evs"

lemma ingest_run_simps:
  "ingest_run ops config sinks [] st = st"
  "ingest_run ops config sinks (ev # evs) st = ingest_run ops config sinks evs (ingest_event ops config sinks ev st)"
  by (simp_all add: ingest_run_def)

lemma ingest_run_stopped: "\<not> ig_running st \<Longrightarrow> ingest_run ops config sinks evs st = st"
  by (induction evs) (simp_all add: ingest_run_simps ingest_event_def)

lemma ingest_run_prefix:
  assumes "commits_accepted evs" and "ig_running st"
  shows "\<exists>recs. prefix recs (received evs)
    \<and> ig_commits (ingest_run ops config sinks evs st) = ig_commits st @ map record_position recs
    \<and> (ig_running (ingest_run ops config sinks evs st) \<longrightarrow> recs = received evs)"
  using assms
proof (induction evs arbitrary: st)
  case Nil
  then show ?case by (simp add: ingest_run_simps)
next
  case (Cons ev evs)
  let ?st = "ingest_event ops config sinks ev st"
  show ?case
  proof (cases "ig_running ?st")
    case False
    have "ig_commits ?st = ig_commits st"
    proof (cases ev)
      case (Received env rcd)
      then have "?st = ingest_record ops config sinks env rcd st"
        using Cons.prems(2) by (simp add: ingest_event_def)
      then show ?thesis using False Cons.prems(2) by (cases rule: ingest_record_cases) auto
    qed (auto simp: ingest_event_def)
    then show ?thesis using False by (intro exI [of _ "[]"]) (simp add: ingest_run_simps ingest_run_stopped)
  next
    case True
    have acc: "commits_accepted evs" using Cons.prems(1) by (cases ev) auto
    from Cons.IH [OF acc True] obtain recs where recs: "prefix recs (received evs)"
      "ig_commits (ingest_run ops config sinks evs ?st) = ig_commits ?st @ map record_position recs"
      "ig_running (ingest_run ops config sinks evs ?st) \<longrightarrow> recs = received evs" by blast
    show ?thesis
    proof (cases ev)
      case (Received env rcd)
      then have st: "?st = ingest_record ops config sinks env rcd st"
        using Cons.prems(2) by (simp add: ingest_event_def)
      then have "ig_commits ?st = ig_commits st @ [record_position rcd]"
        using True Cons.prems Received by (cases rule: ingest_record_cases) auto
      with recs Received show ?thesis
        by (intro exI [of _ "rcd # recs"]) (simp add: ingest_run_simps)
    qed (use recs Cons.prems(2) in \<open>auto simp: ingest_run_simps ingest_event_def split: if_splits\<close>)
  qed
qed

text \<open>
  C11. Commits never skip a record: while the loop runs, every received record has been committed, in
  the order received; when it has stopped, because a sink failed or an invalid record must not be
  skipped, the commits are those of the records before the one it stopped at.
\<close>

theorem commits_in_order:
  assumes "commits_accepted evs" and "ig_running st"
  shows "\<exists>recs. prefix recs (received evs)
    \<and> ig_commits (ingest_run ops config sinks evs st) = ig_commits st @ map record_position recs
    \<and> (ig_running (ingest_run ops config sinks evs st) \<longrightarrow> recs = received evs)"
  using assms by (rule ingest_run_prefix)

definition sample_env :: IngestEnv where
  "sample_env = \<lparr>ie_now_ms = 1, ie_decode_nanos = 0, ie_match_nanos = 0, ie_enqueue_nanos = 0,
     ie_end_to_end_nanos = 0, ie_commit_accepted = True\<rparr>"

definition poison_record :: "int \<Rightarrow> KafkaRecord" where
  "poison_record offset = \<lparr>kr_topic = ''in'', kr_partition = 0, kr_offset = offset, kr_timestamp = None,
     kr_key = None, kr_payload = None, kr_headers = None\<rparr>"

definition sample_ingestor :: "(nat \<times> Delivery list \<times> bool, unit) Ingestor" where
  "sample_ingestor = \<lparr>ig_router = sample_router, ig_sink_state = (), ig_health = kafka_health_default,
     ig_commits = [], ig_running = True\<rparr>"

lemma poison_decode: "decode_message (poison_record offset) limit = Inl (MissingHeader ''x-tenant-id'')"
  by (simp add: decode_message_def poison_record_def required_header_def optional_header_def)

theorem commits_in_order_witness:
  "ig_commits (ingest_run fifo_ops \<lparr>ic_max_payload_bytes = 10, ic_commit_invalid_messages = True\<rparr> []
      [Received sample_env (poison_record 4), Received sample_env (poison_record 5)] sample_ingestor)
    = [record_position (poison_record 4), record_position (poison_record 5)]"
proof -
  let ?evs = "[Received sample_env (poison_record 4), Received sample_env (poison_record 5)]"
  let ?cfg = "\<lparr>ic_max_payload_bytes = 10, ic_commit_invalid_messages = True\<rparr>"
  have "commits_accepted ?evs" by (simp add: sample_env_def)
  moreover have "ig_running sample_ingestor" by (simp add: sample_ingestor_def)
  moreover have "ig_running (ingest_run fifo_ops ?cfg [] ?evs sample_ingestor)"
    by (simp add: ingest_run_simps ingest_event_def ingest_record_def poison_decode sample_ingestor_def Let_def)
  moreover have "ig_commits sample_ingestor = []" by (simp add: sample_ingestor_def)
  ultimately show ?thesis using commits_in_order [of ?evs sample_ingestor fifo_ops ?cfg "[]"] by auto
qed

subsection \<open>The sink contract\<close>

locale pre_commit_sink =
  fixes persist :: "('c, 's) sink" and durable :: "'s \<Rightarrow> RoutedMessage \<Rightarrow> bool"
  assumes persist_durable: "persist m (r, s) = Some (Inr (), r', s') \<Longrightarrow> durable s' m"
    and durable_stable: "durable s m' \<Longrightarrow> persist m (r, s) = Some (res, r', s') \<Longrightarrow> durable s' m'"
begin

lemma persist_all_single:
  "persist_all [persist] m (r, s) = Some (ok, r', s') \<longleftrightarrow>
     (\<exists>res. persist m (r, s) = Some (res, r', s') \<and> ok = (res = Inr ()))"
  by (auto split: option.splits prod.splits sum.splits)

lemma ingest_record_durable:
  assumes "st' = ingest_record ops config [persist] env rcd st"
  shows "(\<forall>m. durable (ig_sink_state st) m \<longrightarrow> durable (ig_sink_state st') m)
    \<and> (ig_commits st' = ig_commits st \<or> ig_commits st' = ig_commits st @ [record_position rcd]
        \<and> (\<forall>m. decode_message rcd (ic_max_payload_bytes config) = Inr m \<longrightarrow> durable (ig_sink_state st') m))"
  using assms
proof (cases rule: ingest_record_cases)
  case (invalid e)
  then show ?thesis by simp
next
  case (blocked m r)
  then show ?thesis by simp
next
  case (failed m r r')
  then obtain res where "persist m (r, ig_sink_state st) = Some (res, r', ig_sink_state st')"
    unfolding persist_all_single by blast
  from durable_stable [OF _ this] failed(4) show ?thesis by simp
next
  case (persisted m r r')
  then have p: "persist m (r, ig_sink_state st) = Some (Inr (), r', ig_sink_state st')"
    unfolding persist_all_single by simp
  from durable_stable [OF _ p] persist_durable [OF p] persisted(1,4) show ?thesis by simp
qed

text \<open>
  Nothing is committed before it is durable: every commit belongs to a received record, and if this
  record decodes to a message, the message is durable in the sink.
\<close>

lemma run_durable:
  shows "(\<forall>m. durable (ig_sink_state st) m \<longrightarrow> durable (ig_sink_state (ingest_run ops config [persist] evs st)) m)
    \<and> (\<exists>recs. set recs \<subseteq> set (received evs)
        \<and> ig_commits (ingest_run ops config [persist] evs st) = ig_commits st @ map record_position recs
        \<and> (\<forall>rcd\<in>set recs. \<forall>m. decode_message rcd (ic_max_payload_bytes config) = Inr m \<longrightarrow>
              durable (ig_sink_state (ingest_run ops config [persist] evs st)) m))"
proof (induction evs arbitrary: st)
  case Nil
  then show ?case by (simp add: ingest_run_simps)
next
  case (Cons ev evs)
  let ?st = "ingest_event ops config [persist] ev st"
  from Cons obtain recs where stable: "\<And>m. durable (ig_sink_state ?st) m \<Longrightarrow>
      durable (ig_sink_state (ingest_run ops config [persist] evs ?st)) m"
    and recs: "set recs \<subseteq> set (received evs)"
      "ig_commits (ingest_run ops config [persist] evs ?st) = ig_commits ?st @ map record_position recs"
      "\<forall>rcd\<in>set recs. \<forall>m. decode_message rcd (ic_max_payload_bytes config) = Inr m \<longrightarrow>
        durable (ig_sink_state (ingest_run ops config [persist] evs ?st)) m" by metis
  show ?case
  proof (cases "\<exists>env rcd. ev = Received env rcd \<and> ig_running st")
    case True
    then obtain env rcd where ev: "ev = Received env rcd" "ig_running st" by blast
    then have st: "?st = ingest_record ops config [persist] env rcd st" by (simp add: ingest_event_def)
    note one = ingest_record_durable [OF st]
    show ?thesis
    proof (cases "ig_commits ?st = ig_commits st")
      case True
      with one stable recs ev(1) show ?thesis
        by (intro conjI exI [of _ recs]) (auto simp only: ingest_run_simps received.simps set_simps)
    next
      case False
      with one stable recs ev(1) show ?thesis
        by (intro conjI exI [of _ "rcd # recs"])
          (auto simp only: ingest_run_simps received.simps set_simps list.map append_assoc append.simps)
    qed
  next
    case False
    then have "ig_sink_state ?st = ig_sink_state st" "ig_commits ?st = ig_commits st"
      by (auto simp: ingest_event_def split: IngestEvent.splits)
    moreover have "set (received evs) \<subseteq> set (received (ev # evs))" by (cases ev) auto
    ultimately show ?thesis using stable recs
      by (intro conjI exI [of _ recs]) (auto simp only: ingest_run_simps)
  qed
qed

end

end
