(* ===== verification/Durable_Sink.thy ===== *)
theory Durable_Sink
  imports Durable_Worker Ingestor
begin

text \<open>
  The source side of durable webhooks (\<open>router-webhook/src/durable.rs\<close>): \<open>build_durable_runtime\<close> registers
  one connection per destination and builds the route table, and \<open>persist\<close>, the pre-commit sink of the
  Kafka consumer, turns the deliveries the router has just queued into delivery commands in Kafka.

  The receiving end of a queue is Tokio's: \<open>se_recv\<close> takes the next delivery of a connection's queue. It
  yields \<open>None\<close> if the call never completes, and an inner \<open>None\<close> if the channel is closed and empty. A
  delivery id is random: \<open>se_uuid\<close>.
\<close>

record 'c SinkEnv =
  se_durable :: DurableEnv
  se_http :: HttpEnv
  se_uuid :: "nat \<Rightarrow> string"
  se_recv :: "'c Router \<Rightarrow> connection_id \<Rightarrow> (Delivery option \<times> 'c Router) option"
  se_producer_error :: "(string \<times> string) list \<Rightarrow> string option"
  se_consumer_error :: "(string \<times> string) list \<Rightarrow> string option"

record RouteDestination =
  rd_id :: string
  rd_receiver :: connection_id

record DurableWebhookSink =
  sk_topic :: string
  sk_max_record_bytes :: nat
  sk_routes :: "(RouteKey \<times> RouteDestination list) list"
  sk_connection_ids :: "connection_id list"

record DurableWebhookRuntime =
  rn_sink :: DurableWebhookSink
  rn_workers :: "DurableWorker list"

subsection \<open>Construction\<close>

text \<open>\<open>RegistrationGuard\<close> and the \<open>Drop\<close> of the sink: unregister every connection of a list.\<close>

definition unregister_all :: "connection_id list \<Rightarrow> 'c Router \<Rightarrow> 'c Router" where
  "unregister_all ids r = fold unregister_connection ids r"

record 'c Building =
  bd_router :: "'c Router"
  bd_ids :: "connection_id list"
  bd_routes :: "(RouteKey \<times> RouteDestination list) list"
  bd_workers :: "DurableWorker list"

definition build_destination ::
  "'c SinkEnv \<Rightarrow> 'c mpsc_ops \<Rightarrow> DurableWebhookConfig \<Rightarrow> connection_id \<Rightarrow> WebhookDestinationConfig \<Rightarrow> 'c Building
   \<Rightarrow> (WebhookError + unit) \<times> 'c Building" where
  "build_destination env ops durable fresh destination b =
    (case subscription_id_new (''webhook:'' @ wd_id destination) of
       Inl e \<Rightarrow> (Inl (WebhookError.Durable (core_error_display e)), b)
     | Inr subscription_id \<Rightarrow>
       (case register_connection ops fresh (rf_tenant_id (wd_filter destination)) HttpWebhook
               (Some (wd_queue_capacity destination)) (bd_router b) of
          (Inl e, r) \<Rightarrow> (Inl (Registration (wd_id destination) (core_error_display e)), b\<lparr>bd_router := r\<rparr>)
        | (Inr connection_id, r) \<Rightarrow>
          let b = b\<lparr>bd_router := r, bd_ids := bd_ids b @ [connection_id]\<rparr>
          in (case subscribe connection_id subscription_id (wd_filter destination) r of
                (Inl e, r) \<Rightarrow> (Inl (Registration (wd_id destination) (core_error_display e)), b\<lparr>bd_router := r\<rparr>)
              | (Inr _, r) \<Rightarrow>
                let key = route_key_of (wd_filter destination);
                    b = b\<lparr>bd_router := r, bd_routes := AList.update key
                      (or_default (map_of (bd_routes b) key) @ [\<lparr>rd_id = wd_id destination, rd_receiver = connection_id\<rparr>])
                      (bd_routes b)\<rparr>
                in (case durable_worker_new (se_http env) (se_consumer_error env) destination durable of
                      Inl e \<Rightarrow> (Inl e, b)
                    | Inr worker \<Rightarrow> (Inr (), b\<lparr>bd_workers := bd_workers b @ [worker]\<rparr>)))))"

fun build_destinations ::
  "'c SinkEnv \<Rightarrow> 'c mpsc_ops \<Rightarrow> DurableWebhookConfig \<Rightarrow> (connection_id \<times> WebhookDestinationConfig) list \<Rightarrow> 'c Building
   \<Rightarrow> (WebhookError + unit) \<times> 'c Building" where
  "build_destinations env ops durable [] b = (Inr (), b)"
| "build_destinations env ops durable ((fresh, destination) # rest) b =
    (case build_destination env ops durable fresh destination b of
       (Inl e, b) \<Rightarrow> (Inl e, b)
     | (Inr _, b) \<Rightarrow> build_destinations env ops durable rest b)"

definition build_durable_runtime ::
  "'c SinkEnv \<Rightarrow> 'c mpsc_ops \<Rightarrow> (nat \<Rightarrow> connection_id) \<Rightarrow> WebhookConfig \<Rightarrow> 'c Router
   \<Rightarrow> (WebhookError + DurableWebhookRuntime) \<times> 'c Router" where
  "build_durable_runtime env ops fresh config r =
    (case se_producer_error env (durable_producer_settings (wc_durable config)) of
       Some e \<Rightarrow> (Inl (WebhookError.Durable (''producer creation failed: '' @ e)), r)
     | None \<Rightarrow>
       (case build_destinations env ops (wc_durable config) (map (\<lambda>(i, destination). (fresh i, destination)) (enumerate 0 (wc_destinations config)))
               \<lparr>bd_router = r, bd_ids = [], bd_routes = [], bd_workers = []\<rparr> of
          (Inl e, b) \<Rightarrow> (Inl e, unregister_all (bd_ids b) (bd_router b))
        | (Inr _, b) \<Rightarrow>
            (Inr \<lparr>rn_sink = \<lparr>sk_topic = dc_delivery_topic (wc_durable config),
                             sk_max_record_bytes = dc_max_record_bytes (wc_durable config),
                             sk_routes = bd_routes b, sk_connection_ids = bd_ids b\<rparr>,
                  rn_workers = bd_workers b\<rparr>, bd_router b)))"

definition sink_drop :: "DurableWebhookSink \<Rightarrow> 'c Router \<Rightarrow> 'c Router" where
  "sink_drop sk r = unregister_all (sk_connection_ids sk) r"

subsection \<open>Persisting a message\<close>

definition sink_destinations :: "DurableWebhookSink \<Rightarrow> RoutingMetadata \<Rightarrow> RouteDestination list" where
  "sink_destinations sk md = concat (map (\<lambda>k. or_default (map_of (sk_routes sk) k)) (candidates md))"

definition delivery_command ::
  "'c SinkEnv \<Rightarrow> string \<Rightarrow> RoutedMessage \<Rightarrow> Delivery \<Rightarrow> World \<Rightarrow> DurableRecord" where
  "delivery_command env destination_id m d w =
    (let source = md_source (rm_metadata (dv_message d)); http = se_http env
     in \<lparr>dr_schema_version = schema_version, dr_delivery_id = se_uuid env (tick w),
         dr_destination_id = destination_id, dr_original_message_id = md_message_id (rm_metadata m),
         dr_body_base64 = he_base64 http (encode_delivery_json (he_from_slice http) (he_base64 http) (he_to_vec http) d),
         dr_attempt = 1, dr_next_attempt_at_ms = now_ms (se_durable env) w, dr_last_error_class = None,
         dr_source_topic = map_option kp_topic source, dr_source_partition = map_option kp_partition source,
         dr_source_offset = map_option kp_offset source,
         dr_trace_context = rm_trace_context (dv_message d), dr_state = DeliveryState\<rparr>)"

fun persist_destinations ::
  "'c SinkEnv \<Rightarrow> DurableWebhookSink \<Rightarrow> RoutedMessage \<Rightarrow> RouteDestination list \<Rightarrow> 'c Router \<times> World
   \<Rightarrow> ((string + unit) \<times> 'c Router \<times> World) option" where
  "persist_destinations env sk m [] (r, w) = Some (Inr (), r, w)"
| "persist_destinations env sk m (destination # rest) (r, w) =
    (case se_recv env r (rd_receiver destination) of
       None \<Rightarrow> None
     | Some (None, r) \<Rightarrow> Some (Inl (''durable route queue closed for '' @ rd_id destination), r, w)
     | Some (Some d, r) \<Rightarrow>
         if md_message_id (rm_metadata (dv_message d)) \<noteq> md_message_id (rm_metadata m) then
           Some (Inl (''durable route queue returned message '' @ md_message_id (rm_metadata (dv_message d))
             @ '' while waiting for '' @ md_message_id (rm_metadata m)), r, w)
         else
           (case publish_record (se_durable env) (sk_topic sk) (delivery_command env (rd_id destination) m d w)
                   (sk_max_record_bytes sk) w of
              (Inl e, w) \<Rightarrow> Some (Inl e, r, w)
            | (Inr _, w) \<Rightarrow>
                persist_destinations env sk m rest
                  (r\<lparr>rt_metrics := record_webhook_durable_command (rt_metrics r)\<rparr>, w)))"

definition persist :: "'c SinkEnv \<Rightarrow> DurableWebhookSink \<Rightarrow> ('c, World) sink" where
  "persist env sk m s = persist_destinations env sk m (sink_destinations sk (rm_metadata m)) s"

subsection \<open>A persisted message is durable\<close>

text \<open>The message has a delivery command for a destination in the journal.\<close>

fun commands :: "DurableWebhookSink \<Rightarrow> RoutedMessage \<Rightarrow> RouteDestination \<Rightarrow> Effect \<Rightarrow> bool" where
  "commands sk m destination (EPublish topic rcd) \<longleftrightarrow> topic = sk_topic sk \<and> dr_destination_id rcd = rd_id destination
     \<and> dr_original_message_id rcd = md_message_id (rm_metadata m) \<and> dr_attempt rcd = 1 \<and> dr_state rcd = DeliveryState"
| "commands sk m destination _ \<longleftrightarrow> False"

definition persisted :: "DurableWebhookSink \<Rightarrow> World \<Rightarrow> RoutedMessage \<Rightarrow> bool" where
  "persisted sk w m \<longleftrightarrow>
    list_all (\<lambda>destination. list_ex (commands sk m destination) (wo_effects w)) (sink_destinations sk (rm_metadata m))"

lemma persist_destinations_journal:
  assumes "persist_destinations env sk m ds (r, w) = Some (res, r', w')"
  shows "\<exists>es. wo_effects w' = wo_effects w @ es \<and> list_all2 (commands sk m) (take (length es) ds) es
    \<and> (res = Inr () \<longrightarrow> length es = length ds)"
  using assms
proof (induction ds arbitrary: r w)
  case (Cons d ds)
  show ?case
  proof (cases "se_recv env r (rd_receiver d)")
    case (Some x)
    obtain dv r1 where x: "x = (dv, r1)" by fastforce
    show ?thesis
    proof (cases "\<exists>v. dv = Some v \<and> md_message_id (rm_metadata (dv_message v)) = md_message_id (rm_metadata m)")
      case True
      then obtain v where v: "dv = Some v" "md_message_id (rm_metadata (dv_message v)) = md_message_id (rm_metadata m)" by blast
      let ?rcd = "delivery_command env (rd_id d) m v w"
      obtain pres w1 where p: "publish_record (se_durable env) (sk_topic sk) ?rcd (sk_max_record_bytes sk) w = (pres, w1)"
        by fastforce
      have cmd: "commands sk m d (EPublish (sk_topic sk) ?rcd)" by (simp add: delivery_command_def Let_def)
      show ?thesis
      proof (cases pres)
        case (Inl e)
        with p publish_record_effects [OF p] Cons.prems Some x v show ?thesis by auto
      next
        case (Inr u)
        with Cons.prems Some x v p have "persist_destinations env sk m ds
            (r1\<lparr>rt_metrics := record_webhook_durable_command (rt_metrics r1)\<rparr>, w1) = Some (res, r', w')" by simp
        from Cons.IH [OF this] obtain es where "wo_effects w' = wo_effects w1 @ es"
          "list_all2 (commands sk m) (take (length es) ds) es" "res = Inr () \<longrightarrow> length es = length ds" by blast
        with Inr publish_record_effects [OF p] cmd show ?thesis
          by (intro exI [of _ "EPublish (sk_topic sk) ?rcd # es"]) simp
      qed
    next
      case False
      with Cons.prems Some x show ?thesis by (auto split: option.splits if_splits)
    qed
  qed (use Cons.prems in simp)
qed simp

lemma persist_journal:
  assumes "persist env sk m (r, w) = Some (res, r', w')"
  obtains es where "wo_effects w' = wo_effects w @ es"
    "list_all2 (commands sk m) (take (length es) (sink_destinations sk (rm_metadata m))) es"
    "res = Inr () \<Longrightarrow> length es = length (sink_destinations sk (rm_metadata m))"
  using persist_destinations_journal [OF assms [unfolded persist_def]] by blast

lemma list_all2_exD: "list_all2 P xs ys \<Longrightarrow> x \<in> set xs \<Longrightarrow> \<exists>y\<in>set ys. P x y"
  by (induction rule: list_all2_induct) auto

interpretation ds: pre_commit_sink "persist env sk" "persisted sk" for env :: "'c SinkEnv" and sk
proof
  fix m r s r' s' assume "persist env sk m (r, s) = Some (Inr (), r', s')"
  then obtain es where es: "wo_effects s' = wo_effects s @ es"
      "list_all2 (commands sk m) (take (length es) (sink_destinations sk (rm_metadata m))) es"
      "length es = length (sink_destinations sk (rm_metadata m))"
    by (rule persist_journal) simp
  then have "list_all2 (commands sk m) (sink_destinations sk (rm_metadata m)) es" by simp
  with es(1) show "persisted sk s' m"
    unfolding persisted_def list_all_iff list_ex_iff by (auto dest: list_all2_exD)
next
  fix m m' r s r' s' res assume "persisted sk s m'" and "persist env sk m (r, s) = Some (res, r', s')"
  moreover from this(2) obtain es where "wo_effects s' = wo_effects s @ es" by (rule persist_journal)
  ultimately show "persisted sk s' m'" by (simp add: persisted_def list_all_iff)
qed

end
