(* ===== verification/Durable_Protocol.thy ===== *)
theory Durable_Protocol
  imports Durable_Worker Systems
begin

text \<open>
  What the durable worker promises. The inductive relation \<open>protocol\<close> is the abstract specification
  of one delivery: the journals of effects it may produce, whatever the environment answers. The
  code of \<open>process\<close> is shown to refine it; the promises (settled before committed, at most one commit,
  a bounded number of attempts, one terminal outcome) are proved of the specification by rule
  induction, and then lifted to runs of the whole worker.
\<close>

subsection \<open>The delivery protocol\<close>

definition commits :: "bool \<Rightarrow> RecordCursor \<Rightarrow> Effect list" where
  "commits input_committed cursor =
    (if input_committed then []
     else [ECommit (rcu_topic cursor) (rcu_partition cursor) (min (rcu_offset cursor + 1) i64_max)])"

definition may_retry :: "DurableWorker \<Rightarrow> FailureClass \<Rightarrow> DurableRecord \<Rightarrow> bool" where
  "may_retry wk c rcd \<longleftrightarrow> should_retry c \<and> dr_attempt rcd < ep_max_attempts (dw_endpoint wk)"

text \<open>A retry record: the next attempt, some due time, the failure; everything else as before.\<close>

definition is_retry_of :: "FailureClass \<Rightarrow> DurableRecord \<Rightarrow> DurableRecord \<Rightarrow> bool" where
  "is_retry_of c rcd rcd' \<longleftrightarrow>
    rcd' = rcd\<lparr>dr_attempt := dr_attempt rcd', dr_next_attempt_at_ms := dr_next_attempt_at_ms rcd',
              dr_last_error_class := Some c, dr_state := RetryState\<rparr>
    \<and> unat (dr_attempt rcd') = Suc (unat (dr_attempt rcd))"

text \<open>The last argument tells whether the delivery came to its end without an error.\<close>

inductive protocol :: "DurableWorker \<Rightarrow> RecordCursor \<Rightarrow> bool \<Rightarrow> DurableRecord \<Rightarrow> Effect list \<Rightarrow> bool \<Rightarrow> bool"
  for wk cursor where
  interrupted: "protocol wk cursor ic rcd [] False"
| success_uncommitted: "protocol wk cursor ic rcd [EAttempt rcd (ODelivered code)] False"
| success: "protocol wk cursor ic rcd (EAttempt rcd (ODelivered code) # commits ic cursor) fin"
| unpublished: "protocol wk cursor ic rcd [EAttempt rcd (OFailed c)] False"
| dead_uncommitted: "\<not> may_retry wk c rcd \<Longrightarrow>
    protocol wk cursor ic rcd [EAttempt rcd (OFailed c), EPublish (dw_dead_letter_topic wk) (dead_letter c rcd)] False"
| dead: "\<not> may_retry wk c rcd \<Longrightarrow>
    protocol wk cursor ic rcd
      ([EAttempt rcd (OFailed c), EPublish (dw_dead_letter_topic wk) (dead_letter c rcd)] @ commits ic cursor) fin"
| retry_uncommitted: "may_retry wk c rcd \<Longrightarrow> is_retry_of c rcd rcd' \<Longrightarrow>
    protocol wk cursor ic rcd [EAttempt rcd (OFailed c), EPublish (dw_retry_topic wk) rcd'] False"
| retry: "may_retry wk c rcd \<Longrightarrow> is_retry_of c rcd rcd' \<Longrightarrow> protocol wk cursor True rcd' es fin \<Longrightarrow>
    protocol wk cursor ic rcd
      ([EAttempt rcd (OFailed c), EPublish (dw_retry_topic wk) rcd'] @ commits ic cursor @ es) fin"

subsection \<open>The code refines the protocol\<close>

lemma run_attempt_effects:
  "run_attempt env wk body rcd w = (outcome, w') \<Longrightarrow>
   wo_effects w' = wo_effects w @ [EAttempt rcd outcome] \<and> wo_completed w' = wo_completed w"
  by (auto simp: run_attempt_def Let_def)

lemma commit_cursor_effects:
  "commit_cursor env cursor w = (res, w') \<Longrightarrow>
   wo_completed w' = wo_completed w
   \<and> (case res of Inl _ \<Rightarrow> wo_effects w' = wo_effects w | Inr _ \<Rightarrow> wo_effects w' = wo_effects w @ commits False cursor)"
  by (auto simp: commit_cursor_def commits_def split: option.splits)

lemma commit_input_effects:
  "commit_input env ic cursor w = (res, w') \<Longrightarrow>
   wo_completed w' = wo_completed w
   \<and> (case res of Inl _ \<Rightarrow> wo_effects w' = wo_effects w | Inr _ \<Rightarrow> wo_effects w' = wo_effects w @ commits ic cursor)"
  by (cases res) (auto simp: commit_input_def commits_def dest: commit_cursor_effects split: if_splits)

lemma remember_completed_effects:
  "remember_completed i limit w = (res, w') \<Longrightarrow>
   wo_effects w' = wo_effects w \<and> (case res of Inl _ \<Rightarrow> w' = w | Inr _ \<Rightarrow> set (wo_completed w') = insert i (set (wo_completed w)))"
  by (auto simp: remember_completed_def split: if_splits)

lemma next_retry_is_retry:
  assumes "may_retry wk c rcd"
  shows "is_retry_of c rcd (next_retry env wk c rcd w)"
  using assms next_retry_attempt [of rcd "ep_max_attempts (dw_endpoint wk)" env wk c w]
  by (simp add: is_retry_of_def may_retry_def) (simp add: next_retry_def Let_def)

definition follows_protocol ::
  "DurableWorker \<Rightarrow> RecordCursor \<Rightarrow> bool \<Rightarrow> DurableRecord \<Rightarrow> World \<Rightarrow> (string + unit) \<times> World \<Rightarrow> bool" where
  "follows_protocol wk cursor ic rcd w rw \<longleftrightarrow>
    (\<exists>es. wo_effects (snd rw) = wo_effects w @ es \<and> protocol wk cursor ic rcd es (is_ok (fst rw))
      \<and> set (wo_completed (snd rw)) = (if is_ok (fst rw) then insert (dr_delivery_id rcd) (set (wo_completed w))
          else set (wo_completed w)))"

text \<open>The end of a delivery: commit the input, then remember the delivery.\<close>

definition finish ::
  "DurableEnv \<Rightarrow> DurableWorker \<Rightarrow> RecordCursor \<Rightarrow> bool \<Rightarrow> string \<Rightarrow> World \<Rightarrow> (string + unit) \<times> World" where
  "finish env wk cursor ic delivery_id w =
    (case commit_input env ic cursor w of
       (Inl e, w) \<Rightarrow> (Inl e, w)
     | (Inr _, w) \<Rightarrow> remember_completed delivery_id (dw_max_recovery_records wk) w)"

lemma finish_cases:
  assumes "finish env wk cursor ic i w = (res, w')"
  obtains (uncommitted) "\<not> is_ok res" "wo_effects w' = wo_effects w" "wo_completed w' = wo_completed w"
  | (committed) "wo_effects w' = wo_effects w @ commits ic cursor"
      "set (wo_completed w') = (if is_ok res then insert i (set (wo_completed w)) else set (wo_completed w))"
proof -
  obtain cres w1 where c: "commit_input env ic cursor w = (cres, w1)" by fastforce
  note e = commit_input_effects [OF c]
  show thesis
  proof (cases cres)
    case (Inl x)
    with assms c e show thesis by (intro uncommitted) (auto simp: finish_def)
  next
    case (Inr x)
    with assms c have "remember_completed i (dw_max_recovery_records wk) w1 = (res, w')" by (simp add: finish_def)
    from remember_completed_effects [OF this] e Inr show thesis
      by (intro committed) (auto split: sum.splits)
  qed
qed

lemma process_loop_delivered:
  assumes "sleep_until env (dr_next_attempt_at_ms rcd) w = Inr u"
    and "run_attempt env wk body rcd w = (ODelivered code, w1)"
  shows "process_loop env wk body cursor ic rcd w =
    finish env wk cursor ic (dr_delivery_id rcd) (bump record_webhook_success w1)"
  using assms by (simp add: process_loop.simps [of env] finish_def)

lemma process_loop_retry:
  assumes "sleep_until env (dr_next_attempt_at_ms rcd) w = Inr u"
    and "run_attempt env wk body rcd w = (OFailed c, w1)" and "may_retry wk c rcd"
  shows "process_loop env wk body cursor ic rcd w =
    (case publish_record env (dw_retry_topic wk) (next_retry env wk c rcd w1) (dw_max_record_bytes wk) w1 of
       (Inl e, w) \<Rightarrow> (Inl e, w)
     | (Inr _, w) \<Rightarrow>
       (case commit_input env ic cursor (bump record_webhook_retry_scheduled w) of
          (Inl e, w) \<Rightarrow> (Inl e, w)
        | (Inr _, w) \<Rightarrow> process_loop env wk body cursor True (next_retry env wk c rcd w1) w))"
  using assms by (simp add: process_loop.simps [of env wk body cursor ic rcd w] may_retry_def Let_def)

lemma dead_letter_id: "dr_delivery_id (dead_letter c rcd) = dr_delivery_id rcd"
  by (simp add: dead_letter_def)

lemma process_loop_dead:
  assumes "sleep_until env (dr_next_attempt_at_ms rcd) w = Inr u"
    and "run_attempt env wk body rcd w = (OFailed c, w1)" and "\<not> may_retry wk c rcd"
  shows "process_loop env wk body cursor ic rcd w =
    (case publish_record env (dw_dead_letter_topic wk) (dead_letter c rcd) (dw_max_record_bytes wk) w1 of
       (Inl e, w) \<Rightarrow> (Inl e, w)
     | (Inr _, w) \<Rightarrow> finish env wk cursor ic (dr_delivery_id rcd)
         (bump record_webhook_failure (bump record_webhook_dead_letter w)))"
  using assms dead_letter_id [of c rcd]
  by (auto simp: process_loop.simps [of env wk body cursor ic rcd w] may_retry_def Let_def finish_def
      split: prod.split sum.split)

lemma dead_refined:
  assumes "sleep_until env (dr_next_attempt_at_ms rcd) w = Inr u"
    and a: "run_attempt env wk body rcd w = (OFailed c, w1)" and "\<not> may_retry wk c rcd"
  shows "follows_protocol wk cursor ic rcd w (process_loop env wk body cursor ic rcd w)"
proof -
  note loop = process_loop_dead [OF assms] and a' = run_attempt_effects [OF a]
  obtain pres w2 where p: "publish_record env (dw_dead_letter_topic wk) (dead_letter c rcd) (dw_max_record_bytes wk) w1 = (pres, w2)"
    by fastforce
  note p' = publish_record_effects [OF p]
  show ?thesis
  proof (cases pres)
    case (Inl e)
    with loop p p' a' show ?thesis by (auto simp: follows_protocol_def intro: unpublished)
  next
    case (Inr x)
    obtain res w3 where f: "finish env wk cursor ic (dr_delivery_id rcd)
        (bump record_webhook_failure (bump record_webhook_dead_letter w2)) = (res, w3)" by fastforce
    show ?thesis using loop p p' a' Inr f assms(3)
      by (cases rule: finish_cases [OF f])
        (auto simp: follows_protocol_def intro: dead_uncommitted dead [simplified])
  qed
qed

lemma retry_refined:
  assumes "sleep_until env (dr_next_attempt_at_ms rcd) w = Inr u"
    and a: "run_attempt env wk body rcd w = (OFailed c, w1)" and m: "may_retry wk c rcd"
    and IH: "\<And>w2. follows_protocol wk cursor True (next_retry env wk c rcd w1) w2
        (process_loop env wk body cursor True (next_retry env wk c rcd w1) w2)"
  shows "follows_protocol wk cursor ic rcd w (process_loop env wk body cursor ic rcd w)"
proof -
  let ?rcd = "next_retry env wk c rcd w1"
  note loop = process_loop_retry [OF assms(1-3)] and a' = run_attempt_effects [OF a]
  have again: "is_retry_of c rcd ?rcd" using m by (rule next_retry_is_retry)
  have same: "dr_delivery_id ?rcd = dr_delivery_id rcd" by (simp add: next_retry_def Let_def)
  obtain pres w2 where p: "publish_record env (dw_retry_topic wk) ?rcd (dw_max_record_bytes wk) w1 = (pres, w2)"
    by fastforce
  note p' = publish_record_effects [OF p]
  obtain cres w3 where c: "commit_input env ic cursor (bump record_webhook_retry_scheduled w2) = (cres, w3)" by fastforce
  note c' = commit_input_effects [OF c]
  show ?thesis
  proof (cases pres)
    case (Inl e)
    with loop p p' a' show ?thesis by (auto simp: follows_protocol_def intro: unpublished)
  next
    case published: (Inr x)
    show ?thesis
    proof (cases cres)
      case (Inl e)
      with loop p p' a' c c' published m again show ?thesis
        by (auto simp: follows_protocol_def intro: retry_uncommitted)
    next
      case (Inr y)
      have "process_loop env wk body cursor ic rcd w = process_loop env wk body cursor True ?rcd w3"
        using loop p c published Inr by simp
      moreover obtain es where "wo_effects (snd (process_loop env wk body cursor True ?rcd w3)) = wo_effects w3 @ es"
        "protocol wk cursor True ?rcd es (is_ok (fst (process_loop env wk body cursor True ?rcd w3)))"
        "set (wo_completed (snd (process_loop env wk body cursor True ?rcd w3))) =
          (if is_ok (fst (process_loop env wk body cursor True ?rcd w3)) then insert (dr_delivery_id rcd) (set (wo_completed w3))
           else set (wo_completed w3))"
        using IH [of w3] same by (auto simp: follows_protocol_def)
      ultimately show ?thesis using p' a' c' published Inr retry [OF m again]
        by (auto simp: follows_protocol_def)
    qed
  qed
qed

lemma protocol_refined: "follows_protocol wk cursor ic rcd w (process_loop env wk body cursor ic rcd w)"
proof (induction "unat (ep_max_attempts (dw_endpoint wk)) - unat (dr_attempt rcd)" arbitrary: ic rcd w rule: less_induct)
  case less
  show ?case
  proof (cases "sleep_until env (dr_next_attempt_at_ms rcd) w")
    case (Inl e)
    then show ?thesis by (simp add: process_loop.simps [of env] follows_protocol_def interrupted)
  next
    case awake: (Inr u)
    obtain outcome w1 where a: "run_attempt env wk body rcd w = (outcome, w1)" by fastforce
    show ?thesis
    proof (cases outcome)
      case (ODelivered code)
      obtain res w2 where f: "finish env wk cursor ic (dr_delivery_id rcd) (bump record_webhook_success w1) = (res, w2)"
        by fastforce
      show ?thesis using process_loop_delivered [OF awake a [unfolded ODelivered]] run_attempt_effects [OF a] ODelivered f
        by (cases rule: finish_cases [OF f]) (auto simp: follows_protocol_def intro!: success success_uncommitted)
    next
      case (OFailed c)
      note a = a [unfolded OFailed]
      show ?thesis
      proof (cases "may_retry wk c rcd")
        case True
        then have "dr_attempt rcd < ep_max_attempts (dw_endpoint wk)" by (simp add: may_retry_def)
        then have "unat (ep_max_attempts (dw_endpoint wk)) - unat (dr_attempt (next_retry env wk c rcd w1))
            < unat (ep_max_attempts (dw_endpoint wk)) - unat (dr_attempt rcd)"
          using next_retry_attempt by (simp add: word_less_nat_alt)
        with less show ?thesis by (intro retry_refined [OF awake a True])
      next
        case False
        with awake a show ?thesis by (rule dead_refined)
      qed
    qed
  qed
qed

subsection \<open>Promises of the protocol\<close>

fun is_commit :: "Effect \<Rightarrow> bool" where
  "is_commit (ECommit _ _ _) = True"
| "is_commit _ = False"

fun is_attempt :: "Effect \<Rightarrow> bool" where
  "is_attempt (EAttempt _ _) = True"
| "is_attempt _ = False"

text \<open>The records of one delivery differ only in attempt, due time, failure class and state.\<close>

definition same_delivery :: "DurableRecord \<Rightarrow> DurableRecord \<Rightarrow> bool" where
  "same_delivery a b \<longleftrightarrow> dr_delivery_id a = dr_delivery_id b \<and> dr_destination_id a = dr_destination_id b
    \<and> dr_original_message_id a = dr_original_message_id b \<and> dr_body_base64 a = dr_body_base64 b"

text \<open>What makes it safe to commit a record: the remote success, or a record of the delivery in the
  retry or the dead-letter topic.\<close>

fun settles :: "DurableWorker \<Rightarrow> DurableRecord \<Rightarrow> Effect \<Rightarrow> bool" where
  "settles wk rcd (EAttempt r (ODelivered _)) \<longleftrightarrow> same_delivery r rcd"
| "settles wk rcd (EPublish t r) \<longleftrightarrow> same_delivery r rcd \<and> (t = dw_retry_topic wk \<or> t = dw_dead_letter_topic wk)"
| "settles wk rcd _ \<longleftrightarrow> False"

text \<open>The end of a delivery: its success or its dead letter.\<close>

fun terminal :: "Effect \<Rightarrow> string option" where
  "terminal (EAttempt r (ODelivered _)) = Some (dr_delivery_id r)"
| "terminal (EPublish _ r) = (if dr_state r = DeadLetterState then Some (dr_delivery_id r) else None)"
| "terminal _ = None"

definition terminals :: "Effect list \<Rightarrow> string list" where
  "terminals es = List.map_filter terminal es"

lemma terminals_simps [simp]:
  "terminals [] = []" "terminals (xs @ ys) = terminals xs @ terminals ys"
  "terminals (e # es) = (case terminal e of None \<Rightarrow> terminals es | Some i \<Rightarrow> i # terminals es)"
  by (simp_all add: terminals_def List.map_filter_def split: option.split)

lemma same_delivery_refl [simp]: "same_delivery r r" "same_delivery (dead_letter c r) r"
  by (simp_all add: same_delivery_def dead_letter_def)

lemma is_retry_of_same:
  assumes "is_retry_of c r r'"
  shows "same_delivery r' r" "dr_state r' = RetryState" "unat (dr_attempt r') = Suc (unat (dr_attempt r))"
    "dr_delivery_id r' = dr_delivery_id r"
proof -
  have eq: "r' = r\<lparr>dr_attempt := dr_attempt r', dr_next_attempt_at_ms := dr_next_attempt_at_ms r',
      dr_last_error_class := Some c, dr_state := RetryState\<rparr>" using assms by (simp add: is_retry_of_def)
  show "same_delivery r' r" by (subst eq) (simp add: same_delivery_def)
  show "dr_state r' = RetryState" by (subst eq) simp
  show "dr_delivery_id r' = dr_delivery_id r" by (subst eq) simp
  show "unat (dr_attempt r') = Suc (unat (dr_attempt r))" using assms by (simp add: is_retry_of_def)
qed

lemma commits_simps [simp]:
  "commits True cursor = []" "filter is_commit (commits ic cursor) = commits ic cursor"
  "filter is_attempt (commits ic cursor) = []" "terminals (commits ic cursor) = []"
  by (simp_all add: commits_def)

lemma protocol_commits:
  "protocol wk cursor ic rcd es fin \<Longrightarrow>
   filter is_commit es = commits ic cursor \<or> \<not> fin \<and> filter is_commit es = []"
  by (induction rule: protocol.induct) auto

lemma protocol_settled:
  "protocol wk cursor ic rcd es fin \<Longrightarrow>
   list_ex (settles wk rcd) (takeWhile (\<lambda>e. \<not> is_commit e) es) \<or> filter is_commit es = []"
proof (induction rule: protocol.induct)
  case (retry c rcd rcd' es fin ic)
  then show ?case by (auto simp: is_retry_of_same)
qed (auto simp: is_retry_of_same)

lemma protocol_attempts:
  "protocol wk cursor ic rcd es fin \<Longrightarrow>
   length (filter is_attempt es) \<le> Suc (unat (ep_max_attempts (dw_endpoint wk)) - unat (dr_attempt rcd))"
proof (induction rule: protocol.induct)
  case (retry c rcd rcd' es fin ic)
  then have "unat (dr_attempt rcd) < unat (ep_max_attempts (dw_endpoint wk))"
    by (simp add: may_retry_def word_less_nat_alt)
  with retry is_retry_of_same(3) [OF retry(2)] show ?case by simp
qed simp_all

lemma protocol_terminals:
  "protocol wk cursor ic rcd es fin \<Longrightarrow>
   terminals es = [dr_delivery_id rcd] \<or> \<not> fin \<and> terminals es = []"
  by (induction rule: protocol.induct) (auto simp: is_retry_of_same dead_letter_def)

end
