(* ===== verification/Durable_Props.thy ===== *)
theory Durable_Props
  imports Durable_Protocol
begin

text \<open>
  The properties of the durable webhook worker, for one record (\<open>process\<close>) and for whole runs
  (\<open>durable_run\<close>): settled before committed, one terminal outcome per delivery, bounded attempts,
  completion, and the backoff schedule.
\<close>

subsection \<open>One record\<close>

lemma process_follows:
  "follows_protocol wk (in_cursor input) False (in_record input) w (process env wk input w)"
proof (cases "de_base64_decode env (dr_body_base64 (in_record input))")
  case (Inl e)
  then show ?thesis by (simp add: process_def follows_protocol_def interrupted)
next
  case (Inr body)
  then show ?thesis by (simp add: process_def protocol_refined)
qed

lemma process_journal:
  assumes "process env wk input w = (res, w')"
  obtains es where "wo_effects w' = wo_effects w @ es"
    "protocol wk (in_cursor input) False (in_record input) es (is_ok res)"
    "set (wo_completed w') = (if is_ok res then insert (dr_delivery_id (in_record input)) (set (wo_completed w))
       else set (wo_completed w))"
  using process_follows [of wk input w env] assms by (auto simp: follows_protocol_def)

lemma takeWhile_prefix_split:
  assumes "list_ex P (takeWhile (\<lambda>e. \<not> Q e) (xs @ e # ys))" and "Q e"
  shows "list_ex P xs"
proof -
  have "set (takeWhile (\<lambda>e. \<not> Q e) (xs @ e # ys)) \<subseteq> set xs"
    using assms(2) by (induction xs) auto
  with assms(1) show ?thesis by (auto simp: list_ex_iff)
qed

lemma protocol_settled_split:
  assumes "protocol wk cursor ic rcd es fin" and "es = xs @ e # ys" and "is_commit e"
  shows "list_ex (settles wk rcd) xs"
  using protocol_settled [OF assms(1)] assms(2,3) takeWhile_prefix_split [of "settles wk rcd" is_commit xs e ys]
  by auto

subsection \<open>Runs\<close>

definition received_inputs :: "DurableEnv \<Rightarrow> DurableWorker \<Rightarrow> ConsumerEvent list \<Rightarrow> InputRecord list" where
  "received_inputs env wk evs = List.map_filter (\<lambda>ev. case ev of
      CMessage msg \<Rightarrow> (case input_from_message env (dw_max_record_bytes wk) msg of Inl _ \<Rightarrow> None | Inr i \<Rightarrow> Some i)
    | _ \<Rightarrow> None) evs"

lemma received_inputs_simps [simp]:
  "received_inputs env wk [] = []"
  "received_inputs env wk (xs @ ys) = received_inputs env wk xs @ received_inputs env wk ys"
  by (simp_all add: received_inputs_def List.map_filter_def)

lemma received_inputs_message:
  "input_from_message env (dw_max_record_bytes wk) msg = Inr i \<Longrightarrow> received_inputs env wk [CMessage msg] = [i]"
  by (simp add: received_inputs_def List.map_filter_def)

fun settled_id :: "string \<Rightarrow> Effect \<Rightarrow> bool" where
  "settled_id i (EAttempt r (ODelivered _)) \<longleftrightarrow> dr_delivery_id r = i"
| "settled_id i (EPublish _ r) \<longleftrightarrow> dr_delivery_id r = i"
| "settled_id i _ \<longleftrightarrow> False"

text \<open>
  Every commit of the journal belongs to a received record of another destination, or of a delivery
  that was settled before the commit.
\<close>

definition commits_justified :: "DurableWorker \<Rightarrow> InputRecord list \<Rightarrow> Effect list \<Rightarrow> bool" where
  "commits_justified wk inputs es \<longleftrightarrow>
    (\<forall>xs e ys. es = xs @ e # ys \<longrightarrow> is_commit e \<longrightarrow>
      (\<exists>input\<in>set inputs. [e] = commits False (in_cursor input)
        \<and> (dr_destination_id (in_record input) \<noteq> ep_id (dw_endpoint wk)
           \<or> list_ex (settled_id (dr_delivery_id (in_record input))) xs)))"

fun is_ended :: "Phase \<Rightarrow> bool" where
  "is_ended (Ended _) = True"
| "is_ended _ = False"

definition run_inv :: "DurableWorker \<Rightarrow> InputRecord list \<Rightarrow> Phase \<times> World \<Rightarrow> bool" where
  "run_inv wk inputs s \<longleftrightarrow>
    distinct (terminals (wo_effects (snd s)))
    \<and> set (wo_completed (snd s)) \<subseteq> set (terminals (wo_effects (snd s)))
    \<and> (is_ended (fst s) \<or> set (terminals (wo_effects (snd s))) \<subseteq> set (wo_completed (snd s)))
    \<and> commits_justified wk inputs (wo_effects (snd s))"

text \<open>What one event does: nothing to the journal, a commit of a record that needs no work, or \<open>process\<close>.\<close>

definition own_open :: "DurableWorker \<Rightarrow> InputRecord \<Rightarrow> World \<Rightarrow> bool" where
  "own_open wk input w \<longleftrightarrow> dr_destination_id (in_record input) = ep_id (dw_endpoint wk)
    \<and> dr_delivery_id (in_record input) \<notin> set (wo_completed w)"

lemma ended_on_error_eq:
  "ended_on_error ph (res, w) = (if is_ok res then ph else Ended (Inl (projl res)), w)"
  by (cases res) (simp_all add: ended_on_error_def)

lemma commit_handled:
  assumes "ended_on_error ph0 (commit_cursor env cursor w) = (ph', w')"
  shows "wo_completed w' = wo_completed w
    \<and> (wo_effects w' = wo_effects w \<or> wo_effects w' = wo_effects w @ commits False cursor)"
proof -
  obtain res w1 where "commit_cursor env cursor w = (res, w1)" by fastforce
  with assms commit_cursor_effects [OF this] show ?thesis by (cases res) (auto simp: ended_on_error_eq)
qed

lemma process_handled:
  assumes "ended_on_error ph0 (process env wk input w) = (ph', w')"
  obtains res where "process env wk input w = (res, w')" "is_ended ph' \<or> is_ok res"
  using assms by (cases "process env wk input w") (auto simp: ended_on_error_eq split: if_splits)

lemma recover_message:
  assumes "durable_step env wk ev (ph, w) = (ph', w')" and "ph = Recovering eof recovered"
    and "ev = CMessage msg" and "input_from_message env (dw_max_record_bytes wk) msg = Inr input"
  obtains "wo_effects w' = wo_effects w" "wo_completed w' = wo_completed w"
  | "\<not> own_open wk input w" "wo_effects w' = wo_effects w @ commits False (in_cursor input)"
      "wo_completed w' = wo_completed w"
  | w1 res where "own_open wk input w" "wo_effects w1 = wo_effects w" "wo_completed w1 = wo_completed w"
      "process env wk input w1 = (res, w')" "is_ended ph' \<or> is_ok res"
proof -
  define w1 where "w1 = bump record_webhook_recovery_replay w"
  have w1: "wo_effects w1 = wo_effects w" "wo_completed w1 = wo_completed w" by (simp_all add: w1_def)
  define ph0 where "ph0 = (\<lambda>n. Recovering (removeAll (kr_partition msg) eof) n)"
  have step: "(if dr_destination_id (in_record input) \<noteq> ep_id (dw_endpoint wk)
      then ended_on_error (ph0 recovered) (commit_cursor env (in_cursor input) w)
      else if min (recovered + 1) usize_max > dw_max_recovery_records wk
      then (Ended (Inl (''retry recovery exceeded configured limit '' @ show_nat (dw_max_recovery_records wk))), w1)
      else ended_on_error (ph0 (min (recovered + 1) usize_max))
        (if dr_delivery_id (in_record input) \<in> set (wo_completed w) then commit_cursor env (in_cursor input) w1
         else process env wk input w1)) = (ph', w')"
    using assms(1) unfolding assms(2,3) durable_step_def recover_step_def Let_def ph0_def w1_def prod.case
      Phase.case ConsumerEvent.case assms(4) sum.case world_simps .
  show thesis
  proof (cases "own_open wk input w")
    case True
    then show thesis using step w1 that(1) that(3) [OF True w1]
      by (auto simp: own_open_def split: if_splits elim: process_handled)
  next
    case False
    then show thesis using step w1 that(1) that(2) [OF False]
      by (auto simp: own_open_def split: if_splits dest!: commit_handled)
  qed
qed

lemma durable_step_cases:
  assumes "durable_step env wk ev (ph, w) = (ph', w')"
  obtains (quiet) "wo_effects w' = wo_effects w" "wo_completed w' = wo_completed w" "is_ended ph \<Longrightarrow> is_ended ph'"
  | (skipped) msg input where "ev = CMessage msg" "input_from_message env (dw_max_record_bytes wk) msg = Inr input"
      "\<not> own_open wk input w" "\<not> is_ended ph"
      "wo_effects w' = wo_effects w @ commits False (in_cursor input)" "wo_completed w' = wo_completed w"
  | (processed) msg input w1 res where "ev = CMessage msg" "input_from_message env (dw_max_record_bytes wk) msg = Inr input"
      "own_open wk input w" "\<not> is_ended ph" "wo_effects w1 = wo_effects w" "wo_completed w1 = wo_completed w"
      "process env wk input w1 = (res, w')" "is_ended ph' \<or> is_ok res"
proof (cases ph)
  case (Ended r)
  with assms show thesis by (intro quiet) (auto simp: durable_step_def)
next
  case Serving
  show thesis
  proof (cases "\<exists>msg input. ev = CMessage msg \<and> input_from_message env (dw_max_record_bytes wk) msg = Inr input")
    case False
    with assms Serving show thesis
      by (intro quiet) (auto simp: durable_step_def serve_step_def split: ConsumerEvent.splits sum.splits)
  next
    case True
    then obtain msg input where ev: "ev = CMessage msg" "input_from_message env (dw_max_record_bytes wk) msg = Inr input"
      by blast
    with assms Serving have *: "ended_on_error Serving (if own_open wk input w then process env wk input w
        else commit_cursor env (in_cursor input) w) = (ph', w')"
      by (auto simp: durable_step_def serve_step_def own_open_def split: if_splits)
    show thesis
    proof (cases "own_open wk input w")
      case True
      with * show thesis using processed [OF ev True _ refl refl] Serving by (auto elim: process_handled)
    next
      case False
      with * have "ended_on_error Serving (commit_cursor env (in_cursor input) w) = (ph', w')" by simp
      from commit_handled [OF this] show thesis using skipped [OF ev False] quiet Serving by auto
    qed
  qed
next
  case (Recovering eof recovered)
  show thesis
  proof (cases "\<exists>msg input. ev = CMessage msg \<and> input_from_message env (dw_max_record_bytes wk) msg = Inr input")
    case False
    with assms Recovering show thesis
      by (intro quiet) (auto simp: durable_step_def recover_step_def Let_def
        split: ConsumerEvent.splits sum.splits if_splits Phase.splits)
  next
    case True
    then obtain msg input where ev: "ev = CMessage msg" "input_from_message env (dw_max_record_bytes wk) msg = Inr input"
      by blast
    show thesis using recover_message [OF assms Recovering ev] quiet skipped [OF ev] processed [OF ev] Recovering
      by auto
  qed
qed

lemma append_split:
  assumes "es @ new = xs @ e # ys"
  obtains (old) zs where "es = xs @ e # zs" | (new) zs where "new = zs @ e # ys" "xs = es @ zs"
  using assms by (auto simp: append_eq_append_conv2 append_eq_Cons_conv)

definition justified :: "DurableWorker \<Rightarrow> InputRecord \<Rightarrow> Effect list \<Rightarrow> Effect \<Rightarrow> bool" where
  "justified wk input before e \<longleftrightarrow> [e] = commits False (in_cursor input)
    \<and> (dr_destination_id (in_record input) \<noteq> ep_id (dw_endpoint wk)
       \<or> list_ex (settled_id (dr_delivery_id (in_record input))) before)"

lemma commits_justified_append:
  assumes "commits_justified wk inputs es" and "set inputs \<subseteq> set inputs'"
    and "\<And>xs e ys. new = xs @ e # ys \<Longrightarrow> is_commit e \<Longrightarrow> \<exists>input\<in>set inputs'. justified wk input (es @ xs) e"
  shows "commits_justified wk inputs' (es @ new)"
  unfolding commits_justified_def
proof (intro allI impI)
  fix xs e ys assume eq: "es @ new = xs @ e # ys" and e: "is_commit e"
  from eq show "\<exists>input\<in>set inputs'. [e] = commits False (in_cursor input)
      \<and> (dr_destination_id (in_record input) \<noteq> ep_id (dw_endpoint wk)
         \<or> list_ex (settled_id (dr_delivery_id (in_record input))) xs)"
  proof (cases rule: append_split)
    case (old zs)
    with assms(1,2) e show ?thesis unfolding commits_justified_def by blast
  next
    case (new zs)
    with assms(3) e show ?thesis unfolding justified_def by blast
  qed
qed

lemma settles_settled_id: "settles wk rcd e \<Longrightarrow> settled_id (dr_delivery_id rcd) e"
  by (cases "(wk, rcd, e)" rule: settles.cases) (auto simp: same_delivery_def)

lemma terminal_settled_id: "i \<in> set (terminals es) \<Longrightarrow> list_ex (settled_id i) es"
proof (induction es)
  case (Cons e es)
  have "terminal e = Some i \<Longrightarrow> settled_id i e"
    by (cases e rule: terminal.cases) (auto split: if_splits)
  with Cons show ?case by (auto split: option.splits)
qed simp

lemma commits_justified_mono:
  "commits_justified wk inputs es \<Longrightarrow> set inputs \<subseteq> set inputs' \<Longrightarrow> commits_justified wk inputs' es"
  using commits_justified_append [of wk inputs es inputs' "[]"] by simp

lemma protocol_justified:
  assumes "commits_justified wk inputs old" and p: "protocol wk (in_cursor input) False (in_record input) es fin"
  shows "commits_justified wk (inputs @ [input]) (old @ es)"
proof (rule commits_justified_append [OF assms(1)])
  fix xs e ys assume split: "es = xs @ e # ys" and e: "is_commit e"
  have "filter is_commit es = commits False (in_cursor input)"
    using protocol_commits [OF p] split e by auto
  then have "[e] = commits False (in_cursor input)"
    using split e by (auto simp: commits_def filter_empty_conv append_eq_Cons_conv)
  moreover have "list_ex (settled_id (dr_delivery_id (in_record input))) xs"
    using protocol_settled_split [OF p split e] settles_settled_id by (fastforce simp: list_ex_iff)
  ultimately show "\<exists>i\<in>set (inputs @ [input]). justified wk i (old @ xs) e" by (auto simp: justified_def)
qed auto

lemma run_inv_step:
  assumes inv: "run_inv wk inputs (ph, w)" and step: "durable_step env wk ev (ph, w) = (ph', w')"
  shows "run_inv wk (inputs @ received_inputs env wk [ev]) (ph', w')"
  using step
proof (cases rule: durable_step_cases)
  case quiet
  with inv show ?thesis
    by (auto simp: run_inv_def elim: commits_justified_mono)
next
  case (skipped msg input)
  note recv = received_inputs_message [OF skipped(2), folded skipped(1)]
  have settled: "dr_destination_id (in_record input) \<noteq> ep_id (dw_endpoint wk)
      \<or> list_ex (settled_id (dr_delivery_id (in_record input))) (wo_effects w)"
    using inv skipped(3) by (auto simp: run_inv_def own_open_def intro: terminal_settled_id)
  have "commits_justified wk (inputs @ [input]) (wo_effects w @ commits False (in_cursor input))"
  proof (rule commits_justified_append)
    fix xs e ys assume "commits False (in_cursor input) = xs @ e # ys" and "is_commit e"
    then have "xs = []" "[e] = commits False (in_cursor input)" by (auto simp: commits_def Cons_eq_append_conv)
    with settled show "\<exists>i\<in>set (inputs @ [input]). justified wk i (wo_effects w @ xs) e" by (auto simp: justified_def)
  qed (use inv in \<open>auto simp: run_inv_def\<close>)
  with inv skipped recv show ?thesis by (auto simp: run_inv_def)
next
  case (processed msg input w1 res)
  note recv = received_inputs_message [OF processed(2), folded processed(1)]
  obtain es where es: "wo_effects w' = wo_effects w @ es"
    "protocol wk (in_cursor input) False (in_record input) es (is_ok res)"
    "set (wo_completed w') = (if is_ok res then insert (dr_delivery_id (in_record input)) (set (wo_completed w))
       else set (wo_completed w))"
    using process_journal [OF processed(7)] processed(5,6) by metis
  have "commits_justified wk (inputs @ [input]) (wo_effects w @ es)"
    using inv by (intro protocol_justified [OF _ es(2)]) (simp add: run_inv_def)
  moreover have "dr_delivery_id (in_record input) \<notin> set (terminals (wo_effects w))"
    using inv processed(3,4) by (auto simp: run_inv_def own_open_def)
  ultimately show ?thesis using inv es(1,3) protocol_terminals [OF es(2)] processed(4,8) recv
    by (auto simp: run_inv_def)
qed

text \<open>The run as a run of a system whose state also holds the records received so far.\<close>

definition tracked_step ::
  "DurableEnv \<Rightarrow> DurableWorker \<Rightarrow> ConsumerEvent \<Rightarrow> InputRecord list \<times> Phase \<times> World \<Rightarrow> InputRecord list \<times> Phase \<times> World" where
  "tracked_step env wk ev s = (fst s @ received_inputs env wk [ev], durable_step env wk ev (snd s))"

interpretation dr: run_invariant "tracked_step env wk" "\<lambda>s. run_inv wk (fst s) (snd s)" for env wk
proof
  fix s ev assume "run_inv wk (fst s) (snd s)"
  then show "run_inv wk (fst (tracked_step env wk ev s)) (snd (tracked_step env wk ev s))"
    using run_inv_step [of wk "fst s" "fst (snd s)" "snd (snd s)" env ev]
    by (metis fst_conv prod.collapse snd_conv tracked_step_def)
qed

lemma tracked_run:
  "fold (tracked_step env wk) evs (inputs, s) = (inputs @ received_inputs env wk evs, durable_run env wk evs s)"
proof (induction evs arbitrary: inputs s)
  case (Cons ev evs)
  have "received_inputs env wk (ev # evs) = received_inputs env wk [ev] @ received_inputs env wk evs"
    using received_inputs_simps(2) [of env wk "[ev]" evs] by simp
  with Cons show ?case by (simp add: tracked_step_def durable_run_def)
qed (simp add: durable_run_def)

lemma durable_run_inv:
  "run_inv wk (received_inputs env wk evs) (durable_run env wk evs (durable_start env, fresh_world))"
proof -
  have "run_inv wk [] (durable_start env, fresh_world)"
    by (simp add: run_inv_def fresh_world_def commits_justified_def)
  with dr.inv_run [of wk "([], durable_start env, fresh_world)" env evs] show ?thesis
    by (simp add: tracked_run)
qed

subsection \<open>A cooperating environment\<close>

definition cooperative :: "DurableEnv \<Rightarrow> DurableWorker \<Rightarrow> bool" where
  "cooperative env wk \<longleftrightarrow>
    (\<forall>n. de_send_error env n = None \<and> de_offset_error env n = None \<and> de_commit_error env n = None
         \<and> de_wait_shutdown env n = None)
    \<and> (\<forall>rcd. \<exists>payload. de_to_vec env rcd = Inr payload \<and> length payload \<le> dw_max_record_bytes wk)"

lemma cooperative_simps:
  assumes "cooperative env wk"
  shows "sleep_until env t w = Inr ()"
    and "publish_record env topic rcd (dw_max_record_bytes wk) w = (Inr (), with_effect (EPublish topic rcd) w)"
    and "fst (commit_input env ic cursor w) = Inr ()"
proof -
  obtain payload where "de_to_vec env rcd = Inr payload" "length payload \<le> dw_max_record_bytes wk"
    using assms by (auto simp: cooperative_def)
  then show "publish_record env topic rcd (dw_max_record_bytes wk) w = (Inr (), with_effect (EPublish topic rcd) w)"
    using assms by (simp add: publish_record_def cooperative_def)
qed (use assms in \<open>simp_all add: sleep_until_def commit_input_def commit_cursor_def cooperative_def\<close>)

lemma finish_cooperative:
  assumes "cooperative env wk"
  shows "fst (finish env wk cursor ic i w) = fst (remember_completed i (dw_max_recovery_records wk) w)"
proof -
  obtain w1 where c: "commit_input env ic cursor w = (Inr (), w1)"
    using cooperative_simps(3) [OF assms] by (metis prod.collapse)
  from commit_input_effects [OF c] show ?thesis by (simp add: finish_def c remember_completed_def)
qed

lemma remember_same:
  "wo_completed v = wo_completed w \<Longrightarrow> fst (remember_completed i n v) = fst (remember_completed i n w)"
  by (simp add: remember_completed_def)

lemma process_loop_cooperative:
  assumes coop: "cooperative env wk"
  shows "fst (process_loop env wk body cursor ic rcd w) =
    fst (remember_completed (dr_delivery_id rcd) (dw_max_recovery_records wk) w)"
proof (induction "unat (ep_max_attempts (dw_endpoint wk)) - unat (dr_attempt rcd)" arbitrary: ic rcd w rule: less_induct)
  case less
  note awake = cooperative_simps(1) [OF coop]
  obtain outcome w1 where a: "run_attempt env wk body rcd w = (outcome, w1)" by fastforce
  note a' = run_attempt_effects [OF a]
  show ?case
  proof (cases outcome)
    case (ODelivered code)
    show ?thesis unfolding process_loop_delivered [OF awake a [unfolded ODelivered]] finish_cooperative [OF coop]
      using a' by (intro remember_same) simp
  next
    case (OFailed c)
    show ?thesis
    proof (cases "may_retry wk c rcd")
      case False
      show ?thesis
        unfolding process_loop_dead [OF awake a [unfolded OFailed] False] cooperative_simps(2) [OF coop] prod.case
          sum.case finish_cooperative [OF coop]
        using a' by (intro remember_same) simp
    next
      case True
      let ?rcd = "next_retry env wk c rcd w1"
      obtain w2 where c: "commit_input env ic cursor (bump record_webhook_retry_scheduled
          (with_effect (EPublish (dw_retry_topic wk) ?rcd) w1)) = (Inr (), w2)"
        using cooperative_simps(3) [OF coop] by (metis prod.collapse)
      have lt: "dr_attempt rcd < ep_max_attempts (dw_endpoint wk)" using True by (simp add: may_retry_def)
      have dec: "unat (ep_max_attempts (dw_endpoint wk)) - unat (dr_attempt ?rcd)
          < unat (ep_max_attempts (dw_endpoint wk)) - unat (dr_attempt rcd)"
        using next_retry_attempt [OF lt] lt by (simp add: word_less_nat_alt)
      show ?thesis
        unfolding process_loop_retry [OF awake a [unfolded OFailed] True] cooperative_simps(2) [OF coop] prod.case
          sum.case c less [OF dec] is_retry_of_same(4) [OF next_retry_is_retry [OF True]]
        using a' commit_input_effects [OF c] by (intro remember_same) simp
    qed
  qed
qed

subsection \<open>The backoff schedule\<close>

lemma unat_min: "unat (min a b) = min (unat a) (unat b)" for a b :: "'a::len word"
  by (simp add: min_def word_le_nat_alt)

lemma doubled_capped:
  fixes d limit :: u64
  shows "min (unat (((\<lambda>d. min (sat_mul d 2) limit) ^^ k) d)) (unat limit) = min (unat d * 2 ^ k) (unat limit)"
proof (induction k)
  case (Suc k)
  let ?x = "unat (((\<lambda>d. min (sat_mul d 2) limit) ^^ k) d)"
  have "unat limit \<le> 2 ^ 64 - 1" using unsigned_less [of limit, where ?'a = nat] by simp
  then have "min (unat (((\<lambda>d. min (sat_mul d 2) limit) ^^ Suc k) d)) (unat limit) = min (?x * 2) (unat limit)"
    by (simp add: unat_min unat_sat_mul min.assoc min.absorb2)
  also have "\<dots> = min (min ?x (unat limit) * 2) (unat limit)" by (simp add: min_def)
  also have "\<dots> = min (unat d * 2 ^ Suc k) (unat limit)" unfolding Suc.IH by (simp add: min_def)
  finally show ?case .
qed simp

subsection \<open>A sample environment\<close>

definition sample_denv :: DurableEnv where
  "sample_denv = \<lparr>de_http = (\<lambda>_. sample_http), de_to_vec = (\<lambda>_. Inr ''{}''), de_from_slice = (\<lambda>_. Inl ''eof''),
     de_base64_decode = Inr, de_now_ms = (\<lambda>_. 1000), de_send_error = (\<lambda>_. None), de_offset_error = (\<lambda>_. None),
     de_commit_error = (\<lambda>_. None), de_subscribe_error = (\<lambda>_. None), de_wait_shutdown = (\<lambda>_. None),
     de_elapsed = (\<lambda>_. 0)\<rparr>"

definition sample_dworker :: DurableWorker where
  "sample_dworker = \<lparr>dw_endpoint = \<lparr>ep_id = ''billing'', ep_url = sample_url, ep_allow_private_ips = False,
       ep_timeout = 5000000000, ep_headers = [], ep_signing_secret = None, ep_max_attempts = 5,
       ep_initial_backoff_ms = 250, ep_max_backoff_ms = 30000\<rparr>,
     dw_delivery_topic = ''d'', dw_retry_topic = ''r'', dw_dead_letter_topic = ''x'', dw_max_record_bytes = 100,
     dw_max_recovery_records = 1\<rparr>"

definition sample_input :: "32 word \<Rightarrow> InputRecord" where
  "sample_input attempt = \<lparr>in_record = \<lparr>dr_schema_version = 1, dr_delivery_id = ''u1'', dr_destination_id = ''billing'',
       dr_original_message_id = ''m'', dr_body_base64 = ''e30='', dr_attempt = attempt, dr_next_attempt_at_ms = 0,
       dr_last_error_class = None, dr_source_topic = None, dr_source_partition = None, dr_source_offset = None,
       dr_trace_context = None, dr_state = DeliveryState\<rparr>,
     in_cursor = \<lparr>rcu_topic = ''d'', rcu_partition = 0, rcu_offset = 41\<rparr>\<rparr>"

lemma sample_cooperative: "cooperative sample_denv sample_dworker"
  by (simp add: cooperative_def sample_denv_def sample_dworker_def)

lemma sample_decode: "de_base64_decode sample_denv s = Inr s"
  by (simp add: sample_denv_def)

subsection \<open>Properties\<close>

text \<open>
  C17. Refinement: whatever the network, the broker and the clock do, the effects \<open>process\<close> adds to the
  journal are a journal of the delivery protocol for its record, complete exactly when \<open>process\<close>
  returns Ok, and then, and only then, the delivery is remembered as completed.
\<close>

theorem process_refines_protocol:
  "\<exists>es. wo_effects (snd (process env wk input w)) = wo_effects w @ es
    \<and> protocol wk (in_cursor input) False (in_record input) es (is_ok (fst (process env wk input w)))
    \<and> set (wo_completed (snd (process env wk input w))) =
        (if is_ok (fst (process env wk input w)) then insert (dr_delivery_id (in_record input)) (set (wo_completed w))
         else set (wo_completed w))"
  using process_follows by (simp only: follows_protocol_def)

text \<open>
  At least once: processing a record commits its offset at most once, and only after the delivery
  succeeded or a record of the same delivery, with the same body and destination, was published to
  the retry or the dead-letter topic. At whatever point the worker stops, the delivery is then either
  done or still in Kafka.
\<close>

theorem settled_before_commit:
  assumes "process env wk input w = (res, w')"
  shows "\<exists>es. wo_effects w' = wo_effects w @ es
    \<and> (filter is_commit es = [] \<or> filter is_commit es = commits False (in_cursor input))
    \<and> (\<forall>xs e ys. es = xs @ e # ys \<longrightarrow> is_commit e \<longrightarrow> list_ex (settles wk (in_record input)) xs)"
proof -
  obtain es where es: "wo_effects w' = wo_effects w @ es"
    "protocol wk (in_cursor input) False (in_record input) es (is_ok res)"
    using process_journal [OF assms] by blast
  with protocol_commits [OF es(2)] protocol_settled_split [OF es(2)] show ?thesis by auto
qed

text \<open>The sample endpoint answers 503 to the first two attempts and 200 to the third.\<close>

theorem settled_before_commit_witness:
  "\<exists>es. wo_effects (snd (process sample_denv sample_dworker (sample_input 1) fresh_world)) = es
    \<and> filter is_commit es = commits False (in_cursor (sample_input 1))
    \<and> list_ex (settles sample_dworker (in_record (sample_input 1))) (takeWhile (\<lambda>e. \<not> is_commit e) es)"
proof -
  let ?p = "process sample_denv sample_dworker (sample_input 1) fresh_world"
  obtain es where es: "wo_effects (snd ?p) = wo_effects fresh_world @ es"
    "filter is_commit es = [] \<or> filter is_commit es = commits False (in_cursor (sample_input 1))"
    "\<forall>xs e ys. es = xs @ e # ys \<longrightarrow> is_commit e \<longrightarrow> list_ex (settles sample_dworker (in_record (sample_input 1))) xs"
    using settled_before_commit [OF prod.collapse [symmetric]] by metis
  have "fst ?p = Inr ()"
    by (simp add: process_def sample_decode process_loop_cooperative [OF sample_cooperative])
      (simp add: remember_completed_def fresh_world_def sample_dworker_def)
  moreover obtain es' where es': "wo_effects (snd ?p) = wo_effects fresh_world @ es'"
    "protocol sample_dworker (in_cursor (sample_input 1)) False (in_record (sample_input 1)) es' (is_ok (fst ?p))"
    using process_journal [OF prod.collapse [symmetric]] by metis
  ultimately have "filter is_commit es \<noteq> []"
    using protocol_commits [OF es'(2)] es'(1) es(1) by (simp add: commits_def)
  moreover from this have "es = takeWhile (\<lambda>e. \<not> is_commit e) es @ hd (dropWhile (\<lambda>e. \<not> is_commit e) es)
      # tl (dropWhile (\<lambda>e. \<not> is_commit e) es)" "is_commit (hd (dropWhile (\<lambda>e. \<not> is_commit e) es))"
    using hd_dropWhile [of "\<lambda>e. \<not> is_commit e" es] by (auto simp: filter_empty_conv)
  ultimately show ?thesis using es by (intro exI [of _ es]) (auto simp: fresh_world_def)
qed

text \<open>
  C18. Runs: however the worker is driven, from its start through recovery and service, every offset it
  commits belongs to a record it received that is for another destination or whose delivery was
  settled before the commit.
\<close>

theorem run_commits_justified:
  "commits_justified wk (received_inputs env wk evs)
    (wo_effects (snd (durable_run env wk evs (durable_start env, fresh_world))))"
  using durable_run_inv by (simp add: run_inv_def)

text \<open>
  C19. In one run of the worker a delivery ends at most once: for each delivery id there is at most one
  remote success or dead letter, although its records may be read again from the retry topic.
\<close>

theorem run_single_outcome:
  "distinct (terminals (wo_effects (snd (durable_run env wk evs (durable_start env, fresh_world)))))"
  using durable_run_inv by (simp add: run_inv_def)


text \<open>
  The retry schedule: before attempt \<open>n\<close> the worker waits the initial backoff doubled \<open>n - 2\<close> times
  and capped at the maximum; the saturating 64-bit arithmetic of the code computes exactly this.
\<close>

lemma retry_schedule:
  "unat (retry_delay_ms ep n) =
    min (unat (ep_initial_backoff_ms ep) * 2 ^ (unat n - 2)) (unat (ep_max_backoff_ms ep))"
  using doubled_capped [where limit = "ep_max_backoff_ms ep" and d = "ep_initial_backoff_ms ep" and k = "unat (sat_sub n 2)"]
  by (simp add: retry_delay_ms_def Let_def unat_min unat_sat_sub)



text \<open>
  C25. The set of completed deliveries is never pruned and bounded by the recovery limit. Once it is
  full, the next new delivery makes the worker return an error, even though its delivery succeeded or
  was dead-lettered and its offset was committed: after \<open>max_recovery_records\<close> deliveries in normal
  service the worker fails.
\<close>

theorem completed_set_exhausts:
  assumes "cooperative env wk" and "de_base64_decode env (dr_body_base64 (in_record input)) = Inr body"
    and "dw_max_recovery_records wk \<le> length (wo_completed w)"
    and "dr_delivery_id (in_record input) \<notin> set (wo_completed w)"
  shows "fst (process env wk input w) =
    Inl (''completed retry set exceeded configured limit '' @ show_nat (dw_max_recovery_records wk))"
  using assms by (simp add: process_def process_loop_cooperative remember_completed_def)

theorem completed_set_exhausts_witness:
  "fst (process sample_denv sample_dworker (sample_input 1) (fresh_world\<lparr>wo_completed := [''u0'']\<rparr>)) =
    Inl (''completed retry set exceeded configured limit '' @ show_nat 1)"
  using completed_set_exhausts [OF sample_cooperative sample_decode,
      of "fresh_world\<lparr>wo_completed := [''u0'']\<rparr>" "sample_input 1"]
  by (simp add: sample_dworker_def sample_input_def)

end
