(* ===== verification/Durable_Pipeline.thy ===== *)
theory Durable_Pipeline
  imports Durable_Sink Durable_Props
begin

text \<open>
  The router, the Kafka consumer and the durable sink together. \<open>dispatch\<close> queues a message for the
  connections of the matching destinations, and \<open>persist\<close> right after it takes exactly these deliveries
  off the queues and publishes one command for each. The invariant \<open>sink_inv\<close> between two messages:
  the route table lists the destinations under the keys of their filters, each has its connection
  with its one subscription, and its queue is empty.
\<close>

definition ready :: "'c mpsc_ops \<Rightarrow> 'c Router \<Rightarrow> connection_id \<Rightarrow> (SubscriptionId \<times> RouteFilter) list \<Rightarrow> Delivery list \<Rightarrow> bool" where
  "ready ops r c subs q \<longleftrightarrow>
    (case map_of (rt_connections r) c of None \<Rightarrow> False
     | Some cs \<Rightarrow> cs_subscriptions cs = subs \<and> ch_queued ops (cs_sender cs) = q
         \<and> \<not> ch_closed ops (cs_sender cs) \<and> 0 < ch_capacity ops (cs_sender cs))"

text \<open>Tokio's \<open>Receiver::recv\<close> on the non-empty queue of a registered connection: the oldest delivery.\<close>

definition recv_laws :: "'c mpsc_ops \<Rightarrow> ('c Router \<Rightarrow> connection_id \<Rightarrow> (Delivery option \<times> 'c Router) option) \<Rightarrow> bool" where
  "recv_laws ops recv \<longleftrightarrow>
    (\<forall>r c cs d q. map_of (rt_connections r) c = Some cs \<longrightarrow> ch_queued ops (cs_sender cs) = d # q \<longrightarrow>
      (\<exists>ch. recv r c = Some (Some d, r\<lparr>rt_connections := AList.update c (cs\<lparr>cs_sender := ch\<rparr>) (rt_connections r)\<rparr>)
        \<and> ch_queued ops ch = q \<and> ch_capacity ops ch = ch_capacity ops (cs_sender cs)
        \<and> ch_closed ops ch = ch_closed ops (cs_sender cs)))"

definition broker_accepts :: "DurableEnv \<Rightarrow> nat \<Rightarrow> bool" where
  "broker_accepts env max_record_bytes \<longleftrightarrow>
    (\<forall>n. de_send_error env n = None)
    \<and> (\<forall>rcd. \<exists>payload. de_to_vec env rcd = Inr payload \<and> length payload \<le> max_record_bytes)"

lemma broker_accepts_publish:
  assumes "broker_accepts env n"
  shows "publish_record env topic rcd n w = (Inr (), with_effect (EPublish topic rcd) w)"
proof -
  obtain payload where "de_to_vec env rcd = Inr payload" "length payload \<le> n"
    using assms by (auto simp: broker_accepts_def)
  with assms show ?thesis by (simp add: publish_record_def broker_accepts_def)
qed

subsection \<open>Draining the queues\<close>

definition drained :: "connection_id set \<Rightarrow> 'c mpsc_ops \<Rightarrow> 'c Router \<Rightarrow> 'c Router \<Rightarrow> bool" where
  "drained C ops r r' \<longleftrightarrow>
    (\<forall>c subs q. ready ops r c subs q \<longrightarrow> ready ops r' c subs (if c \<in> C then tl q else q))"

lemma drainedD:
  "drained C ops r r' \<Longrightarrow> ready ops r c subs q \<Longrightarrow> ready ops r' c subs (if c \<in> C then tl q else q)"
  by (simp only: drained_def)

lemma drained_trans:
  assumes "drained C ops r r1" and "drained D ops r1 r2" and "C \<inter> D = {}"
  shows "drained (C \<union> D) ops r r2"
  unfolding drained_def
proof (intro allI impI)
  fix c subs q assume "ready ops r c subs q"
  from drainedD [OF assms(2) drainedD [OF assms(1) this]]
  show "ready ops r2 c subs (if c \<in> C \<union> D then tl q else q)" using assms(3) by (auto split: if_splits)
qed

lemma recv_ready:
  assumes "recv_laws ops recv" and "ready ops r c subs (d # q)" and "router_inv r"
  obtains r1 where "recv r c = Some (Some d, r1)" "drained {c} ops r r1" "router_inv r1"
proof -
  obtain cs where cs: "map_of (rt_connections r) c = Some cs" "ch_queued ops (cs_sender cs) = d # q"
    using assms(2) by (auto simp: ready_def split: option.splits)
  obtain ch where ch: "recv r c = Some (Some d, r\<lparr>rt_connections := AList.update c (cs\<lparr>cs_sender := ch\<rparr>) (rt_connections r)\<rparr>)"
    "ch_queued ops ch = q" "ch_capacity ops ch = ch_capacity ops (cs_sender cs)"
    "ch_closed ops ch = ch_closed ops (cs_sender cs)"
    using assms(1) cs unfolding recv_laws_def by blast
  have "drained {c} ops r (r\<lparr>rt_connections := AList.update c (cs\<lparr>cs_sender := ch\<rparr>) (rt_connections r)\<rparr>)"
    using cs ch(2-4) by (auto simp: drained_def ready_def alist_simps split: option.splits)
  with that [OF ch(1)] receive_inv [OF assms(3) cs(1)] show thesis by blast
qed

lemma durable_command_inv:
  assumes "router_inv r"
  shows "router_inv (r\<lparr>rt_metrics := record_webhook_durable_command (rt_metrics r)\<rparr>)"
  using assms by (intro router_inv_metrics) (auto simp: record_webhook_durable_command_def router_inv_def
    gauges_ok_def metrics_shape_def conn_gauge_def sub_gauge_def split: DeliveryProtocol.split)

lemma persist_drains:
  assumes "recv_laws ops (se_recv env)" and "broker_accepts (se_durable env) (sk_max_record_bytes sk)"
    and "distinct (map rd_receiver ds)" and "router_inv r"
    and "\<And>d. d \<in> set ds \<Longrightarrow> \<exists>subs v. ready ops r (rd_receiver d) subs [v] \<and> dv_message v = m"
  shows "\<exists>r' w'. persist_destinations env sk m ds (r, w) = Some (Inr (), r', w')
    \<and> drained (rd_receiver ` set ds) ops r r' \<and> router_inv r'"
  using assms(3-5)
proof (induction ds arbitrary: r w)
  case Nil
  then show ?case by (simp add: drained_def)
next
  case (Cons d ds)
  obtain subs v where v: "ready ops r (rd_receiver d) subs [v]" "dv_message v = m" using Cons.prems(3) [of d] by auto
  obtain r1 where r1: "se_recv env r (rd_receiver d) = Some (Some v, r1)" "drained {rd_receiver d} ops r r1" "router_inv r1"
    using recv_ready [OF assms(1) v(1) Cons.prems(2)] by blast
  let ?r2 = "r1\<lparr>rt_metrics := record_webhook_durable_command (rt_metrics r1)\<rparr>"
  let ?w = "with_effect (EPublish (sk_topic sk) (delivery_command env (rd_id d) m v w)) w"
  have ready2: "ready ops ?r2 c subs q = ready ops r1 c subs q" for c subs q by (simp add: ready_def)
  have "\<exists>subs v. ready ops ?r2 (rd_receiver e) subs [v] \<and> dv_message v = m" if e: "e \<in> set ds" for e
  proof -
    have ne: "rd_receiver e \<noteq> rd_receiver d" using e Cons.prems(1) by (metis distinct.simps(2) image_eqI image_set list.map(2))
    obtain subs v where "ready ops r (rd_receiver e) subs [v]" "dv_message v = m"
      using Cons.prems(3) e by (meson list.set_intros(2))
    moreover from this have "ready ops r1 (rd_receiver e) subs [v]"
      using drainedD [OF r1(2), of "rd_receiver e" subs "[v]"] ne by simp
    ultimately show ?thesis unfolding ready2 by blast
  qed
  from Cons.IH [OF _ durable_command_inv [OF r1(3)] this, of ?w] Cons.prems(1)
  obtain r' w' where p: "persist_destinations env sk m ds (?r2, ?w) = Some (Inr (), r', w')"
    "drained (rd_receiver ` set ds) ops ?r2 r'" "router_inv r'" by auto
  have "drained (rd_receiver ` set ds) ops r1 r'" using p(2) unfolding drained_def ready2 .
  from drained_trans [OF r1(2) this] Cons.prems(1) have "drained (rd_receiver ` set (d # ds)) ops r r'" by simp
  moreover have "persist_destinations env sk m (d # ds) (r, w) = Some (Inr (), r', w')"
    using r1(1) v(2) p(1) by (simp add: broker_accepts_publish [OF assms(2)])
  ultimately show ?case using p(3) by blast
qed

subsection \<open>The route table\<close>

type_synonym destination_table = "(RouteDestination \<times> RouteFilter) list"

definition table_routes :: "destination_table \<Rightarrow> (RouteKey \<times> RouteDestination list) list \<Rightarrow> bool" where
  "table_routes table routes \<longleftrightarrow>
    (\<forall>k. or_default (map_of routes k) = map fst (filter (\<lambda>df. route_key_of (snd df) = k) table))"

definition table_ready :: "'c mpsc_ops \<Rightarrow> destination_table \<Rightarrow> 'c Router \<Rightarrow> bool" where
  "table_ready ops table r \<longleftrightarrow> distinct (map (\<lambda>df. rd_receiver (fst df)) table)
    \<and> (\<forall>df\<in>set table. filter_valid (snd df)
        \<and> ready ops r (rd_receiver (fst df)) [(SubscriptionId (''webhook:'' @ rd_id (fst df)), snd df)] [])"

definition sink_inv :: "'c mpsc_ops \<Rightarrow> DurableWebhookSink \<Rightarrow> destination_table \<Rightarrow> 'c Router \<Rightarrow> bool" where
  "sink_inv ops sk table r \<longleftrightarrow> table_routes table (sk_routes sk) \<and> table_ready ops table r"

text \<open>The destinations of a message: those whose filter accepts it, each once.\<close>

definition matching :: "destination_table \<Rightarrow> RoutingMetadata \<Rightarrow> destination_table" where
  "matching table md = filter (\<lambda>df. filter_matches (snd df) md) table"

lemma mset_concat_groups:
  assumes "distinct ks"
  shows "mset (concat (map (\<lambda>k. filter (\<lambda>x. g x = k) xs) ks)) = mset (filter (\<lambda>x. g x \<in> set ks) xs)"
  using assms
proof (induction ks)
  case (Cons k ks)
  have "mset (filter (\<lambda>x. g x = k) xs) + mset (filter (\<lambda>x. g x \<in> set ks) xs) = mset (filter (\<lambda>x. g x \<in> set (k # ks)) xs)"
    using Cons.prems by (induction xs) auto
  with Cons show ?case by simp
qed simp

lemma sink_destinations_matching:
  assumes "table_routes table (sk_routes sk)" and "list_all (\<lambda>df. filter_valid (snd df)) table" and "metadata_valid md"
  shows "mset (sink_destinations sk md) = mset (map fst (matching table md))"
proof -
  have "sink_destinations sk md =
      map fst (concat (map (\<lambda>k. filter (\<lambda>df. route_key_of (snd df) = k) table) (candidates md)))"
    using assms(1) by (simp add: sink_destinations_def table_routes_def map_concat o_def)
  then have "mset (sink_destinations sk md) =
      image_mset fst (mset (filter (\<lambda>df. route_key_of (snd df) \<in> set (candidates md)) table))"
    using mset_concat_groups [OF candidates_distinct [OF metadata_valid_recipient [OF assms(3)]], of "\<lambda>df. route_key_of (snd df)" table]
    by (simp add: mset_map)
  also have "filter (\<lambda>df. route_key_of (snd df) \<in> set (candidates md)) table = matching table md"
    unfolding matching_def using assms(2,3) by (auto simp: list_all_iff route_key_candidate_iff intro!: filter_cong)
  finally show ?thesis by simp
qed

subsection \<open>Dispatch and persist\<close>

lemma dispatch_ready:
  assumes laws: "mpsc_laws ops" and inv: "router_inv r" and md: "metadata_valid (rm_metadata m)"
    and d: "dispatch ops t1 t2 m r = Some (rep, r')" and ready: "ready ops r c [(s, f)] []"
  shows "if filter_matches f (rm_metadata m)
    then \<exists>v. ready ops r' c [(s, f)] [v] \<and> dv_message v = m else ready ops r' c [(s, f)] []"
proof -
  obtain cs where cs: "map_of (rt_connections r) c = Some cs" "cs_subscriptions cs = [(s, f)]"
    "ch_queued ops (cs_sender cs) = []" "\<not> ch_closed ops (cs_sender cs)" "0 < ch_capacity ops (cs_sender cs)"
    using ready by (auto simp: ready_def split: option.splits)
  note conn = dispatch_connection [OF inv d, of c]
  have ref: "ref_matches cs (rm_metadata m) = [] \<longleftrightarrow> \<not> filter_matches f (rm_metadata m)"
    by (simp add: ref_matches_def cs(2))
  show ?thesis
  proof (cases "map_of (collect_matches (rt_routes r) (rm_metadata m)) c")
    case None
    with conn ref cs collected_none [OF inv md cs(1)] ready show ?thesis by (simp add: ready_def)
  next
    case (Some ids)
    let ?v = "\<lparr>dv_message = m, dv_subscription_ids = ids\<rparr>"
    note send = mpsc_send_facts [OF laws, of "cs_sender cs" ?v]
    have closed: "ch_closed ops (snd (ch_try_send ops (cs_sender cs) ?v)) = ch_closed ops (cs_sender cs)"
      using laws by (simp add: mpsc_laws_def)
    have out: "send_outcome ops m ids cs = SendOk" using send(2) cs(3-5) by (simp add: send_outcome_def)
    with conn Some cs(1) have "map_of (rt_connections r') c = Some (after_send ops m ids cs)" by (simp add: evicted_def)
    then have "ready ops r' c [(s, f)] [?v]"
      using send cs closed out by (simp add: ready_def after_send_def send_outcome_def)
    moreover have "filter_matches f (rm_metadata m)"
      using Some ref collected_none [OF inv md cs(1)] by auto
    ultimately show ?thesis by auto
  qed
qed

lemma matching_receivers:
  assumes "table_ready ops table r" and "df \<in> set table"
  shows "rd_receiver (fst df) \<in> (\<lambda>df. rd_receiver (fst df)) ` set (matching table md)
    \<longleftrightarrow> filter_matches (snd df) md"
proof -
  have "inj_on (\<lambda>df. rd_receiver (fst df)) (set table)"
    using assms(1) by (simp add: table_ready_def distinct_map)
  with assms(2) show ?thesis by (auto simp: matching_def dest: inj_onD)
qed

lemma sink_destinations_facts:
  assumes tr: "table_ready ops table r" and routes: "table_routes table (sk_routes sk)" and md: "metadata_valid md"
  shows "distinct (map rd_receiver (sink_destinations sk md))"
    and "set (sink_destinations sk md) = fst ` set (matching table md)"
proof -
  have mset: "mset (sink_destinations sk md) = mset (map fst (matching table md))"
    using sink_destinations_matching [OF routes _ md] tr by (simp add: table_ready_def list_all_iff)
  have "mset (map rd_receiver (sink_destinations sk md)) = mset (map (\<lambda>df. rd_receiver (fst df)) (matching table md))"
    unfolding mset_map mset by (simp add: image_mset.compositionality o_def)
  moreover have "distinct (map (\<lambda>df. rd_receiver (fst df)) (matching table md))"
    using tr by (simp add: matching_def table_ready_def distinct_map_filter)
  ultimately show "distinct (map rd_receiver (sink_destinations sk md))" using mset_eq_imp_distinct_iff by blast
  show "set (sink_destinations sk md) = fst ` set (matching table md)" using mset by (metis list.set_map mset_eq_setD)
qed

lemma pipeline_step:
  assumes laws: "mpsc_laws ops" "recv_laws ops (se_recv env)" "broker_accepts (se_durable env) (sk_max_record_bytes sk)"
    and inv: "router_inv r" "sink_inv ops sk table r" and md: "metadata_valid (rm_metadata m)"
    and d: "dispatch ops t1 t2 m r = Some (rep, r1)"
  shows "\<exists>r2 w'. persist env sk m (r1, w) = Some (Inr (), r2, w') \<and> router_inv r2 \<and> sink_inv ops sk table r2
    \<and> (\<exists>es. wo_effects w' = wo_effects w @ es \<and> list_all2 (commands sk m) (sink_destinations sk (rm_metadata m)) es)"
proof -
  let ?ds = "sink_destinations sk (rm_metadata m)"
  have tr: "table_ready ops table r" and routes: "table_routes table (sk_routes sk)"
    using inv(2) by (auto simp: sink_inv_def)
  note dist = sink_destinations_facts(1) [OF tr routes md] and set = sink_destinations_facts(2) [OF tr routes md]
  note after = dispatch_ready [OF laws(1) inv(1) md d]
  have "\<exists>subs v. ready ops r1 (rd_receiver e) subs [v] \<and> dv_message v = m" if e: "e \<in> set ?ds" for e
  proof -
    from e obtain df where df: "df \<in> set table" "filter_matches (snd df) (rm_metadata m)" "e = fst df"
      unfolding set matching_def by auto
    then have "ready ops r (rd_receiver e) [(SubscriptionId (''webhook:'' @ rd_id e), snd df)] []"
      using tr by (simp add: table_ready_def)
    from after [OF this] df(2) show ?thesis by auto
  qed
  from persist_drains [OF laws(2,3) dist dispatch_inv [OF inv(1) d] this]
  obtain r2 w' where p: "persist env sk m (r1, w) = Some (Inr (), r2, w')" "drained (rd_receiver ` set ?ds) ops r1 r2"
    "router_inv r2" unfolding persist_def by blast
  have "ready ops r2 (rd_receiver (fst df)) [(SubscriptionId (''webhook:'' @ rd_id (fst df)), snd df)] []"
    if df: "df \<in> set table" for df
  proof -
    have "rd_receiver (fst df) \<in> rd_receiver ` set ?ds \<longleftrightarrow> filter_matches (snd df) (rm_metadata m)"
      using matching_receivers [OF tr df] set by (simp add: image_image)
    moreover have "ready ops r (rd_receiver (fst df)) [(SubscriptionId (''webhook:'' @ rd_id (fst df)), snd df)] []"
      using tr df by (simp add: table_ready_def)
    note now = after [OF this]
    show ?thesis
    proof (cases "filter_matches (snd df) (rm_metadata m)")
      case True
      with now obtain v where
        "ready ops r1 (rd_receiver (fst df)) [(SubscriptionId (''webhook:'' @ rd_id (fst df)), snd df)] [v]" by auto
      from drainedD [OF p(2) this] True calculation show ?thesis by simp
    next
      case False
      with now have "ready ops r1 (rd_receiver (fst df)) [(SubscriptionId (''webhook:'' @ rd_id (fst df)), snd df)] []"
        by simp
      from drainedD [OF p(2) this] False calculation show ?thesis by simp
    qed
  qed
  then have "sink_inv ops sk table r2" using tr routes by (simp add: sink_inv_def table_ready_def)
  moreover obtain es where "wo_effects w' = wo_effects w @ es" "list_all2 (commands sk m) ?ds es"
    using p(1) by (elim persist_journal) simp
  ultimately show ?thesis using p(1,3) by blast
qed

subsection \<open>Construction\<close>

text \<open>Outside the registered connections the router is what it was.\<close>

definition only_added :: "'c Router \<Rightarrow> connection_id list \<Rightarrow> 'c Router \<Rightarrow> bool" where
  "only_added r0 ids r \<longleftrightarrow> router_inv r
    \<and> (\<forall>c. map_of (rt_connections r) c \<noteq> map_of (rt_connections r0) c \<longrightarrow> c \<in> set ids)
    \<and> (\<forall>c\<in>set ids. map_of (rt_connections r0) c = None)"

definition building_ok :: "'c mpsc_ops \<Rightarrow> destination_table \<Rightarrow> 'c Building \<Rightarrow> bool" where
  "building_ok ops table b \<longleftrightarrow> table_routes table (bd_routes b) \<and> table_ready ops table (bd_router b)
    \<and> bd_ids b = map (\<lambda>df. rd_receiver (fst df)) table"

lemma unregister_all_connections:
  "map_of (rt_connections (unregister_all ids r)) c = (if c \<in> set ids then None else map_of (rt_connections r) c)"
  unfolding unregister_all_def
  by (induction ids arbitrary: r) (auto simp: unregister_connection_def alist_simps split: option.splits)

lemma unregister_all_inv: "router_inv r \<Longrightarrow> router_inv (unregister_all ids r)"
  unfolding unregister_all_def by (induction ids arbitrary: r) (simp_all add: unregister_connection_inv)

lemma only_added_undone:
  assumes "only_added r0 ids r"
  shows "map_of (rt_connections (unregister_all ids r)) = map_of (rt_connections r0)"
  using assms by (intro ext) (auto simp: unregister_all_connections only_added_def)

lemma table_routes_push:
  assumes "table_routes table routes"
  shows "table_routes (table @ [(d, f)])
    (AList.update (route_key_of f) (or_default (map_of routes (route_key_of f)) @ [d]) routes)"
  using assms by (auto simp: table_routes_def alist_simps or_default_def split: option.splits)

lemma ready_frame:
  "map_of (rt_connections r') c = map_of (rt_connections r) c \<Longrightarrow> ready ops r' c subs q = ready ops r c subs q"
  by (simp add: ready_def)

text \<open>A new connection with its subscription, in a router it did not know.\<close>

definition joined ::
  "'c mpsc_ops \<Rightarrow> connection_id \<Rightarrow> WebhookDestinationConfig \<Rightarrow> 'c Router \<Rightarrow> 'c Router \<Rightarrow> bool" where
  "joined ops fresh destination r r' \<longleftrightarrow> router_inv r' \<and> filter_valid (wd_filter destination)
    \<and> ready ops r' fresh [(SubscriptionId (''webhook:'' @ wd_id destination), wd_filter destination)] []
    \<and> (\<forall>c. c \<noteq> fresh \<longrightarrow> map_of (rt_connections r') c = map_of (rt_connections r) c)"

lemma register_subscribe_joined:
  assumes laws: "mpsc_laws ops" and inv: "router_inv r" and fresh: "map_of (rt_connections r) fresh = None"
    and reg: "register_connection ops fresh tenant HttpWebhook (Some n) r = (Inr c, r1)"
    and sub: "subscribe c (SubscriptionId (''webhook:'' @ wd_id d)) (wd_filter d) r1 = (Inr u, r2)"
  shows "c = fresh \<and> joined ops fresh d r r2"
proof -
  have r1: "c = fresh" "r1 = registered ops fresh tenant HttpWebhook n r" "0 < n"
    using reg by (auto simp: register_connection_Inr queue_request_def)
  have inv2: "router_inv r2" using subscribe_inv [OF register_connection_inv [OF inv fresh reg] sub] .
  have chan: "ch_queued ops (ch_channel ops n) = []" "ch_capacity ops (ch_channel ops n) = n" "\<not> ch_closed ops (ch_channel ops n)"
    using laws r1(3) by (auto simp: mpsc_laws_def)
  have "filter_valid (wd_filter d)" "r2 = with_subscription fresh
      \<lparr>cs_tenant_id = tenant, cs_protocol = HttpWebhook, cs_sender = ch_channel ops n, cs_subscriptions = [], cs_full_strikes = 0\<rparr>
      (SubscriptionId (''webhook:'' @ wd_id d)) (wd_filter d) (registered ops fresh tenant HttpWebhook n r)"
    using sub r1 by (auto simp: subscribe_Inr map_of_registered)
  with chan r1(1,3) inv2 show ?thesis
    by (auto simp: joined_def ready_def with_subscription_def registered_def alist_simps)
qed

lemma build_destination_cases:
  assumes laws: "mpsc_laws ops" and inv: "router_inv (bd_router b)" and fresh: "map_of (rt_connections (bd_router b)) fresh = None"
    and build: "build_destination env ops durable fresh d b = (res, b')"
  obtains (refused) e where "res = Inl e" "bd_ids b' = bd_ids b"
      "map_of (rt_connections (bd_router b')) = map_of (rt_connections (bd_router b))" "router_inv (bd_router b')"
  | (unsubscribed) e where "res = Inl e" "bd_ids b' = bd_ids b @ [fresh]" "router_inv (bd_router b')"
      "\<And>c. c \<noteq> fresh \<Longrightarrow> map_of (rt_connections (bd_router b')) c = map_of (rt_connections (bd_router b)) c"
  | (joined) "joined ops fresh d (bd_router b) (bd_router b')" "bd_ids b' = bd_ids b @ [fresh]"
      "bd_routes b' = AList.update (route_key_of (wd_filter d)) (or_default (map_of (bd_routes b) (route_key_of (wd_filter d)))
        @ [\<lparr>rd_id = wd_id d, rd_receiver = fresh\<rparr>]) (bd_routes b)"
proof (cases "subscription_id_new (''webhook:'' @ wd_id d)")
  case (Inl e)
  with build inv show thesis by (intro refused) (auto simp: build_destination_def)
next
  case (Inr sid)
  then have sid: "sid = SubscriptionId (''webhook:'' @ wd_id d)" by (simp add: validate_simps)
  obtain reg r1 where reg: "register_connection ops fresh (rf_tenant_id (wd_filter d)) HttpWebhook
      (Some (wd_queue_capacity d)) (bd_router b) = (reg, r1)" by fastforce
  note inv1 = register_connection_inv [OF inv fresh reg]
  show thesis
  proof (cases reg)
    case (Inl e)
    with build reg Inr inv1 register_connection_Inl [OF reg [unfolded Inl]] show thesis
      by (intro refused) (auto simp: build_destination_def)
  next
    case registered: (Inr c)
    obtain sub r2 where sub: "subscribe c sid (wd_filter d) r1 = (sub, r2)" by fastforce
    note inv2 = subscribe_inv [OF inv1 sub]
    have c: "c = fresh" and other: "\<And>c. c \<noteq> fresh \<Longrightarrow> map_of (rt_connections r1) c = map_of (rt_connections (bd_router b)) c"
      using reg registered by (auto simp: register_connection_Inr registered_def alist_simps)
    show thesis
    proof (cases sub)
      case (Inl e)
      with build reg registered sub Inr inv2 other c subscribe_Inl [OF sub [unfolded Inl]] show thesis
        by (intro unsubscribed) (auto simp: build_destination_def Let_def)
    next
      case (Inr u)
      with build reg registered sub \<open>subscription_id_new _ = _\<close> c
        register_subscribe_joined [OF laws inv fresh reg [unfolded registered] sub [unfolded Inr sid]]
      show thesis by (intro joined) (auto simp: build_destination_def Let_def split: sum.splits)
    qed
  qed
qed

lemma joined_only_added:
  assumes "only_added r0 ids r" and "map_of (rt_connections r) fresh = None" and "fresh \<notin> set ids" and "router_inv r'"
    and "\<And>c. c \<noteq> fresh \<Longrightarrow> map_of (rt_connections r') c = map_of (rt_connections r) c"
  shows "only_added r0 (ids @ [fresh]) r'"
proof -
  have "map_of (rt_connections r0) fresh = None" using assms(1-3) unfolding only_added_def by force
  moreover have "c \<in> set (ids @ [fresh])" if "map_of (rt_connections r') c \<noteq> map_of (rt_connections r0) c" for c
    using assms(1) assms(5) [of c] that unfolding only_added_def by (cases "c = fresh") auto
  ultimately show ?thesis using assms(1,4) unfolding only_added_def by auto
qed

lemma joined_building_ok:
  assumes "building_ok ops table b" and "joined ops fresh d (bd_router b) (bd_router b')" and "fresh \<notin> set (bd_ids b)"
    and "bd_ids b' = bd_ids b @ [fresh]"
    and "bd_routes b' = AList.update (route_key_of (wd_filter d)) (or_default (map_of (bd_routes b) (route_key_of (wd_filter d)))
        @ [\<lparr>rd_id = wd_id d, rd_receiver = fresh\<rparr>]) (bd_routes b)"
  shows "building_ok ops (table @ [(\<lparr>rd_id = wd_id d, rd_receiver = fresh\<rparr>, wd_filter d)]) b'"
proof -
  have ids: "fresh \<notin> (\<lambda>df. rd_receiver (fst df)) ` set table" using assms(1,3) by (simp add: building_ok_def)
  have "ready ops (bd_router b') (rd_receiver (fst df)) subs q = ready ops (bd_router b) (rd_receiver (fst df)) subs q"
    if "df \<in> set table" for df subs q
    using assms(2) that ids by (intro ready_frame) (auto simp: joined_def)
  with assms(1,2) ids have "table_ready ops (table @ [(\<lparr>rd_id = wd_id d, rd_receiver = fresh\<rparr>, wd_filter d)]) (bd_router b')"
    by (auto simp: building_ok_def table_ready_def joined_def)
  with assms(1,4,5) show ?thesis by (simp add: building_ok_def table_routes_push)
qed

lemma build_destinations_result:
  assumes laws: "mpsc_laws ops" and "only_added r0 (bd_ids b) (bd_router b)" and "building_ok ops table b"
    and "distinct (map fst ds)" and "set (map fst ds) \<inter> set (bd_ids b) = {}"
    and "\<And>c. c \<in> set (map fst ds) \<Longrightarrow> map_of (rt_connections r0) c = None"
    and "build_destinations env ops durable ds b = (res, b')"
  shows "only_added r0 (bd_ids b') (bd_router b') \<and> (res = Inr () \<longrightarrow>
    building_ok ops (table @ map (\<lambda>(c, d). (\<lparr>rd_id = wd_id d, rd_receiver = c\<rparr>, wd_filter d)) ds) b')"
  using assms(2-)
proof (induction ds arbitrary: b table)
  case Nil
  then show ?case by simp
next
  case (Cons cd ds)
  obtain fresh d where cd: "cd = (fresh, d)" by fastforce
  obtain res1 b1 where one: "build_destination env ops durable fresh d b = (res1, b1)" by fastforce
  have inv: "router_inv (bd_router b)" using Cons.prems(1) by (simp add: only_added_def)
  have ni: "fresh \<notin> set (bd_ids b)" using Cons.prems(4) cd by simp
  then have fresh: "map_of (rt_connections (bd_router b)) fresh = None"
    using Cons.prems(1,5) cd by (force simp: only_added_def)
  note added = joined_only_added [OF Cons.prems(1) fresh ni]
  show ?case
    using laws inv fresh one
  proof (cases rule: build_destination_cases)
    case (refused e)
    with Cons.prems(1,6) cd one show ?thesis by (auto simp: only_added_def)
  next
    case (unsubscribed e)
    with added Cons.prems(6) cd one show ?thesis by auto
  next
    case joined
    have add1: "only_added r0 (bd_ids b1) (bd_router b1)"
      unfolding joined(2) using joined by (intro added) (auto simp: joined_def)
    have "building_ok ops (table @ [(\<lparr>rd_id = wd_id d, rd_receiver = fresh\<rparr>, wd_filter d)]) b1"
      using Cons.prems(2) joined ni by (intro joined_building_ok)
    from Cons.IH [OF add1 this] show ?thesis
      using Cons.prems(3-6) joined(2) cd one add1 by (cases res1) auto
  qed
qed

text \<open>The destinations of the configuration with their connections.\<close>

definition configured_table :: "(nat \<Rightarrow> connection_id) \<Rightarrow> WebhookConfig \<Rightarrow> destination_table" where
  "configured_table fresh config = map (\<lambda>(i, d). (\<lparr>rd_id = wd_id d, rd_receiver = fresh i\<rparr>, wd_filter d))
    (enumerate 0 (wc_destinations config))"

lemma build_runtime_facts:
  assumes laws: "mpsc_laws ops" and inv: "router_inv r" and fresh: "inj_on fresh {..<length (wc_destinations config)}"
    "\<And>i. i < length (wc_destinations config) \<Longrightarrow> map_of (rt_connections r) (fresh i) = None"
    and build: "build_durable_runtime env ops fresh config r = (res, r')"
  shows "case res of
      Inl e \<Rightarrow> map_of (rt_connections r') = map_of (rt_connections r)
    | Inr rt \<Rightarrow> router_inv r' \<and> sink_inv ops (rn_sink rt) (configured_table fresh config) r'"
proof (cases "se_producer_error env (durable_producer_settings (wc_durable config))")
  case (Some e)
  with build show ?thesis by (auto simp: build_durable_runtime_def)
next
  case None
  let ?ds = "map (\<lambda>(i, destination). (fresh i, destination)) (enumerate 0 (wc_destinations config))"
  let ?b0 = "\<lparr>bd_router = r, bd_ids = [], bd_routes = [], bd_workers = []\<rparr>"
  have fst: "map fst ?ds = map fresh [0..<length (wc_destinations config)]"
    by (rule nth_equalityI) (simp_all add: nth_enumerate_eq)
  obtain bres b where b: "build_destinations env ops (wc_durable config) ?ds ?b0 = (bres, b)" by fastforce
  have "only_added r (bd_ids b) (bd_router b) \<and> (bres = Inr () \<longrightarrow>
      building_ok ops ([] @ map (\<lambda>(c, d). (\<lparr>rd_id = wd_id d, rd_receiver = c\<rparr>, wd_filter d)) ?ds) b)"
  proof (rule build_destinations_result [OF laws _ _ _ _ _ b])
    show "only_added r (bd_ids ?b0) (bd_router ?b0)" using inv by (simp add: only_added_def)
    show "building_ok ops [] ?b0" by (simp add: building_ok_def table_routes_def table_ready_def or_default_def)
    show "distinct (map fst ?ds)" unfolding fst using fresh(1) by (simp add: distinct_map lessThan_atLeast0)
    show "map_of (rt_connections r) c = None" if "c \<in> set (map fst ?ds)" for c
      using that fresh(2) unfolding fst by auto
  qed simp
  moreover have "[] @ map (\<lambda>(c, d). (\<lparr>rd_id = wd_id d, rd_receiver = c\<rparr>, wd_filter d)) ?ds = configured_table fresh config"
    by (simp add: configured_table_def o_def case_prod_beta)
  ultimately have "only_added r (bd_ids b) (bd_router b)" "bres = Inr () \<Longrightarrow> building_ok ops (configured_table fresh config) b" by simp_all
  with build None b only_added_undone [of r "bd_ids b" "bd_router b"] show ?thesis
    by (cases bres) (auto simp: build_durable_runtime_def building_ok_def sink_inv_def only_added_def)
qed

subsection \<open>A sample system\<close>

definition fifo_recv :: "(nat \<times> Delivery list \<times> bool) Router \<Rightarrow> connection_id
    \<Rightarrow> (Delivery option \<times> (nat \<times> Delivery list \<times> bool) Router) option" where
  "fifo_recv r c =
    (case map_of (rt_connections r) c of
       None \<Rightarrow> Some (None, r)
     | Some cs \<Rightarrow>
       (case cs_sender cs of
          (n, [], closed) \<Rightarrow> None
        | (n, d # q, closed) \<Rightarrow>
            Some (Some d, r\<lparr>rt_connections := AList.update c (cs\<lparr>cs_sender := (n, q, closed)\<rparr>) (rt_connections r)\<rparr>)))"

lemma fifo_recv_laws: "recv_laws fifo_ops fifo_recv"
  unfolding recv_laws_def
proof (intro allI impI)
  fix r :: "(nat \<times> Delivery list \<times> bool) Router" and c cs d q
  assume cs: "map_of (rt_connections r) c = Some cs" "ch_queued fifo_ops (cs_sender cs) = d # q"
  obtain n closed where s: "cs_sender cs = (n, d # q, closed)"
    using cs(2) by (cases "cs_sender cs") (auto simp: fifo_ops_def)
  show "\<exists>ch. fifo_recv r c = Some (Some d, r\<lparr>rt_connections := AList.update c (cs\<lparr>cs_sender := ch\<rparr>) (rt_connections r)\<rparr>)
      \<and> ch_queued fifo_ops ch = q \<and> ch_capacity fifo_ops ch = ch_capacity fifo_ops (cs_sender cs)
      \<and> ch_closed fifo_ops ch = ch_closed fifo_ops (cs_sender cs)"
    by (rule exI [of _ "(n, q, closed)"]) (simp add: fifo_recv_def cs(1) s, simp add: fifo_ops_def)
qed

definition sample_senv :: "(nat \<times> Delivery list \<times> bool) SinkEnv" where
  "sample_senv = \<lparr>se_durable = sample_denv, se_http = sample_http, se_uuid = (\<lambda>_. ''u''), se_recv = fifo_recv,
     se_producer_error = (\<lambda>_. None), se_consumer_error = (\<lambda>_. None)\<rparr>"

definition sample_wconfig :: WebhookConfig where
  "sample_wconfig = \<lparr>wc_enabled = True, wc_mode = WebhookDeliveryMode.Durable,
     wc_durable = durable_webhook_config_default, wc_destinations = [sample_destination]\<rparr>"

lemma sample_built:
  "\<exists>rt r. build_durable_runtime sample_senv fifo_ops (\<lambda>_. 9) sample_wconfig (router_new router_config_default) = (Inr rt, r)
    \<and> sk_max_record_bytes (rn_sink rt) = 2097152"
proof -
  obtain r where sub: "subscribe 9 (SubscriptionId ''webhook:billing'') sample_filter sample_joining = (Inr (), r)"
    using sample_join(3) by (metis prod.collapse)
  have "wd_url sample_destination = ''https://hooks.test/''" "wd_allowed_hosts sample_destination = []"
    "\<not> wd_allow_private_ips sample_destination" "\<not> wd_allow_http sample_destination"
    "wd_headers sample_destination = [(''x-team'', ''a'')]" "wd_allowed_ports sample_destination = []"
    by (simp_all add: sample_destination_def)
  then have "\<exists>wk. durable_worker_new sample_http (\<lambda>_. None) sample_destination durable = Inr wk" for durable
    by (simp add: durable_worker_new_def endpoint_new_def sample_checks del: parse_headers.simps)
  then obtain wk where wk: "durable_worker_new sample_http (\<lambda>_. None) sample_destination durable_webhook_config_default = Inr wk"
    by blast
  have senv: "se_http sample_senv = sample_http" "se_consumer_error sample_senv = (\<lambda>_. None)"
    "se_producer_error sample_senv = (\<lambda>_. None)" by (simp_all add: sample_senv_def)
  show ?thesis
    by (simp add: build_durable_runtime_def sample_wconfig_def build_destination_def sample_destination_simps
      sample_join(1,2) sub wk senv Let_def) (simp add: durable_webhook_config_default_def)
qed

lemma sample_system:
  "\<exists>(r :: (nat \<times> Delivery list \<times> bool) Router) sk. router_inv r
    \<and> sink_inv fifo_ops sk (configured_table (\<lambda>_. 9) sample_wconfig) r \<and> sk_max_record_bytes sk = 2097152"
proof -
  obtain rt r where b: "build_durable_runtime sample_senv fifo_ops (\<lambda>_. 9) sample_wconfig (router_new router_config_default) = (Inr rt, r)"
    "sk_max_record_bytes (rn_sink rt) = 2097152" using sample_built by blast
  have "inj_on (\<lambda>_. 9 :: connection_id) {..<length (wc_destinations sample_wconfig)}"
    by (simp add: sample_wconfig_def inj_on_def)
  from build_runtime_facts [OF fifo_laws router_new_inv [OF sample_config] this _ b(1)] b(2) show ?thesis
    by (auto simp: router_new_def)
qed

lemma sample_accepts: "broker_accepts (se_durable sample_senv) 2097152"
  by (simp add: broker_accepts_def sample_senv_def sample_denv_def)

subsection \<open>Properties\<close>


text \<open>
  Starting durable delivery is all or nothing: with unused connection ids, either every configured
  destination has its connection, its subscription and its place in the route table, with an empty
  queue, or the router has exactly the connections it had before.
\<close>

lemma durable_build_atomic:
  assumes "mpsc_laws ops" and "router_inv r" and "inj_on fresh {..<length (wc_destinations config)}"
    and "\<And>i. i < length (wc_destinations config) \<Longrightarrow> map_of (rt_connections r) (fresh i) = None"
  shows "case build_durable_runtime env ops fresh config r of
      (Inl e, r') \<Rightarrow> map_of (rt_connections r') = map_of (rt_connections r)
    | (Inr rt, r') \<Rightarrow> router_inv r' \<and> sink_inv ops (rn_sink rt) (configured_table fresh config) r'"
  using build_runtime_facts [OF assms prod.collapse [symmetric], of env]
  by (cases "build_durable_runtime env ops fresh config r") (auto split: sum.splits)

lemma durable_build_atomic_witness:
  "\<exists>rt (r :: (nat \<times> Delivery list \<times> bool) Router).
    build_durable_runtime sample_senv fifo_ops (\<lambda>_. 9) sample_wconfig (router_new router_config_default) = (Inr rt, r)
    \<and> sink_inv fifo_ops (rn_sink rt) (configured_table (\<lambda>_. 9) sample_wconfig) r"
proof -
  obtain rt r where b: "build_durable_runtime sample_senv fifo_ops (\<lambda>_. 9) sample_wconfig (router_new router_config_default) = (Inr rt, r)"
    using sample_built by blast
  have "inj_on (\<lambda>_. 9 :: connection_id) {..<length (wc_destinations sample_wconfig)}"
    by (simp add: sample_wconfig_def inj_on_def)
  from durable_build_atomic [OF fifo_laws router_new_inv [OF sample_config] this, of sample_senv] b show ?thesis
    by (auto simp: router_new_def)
qed

text \<open>
  No message is lost or stuck between router and Kafka: when a valid message is dispatched with the
  durable destinations idle and the broker accepts records, \<open>persist\<close> completes with Ok, publishing
  exactly one command for each destination whose filter accepts the message, in the order of the
  candidate keys, and leaves the destinations idle again.
\<close>

theorem dispatch_persist_pipeline:
  assumes "mpsc_laws ops" and "recv_laws ops (se_recv env)"
    and "broker_accepts (se_durable env) (sk_max_record_bytes sk)"
    and "router_inv r" and "sink_inv ops sk table r" and "metadata_valid (rm_metadata m)"
    and "dispatch ops t1 t2 m r = Some (rep, r1)"
  shows "\<exists>r2 w' es. persist env sk m (r1, w) = Some (Inr (), r2, w') \<and> router_inv r2 \<and> sink_inv ops sk table r2
    \<and> wo_effects w' = wo_effects w @ es \<and> list_all2 (commands sk m) (sink_destinations sk (rm_metadata m)) es
    \<and> mset (sink_destinations sk (rm_metadata m)) =
        mset (map fst (filter (\<lambda>df. filter_matches (snd df) (rm_metadata m)) table))"
proof -
  have "mset (sink_destinations sk (rm_metadata m)) = mset (map fst (matching table (rm_metadata m)))"
    using assms(5) by (intro sink_destinations_matching [OF _ _ assms(6)])
      (auto simp: sink_inv_def table_ready_def list_all_iff)
  with pipeline_step [OF assms, of w] show ?thesis unfolding matching_def by blast
qed

theorem dispatch_persist_pipeline_witness:
  "\<exists>(r1 :: (nat \<times> Delivery list \<times> bool) Router) sk r2 w'.
    persist sample_senv sk sample_message (r1, fresh_world) = Some (Inr (), r2, w')
    \<and> length (wo_effects w') = length (sink_destinations sk sample_metadata)"
proof -
  obtain r :: "(nat \<times> Delivery list \<times> bool) Router" and sk where
    s: "router_inv r" "sink_inv fifo_ops sk (configured_table (\<lambda>_. 9) sample_wconfig) r" "sk_max_record_bytes sk = 2097152"
    using sample_system by blast
  obtain rep r1 where d: "dispatch fifo_ops 0 0 sample_message r = Some (rep, r1)" by (simp add: dispatch_eq Let_def)
  have md: "metadata_valid (rm_metadata sample_message)" by (simp add: sample_message_def sample_metadata_valid)
  have "recv_laws fifo_ops (se_recv sample_senv)" by (simp add: sample_senv_def fifo_recv_laws)
  from dispatch_persist_pipeline [OF fifo_laws this _ s(1,2) md d, of fresh_world] sample_accepts s(3)
  obtain r2 w' es where "persist sample_senv sk sample_message (r1, fresh_world) = Some (Inr (), r2, w')"
    "wo_effects w' = wo_effects fresh_world @ es" "list_all2 (commands sk sample_message) (sink_destinations sk sample_metadata) es"
    by (auto simp: sample_message_def)
  then show ?thesis
    by (intro exI [of _ r1] exI [of _ sk] exI [of _ r2] exI [of _ w']) (simp add: fresh_world_def list_all2_lengthD)
qed

end
