(* ===== verification/Webhook_Manager.thy ===== *)
theory Webhook_Manager
  imports Durable_Pipeline
begin

text \<open>
  The webhook manager (\<open>WebhookManager\<close> in \<open>router-webhook/src/manager.rs\<close>): it starts the workers of
  the configured mode and supervises them. A worker that has been started owns a connection of the
  router and gives it up when it is dropped, so a start that fails half-way drops the workers it has.

  The ends of the worker tasks are an input of the supervision: for each task in the order of
  completion the worker's id, how it ended, and the shutdown flag at that time.
\<close>

record WebhookManager =
  mg_workers :: "WebhookWorker list"
  mg_durable_workers :: "DurableWorker list"
  mg_durable_sink :: "DurableWebhookSink option"

fun build_workers ::
  "HttpEnv \<Rightarrow> 'c mpsc_ops \<Rightarrow> (connection_id \<times> WebhookDestinationConfig) list \<Rightarrow> WebhookWorker list \<Rightarrow> 'c Router
   \<Rightarrow> (WebhookError + WebhookWorker list) \<times> 'c Router" where
  "build_workers env ops [] workers r = (Inr workers, r)"
| "build_workers env ops ((fresh, destination) # rest) workers r =
    (case worker_new env ops fresh destination r of
       (Inl e, r) \<Rightarrow> (Inl e, fold worker_drop workers r)
     | (Inr worker, r) \<Rightarrow> build_workers env ops rest (workers @ [worker]) r)"

definition manager_new ::
  "'c SinkEnv \<Rightarrow> 'c mpsc_ops \<Rightarrow> (nat \<Rightarrow> connection_id) \<Rightarrow> WebhookConfig \<Rightarrow> 'c Router
   \<Rightarrow> (WebhookError + WebhookManager) \<times> 'c Router" where
  "manager_new env ops fresh config r =
    (if \<not> wc_enabled config then
       (Inr \<lparr>mg_workers = [], mg_durable_workers = [], mg_durable_sink = None\<rparr>, r)
     else case wc_mode config of
       Volatile \<Rightarrow>
         (case build_workers (se_http env) ops
                 (map (\<lambda>(i, destination). (fresh i, destination)) (enumerate 0 (wc_destinations config))) [] r of
            (Inl e, r) \<Rightarrow> (Inl e, r)
          | (Inr workers, r) \<Rightarrow> (Inr \<lparr>mg_workers = workers, mg_durable_workers = [], mg_durable_sink = None\<rparr>, r))
     | WebhookDeliveryMode.Durable \<Rightarrow>
         (case build_durable_runtime env ops fresh config r of
            (Inl e, r) \<Rightarrow> (Inl e, r)
          | (Inr runtime, r) \<Rightarrow>
              (Inr \<lparr>mg_workers = [], mg_durable_workers = rn_workers runtime, mg_durable_sink = Some (rn_sink runtime)\<rparr>, r)))"

definition manager_sink :: "WebhookManager \<Rightarrow> DurableWebhookSink option" where
  "manager_sink mg = mg_durable_sink mg"

text \<open>
  Waiting for the shutdown flag: its value, and then the changes, where \<open>None\<close> means that the sender
  is gone. True if the wait has ended.
\<close>

fun await_shutdown :: "bool \<Rightarrow> bool option list \<Rightarrow> bool" where
  "await_shutdown True changes = True"
| "await_shutdown False [] = False"
| "await_shutdown False (None # changes) = True"
| "await_shutdown False (Some flag # changes) = await_shutdown flag changes"

datatype WorkerEnd = Returned "string + unit" | Panicked string

fun task_outcome :: "string \<Rightarrow> WorkerEnd \<Rightarrow> TaskOutcome" where
  "task_outcome ident (Returned result) = TaskResult (map_err (Worker ident) result)"
| "task_outcome ident (Panicked text) = TaskPanicked text"

definition manager_run ::
  "WebhookManager \<Rightarrow> bool \<Rightarrow> bool option list \<Rightarrow> (string \<times> WorkerEnd \<times> bool) list \<Rightarrow> (WebhookError + unit) option" where
  "manager_run mg flag changes ends =
    (if mg_workers mg = [] \<and> mg_durable_workers mg = [] then
       (if await_shutdown flag changes then Some (Inr ()) else None)
     else Some (join_tasks (map (\<lambda>(ident, e, shutdown). (task_outcome ident e, shutdown)) ends)))"

subsection \<open>Starting the workers\<close>

lemma fold_worker_drop: "fold worker_drop ws r = unregister_all (map ww_connection_id ws) r"
  unfolding unregister_all_def by (induction ws arbitrary: r) (simp_all add: worker_drop_def)

lemma worker_register_joined:
  assumes laws: "mpsc_laws ops" and inv: "router_inv r" and fresh: "map_of (rt_connections r) fresh = None"
    and w: "worker_register ops fresh d r = (res, r')"
  shows "case res of
      Inl e \<Rightarrow> router_inv r' \<and> rt_connections r' = rt_connections r
    | Inr c \<Rightarrow> c = fresh \<and> joined ops fresh d r r'"
proof -
  obtain reg r1 where reg: "register_connection ops fresh (rf_tenant_id (wd_filter d)) HttpWebhook
      (Some (wd_queue_capacity d)) r = (reg, r1)" by fastforce
  note inv1 = register_connection_inv [OF inv fresh reg]
  show ?thesis
  proof (cases reg)
    case (Inl e)
    with w reg inv1 worker_register_cases [OF fresh w] show ?thesis by (auto simp: worker_register_def)
  next
    case registered: (Inr c)
    show ?thesis
    proof (cases "subscription_id_new (''webhook:'' @ wd_id d)")
      case (Inl e)
      with w reg registered unregister_connection_inv [OF inv1] worker_register_cases [OF fresh w] show ?thesis
        by (auto simp: worker_register_def)
    next
      case sid: (Inr sid)
      then have sid': "sid = SubscriptionId (''webhook:'' @ wd_id d)" by (simp add: validate_simps)
      obtain sub r2 where sub: "subscribe c sid (wd_filter d) r1 = (sub, r2)" by fastforce
      note inv2 = unregister_connection_inv [OF subscribe_inv [OF inv1 sub]]
      show ?thesis
      proof (cases sub)
        case (Inl e)
        with w reg registered sid sub inv2 worker_register_cases [OF fresh w] show ?thesis
          by (auto simp: worker_register_def)
      next
        case (Inr u)
        with w reg registered sid sub
          register_subscribe_joined [OF laws inv fresh reg [unfolded registered] sub [unfolded Inr sid']]
        show ?thesis by (auto simp: worker_register_def)
      qed
    qed
  qed
qed

lemma worker_new_joined:
  assumes "mpsc_laws ops" and "router_inv r" and "map_of (rt_connections r) fresh = None"
    and "worker_new env ops fresh d r = (res, r')"
  shows "case res of
      Inl e \<Rightarrow> router_inv r' \<and> rt_connections r' = rt_connections r
    | Inr w \<Rightarrow> ww_id w = wd_id d \<and> ww_connection_id w = fresh \<and> joined ops fresh d r r'"
proof -
  obtain reg r1 where reg: "worker_register ops fresh d r = (reg, r1)" by fastforce
  show ?thesis using worker_register_joined [OF assms(1-3) reg] assms(2,4) reg
    by (auto simp: worker_new_def split: sum.splits prod.splits)
qed

text \<open>The workers and their destinations, each with its connection ready and nothing queued.\<close>

definition workers_ready ::
  "'c mpsc_ops \<Rightarrow> WebhookWorker list \<Rightarrow> WebhookDestinationConfig list \<Rightarrow> 'c Router \<Rightarrow> bool" where
  "workers_ready ops ws ds r \<longleftrightarrow> distinct (map ww_connection_id ws)
    \<and> list_all2 (\<lambda>w d. ww_id w = wd_id d \<and>
        ready ops r (ww_connection_id w) [(SubscriptionId (''webhook:'' @ wd_id d), wd_filter d)] []) ws ds"

lemma workers_ready_joined:
  assumes "workers_ready ops ws ds r" and "joined ops fresh d r r'" and "fresh \<notin> ww_connection_id ` set ws"
    and "ww_id w = wd_id d" and "ww_connection_id w = fresh"
  shows "workers_ready ops (ws @ [w]) (ds @ [d]) r'"
proof -
  have len: "length ws = length ds" using assms(1) unfolding workers_ready_def by (blast dest: list_all2_lengthD)
  have "ready ops r' (ww_connection_id (ws ! i)) subs q = ready ops r (ww_connection_id (ws ! i)) subs q"
    if "i < length ws" for i subs q
    using assms(2,3) that by (intro ready_frame) (auto simp: joined_def)
  with assms(1) have "list_all2 (\<lambda>w d. ww_id w = wd_id d \<and>
      ready ops r' (ww_connection_id w) [(SubscriptionId (''webhook:'' @ wd_id d), wd_filter d)] []) ws ds"
    by (simp add: workers_ready_def list_all2_conv_all_nth)
  then show ?thesis using assms len by (auto simp: workers_ready_def joined_def list_all2_append)
qed

lemma build_workers_result:
  assumes laws: "mpsc_laws ops" and "only_added r0 (map ww_connection_id ws) r" and "workers_ready ops ws ds0 r"
    and "distinct (map fst ds)" and "set (map fst ds) \<inter> ww_connection_id ` set ws = {}"
    and "\<And>c. c \<in> set (map fst ds) \<Longrightarrow> map_of (rt_connections r0) c = None"
    and "build_workers env ops ds ws r = (res, r')"
  shows "case res of
      Inl e \<Rightarrow> map_of (rt_connections r') = map_of (rt_connections r0)
    | Inr ws' \<Rightarrow> router_inv r' \<and> workers_ready ops ws' (ds0 @ map snd ds) r'"
  using assms(2-)
proof (induction ds arbitrary: ws r ds0)
  case Nil
  then show ?case by (auto simp: only_added_def)
next
  case (Cons cd ds)
  obtain fresh d where cd: "cd = (fresh, d)" by fastforce
  obtain one r1 where one: "worker_new env ops fresh d r = (one, r1)" by fastforce
  have inv: "router_inv r" using Cons.prems(1) by (simp add: only_added_def)
  have ni: "fresh \<notin> set (map ww_connection_id ws)" using Cons.prems(4) cd by simp
  then have fresh: "map_of (rt_connections r) fresh = None"
    using Cons.prems(1,5) cd by (force simp: only_added_def)
  note facts = worker_new_joined [OF laws inv fresh one]
  show ?case
  proof (cases one)
    case (Inl e)
    with facts Cons.prems(1) have "only_added r0 (map ww_connection_id ws) r1" by (simp add: only_added_def)
    from only_added_undone [OF this] Inl Cons.prems(6) cd one show ?thesis by (auto simp: fold_worker_drop)
  next
    case (Inr w)
    with facts have w: "ww_id w = wd_id d" "ww_connection_id w = fresh" "joined ops fresh d r r1" by simp_all
    have "only_added r0 (map ww_connection_id ws @ [fresh]) r1"
      using w(3) by (intro joined_only_added [OF Cons.prems(1) fresh ni]) (simp_all add: joined_def)
    moreover have "workers_ready ops (ws @ [w]) (ds0 @ [d]) r1"
      using ni by (intro workers_ready_joined [OF Cons.prems(2) w(3)]) (simp_all add: w)
    moreover have "build_workers env ops ds (ws @ [w]) r1 = (res, r')" using Cons.prems(6) cd one Inr by simp
    ultimately show ?thesis using Cons.IH [of "ws @ [w]" r1 "ds0 @ [d]"] Cons.prems(3-5) cd w(2)
      by (cases res) auto
  qed
qed

lemma volatile_start:
  assumes "mpsc_laws ops" and "router_inv r" and fresh: "inj_on fresh {..<length ds}"
    and "\<And>i. i < length ds \<Longrightarrow> map_of (rt_connections r) (fresh i) = None"
    and "build_workers env ops (map (\<lambda>(i, d). (fresh i, d)) (enumerate 0 ds)) [] r = (res, r')"
  shows "case res of
      Inl e \<Rightarrow> map_of (rt_connections r') = map_of (rt_connections r)
    | Inr ws \<Rightarrow> router_inv r' \<and> workers_ready ops ws ds r'"
proof -
  let ?ds = "map (\<lambda>(i, d). (fresh i, d)) (enumerate 0 ds)"
  have fst: "map fst ?ds = map fresh [0..<length ds]" and snd: "map snd ?ds = ds"
    by (rule nth_equalityI; simp add: nth_enumerate_eq)+
  have d: "distinct (map fst ?ds)" using fresh unfolding fst by (simp add: distinct_map atLeast0LessThan)
  have n: "map_of (rt_connections r) c = None" if "c \<in> set (map fst ?ds)" for c
    using that assms(4) unfolding fst by auto
  have "only_added r (map ww_connection_id []) r" "workers_ready ops [] [] r"
    using assms(2) by (simp_all add: only_added_def workers_ready_def)
  from build_workers_result [OF assms(1) this d _ n assms(5)] show ?thesis
    unfolding snd by (simp cong: sum.case_cong)
qed

subsection \<open>Supervision\<close>

lemma join_tasks_ok:
  "join_tasks ts = Inr () \<longleftrightarrow> list_all (\<lambda>(t, shutdown). shutdown \<and> t = TaskResult (Inr ())) ts"
  by (induction ts rule: join_tasks.induct) auto

lemma await_shutdown_iff:
  "await_shutdown flag changes \<longleftrightarrow> flag \<or> None \<in> set changes \<or> Some True \<in> set changes"
  by (induction flag changes rule: await_shutdown.induct) auto

subsection \<open>Properties\<close>

text \<open>
  C22. Starting the webhook manager is all or nothing, in both delivery modes: with unused connection
  ids, an error leaves the router with exactly the connections it had, although earlier destinations
  had already been registered; otherwise every configured destination has its own connection with its
  one subscription and an empty queue, volatile ones owned by their worker and durable ones by the
  source-commit sink.
\<close>

theorem manager_new_atomic:
  assumes "mpsc_laws ops" and "router_inv r" and "inj_on fresh {..<length (wc_destinations config)}"
    and "\<And>i. i < length (wc_destinations config) \<Longrightarrow> map_of (rt_connections r) (fresh i) = None"
  shows "case manager_new env ops fresh config r of
      (Inl e, r') \<Rightarrow> map_of (rt_connections r') = map_of (rt_connections r)
    | (Inr mg, r') \<Rightarrow>
        if \<not> wc_enabled config then r' = r \<and> mg_workers mg = [] \<and> mg_durable_workers mg = [] \<and> manager_sink mg = None
        else router_inv r' \<and>
          (case wc_mode config of
             Volatile \<Rightarrow> workers_ready ops (mg_workers mg) (wc_destinations config) r' \<and> manager_sink mg = None
           | WebhookDeliveryMode.Durable \<Rightarrow> \<exists>sk. manager_sink mg = Some sk \<and> mg_workers mg = []
               \<and> sink_inv ops sk (configured_table fresh config) r')"
proof (cases "wc_enabled config")
  case False
  then show ?thesis by (simp add: manager_new_def manager_sink_def)
next
  case True
  show ?thesis
  proof (cases "wc_mode config")
    case Volatile
    obtain res r' where b: "build_workers (se_http env) ops (map (\<lambda>(i, d). (fresh i, d)) (enumerate 0 (wc_destinations config)))
        [] r = (res, r')" by fastforce
    from volatile_start [OF assms b] True Volatile b show ?thesis
      by (cases res) (simp_all add: manager_new_def manager_sink_def)
  next
    case Durable
    obtain res r' where b: "build_durable_runtime env ops fresh config r = (res, r')" by fastforce
    from build_runtime_facts [OF assms b] True Durable b show ?thesis
      by (cases res) (simp_all add: manager_new_def manager_sink_def)
  qed
qed

theorem manager_new_atomic_witness:
  "\<exists>mg (r :: (nat \<times> Delivery list \<times> bool) Router).
    manager_new sample_senv fifo_ops (\<lambda>_. 9) sample_wconfig (router_new router_config_default) = (Inr mg, r)
    \<and> (\<exists>sk. manager_sink mg = Some sk \<and> sink_inv fifo_ops sk (configured_table (\<lambda>_. 9) sample_wconfig) r)"
proof -
  obtain rt r where b: "build_durable_runtime sample_senv fifo_ops (\<lambda>_. 9) sample_wconfig (router_new router_config_default) = (Inr rt, r)"
    using sample_built by blast
  have cfg: "wc_enabled sample_wconfig" "wc_mode sample_wconfig = WebhookDeliveryMode.Durable"
    by (simp_all add: sample_wconfig_def)
  have m: "\<exists>mg. manager_new sample_senv fifo_ops (\<lambda>_. 9) sample_wconfig (router_new router_config_default) = (Inr mg, r)"
    using b cfg by (simp add: manager_new_def)
  have "inj_on (\<lambda>_. 9 :: connection_id) {..<length (wc_destinations sample_wconfig)}"
    by (simp add: sample_wconfig_def inj_on_def)
  from manager_new_atomic [OF fifo_laws router_new_inv [OF sample_config] this, of sample_senv] m cfg show ?thesis
    by (auto simp: router_new_def)
qed

text \<open>
  Supervision: a manager with workers ends well exactly when every worker returned without error
  after the shutdown flag was set; a manager without workers stays alive until the flag is set or its
  sender is gone, and then ends well.
\<close>

lemma manager_run_exact:
  "manager_run mg flag changes ends = Some (Inr ()) \<longleftrightarrow>
    (if mg_workers mg = [] \<and> mg_durable_workers mg = []
     then flag \<or> None \<in> set changes \<or> Some True \<in> set changes
     else list_all (\<lambda>(ident, e, shutdown). shutdown \<and> e = Returned (Inr ())) ends)"
proof -
  have "task_outcome ident e = TaskResult (Inr ()) \<longleftrightarrow> e = Returned (Inr ())" for ident e
    by (cases e) (simp_all add: result_simps)
  then show ?thesis
    by (simp add: manager_run_def join_tasks_ok await_shutdown_iff list_all_iff case_prod_beta)
qed

text \<open>
  C26. A graceful shutdown is reported as a failure while a durable retry is waiting: the shutdown signal
  ends the wait with an error, the error ends the worker, and the manager returns it at once, whatever
  the other workers are still doing.
\<close>

theorem shutdown_wait_reported:
  assumes "input_from_message env (dw_max_record_bytes wk) msg = Inr input"
    and "dr_destination_id (in_record input) = ep_id (dw_endpoint wk)"
    and "dr_delivery_id (in_record input) \<notin> set (wo_completed w)"
    and "de_base64_decode env (dr_body_base64 (in_record input)) = Inr body"
    and "now_ms env w < dr_next_attempt_at_ms (in_record input)"
    and "de_wait_shutdown env (tick w) = Some (Some True)"
    and "mg_durable_workers mg = wk # others"
  shows "durable_step env wk (CMessage msg) (Serving, w) = (Ended (Inl ''shutdown interrupted durable retry wait''), w)
    \<and> manager_run mg flag changes ((ep_id (dw_endpoint wk), Returned (Inl ''shutdown interrupted durable retry wait''), True) # ends)
      = Some (Inl (Worker (ep_id (dw_endpoint wk)) ''shutdown interrupted durable retry wait''))"
proof -
  have "sat_sub (dr_next_attempt_at_ms (in_record input)) (now_ms env w) \<noteq> 0"
    using assms(5) by (auto simp: sat_sub_def)
  then have "process env wk input w = (Inl ''shutdown interrupted durable retry wait'', w)"
    using assms(4,6) by (simp add: process_def process_loop.simps sleep_until_def)
  with assms(1-3,7) show ?thesis
    by (simp add: durable_step_def serve_step_def manager_run_def ended_on_error_def)
qed

definition sample_shutdown_env :: DurableEnv where
  "sample_shutdown_env = sample_denv\<lparr>de_from_slice := (\<lambda>_. Inr (in_record (sample_input 1)\<lparr>dr_next_attempt_at_ms := 5000\<rparr>)),
     de_wait_shutdown := (\<lambda>_. Some (Some True))\<rparr>"

definition sample_retry_message :: KafkaRecord where
  "sample_retry_message = \<lparr>kr_topic = ''r'', kr_partition = 0, kr_offset = 3, kr_timestamp = None, kr_key = None,
     kr_payload = Some ''{}'', kr_headers = None\<rparr>"

theorem shutdown_wait_reported_witness:
  "durable_step sample_shutdown_env sample_dworker (CMessage sample_retry_message) (Serving, fresh_world)
    = (Ended (Inl ''shutdown interrupted durable retry wait''), fresh_world)"
proof -
  let ?input = "\<lparr>in_record = in_record (sample_input 1)\<lparr>dr_next_attempt_at_ms := 5000\<rparr>,
    in_cursor = \<lparr>rcu_topic = ''r'', rcu_partition = 0, rcu_offset = 3\<rparr>\<rparr>"
  have "input_from_message sample_shutdown_env (dw_max_record_bytes sample_dworker) sample_retry_message = Inr ?input"
    by (simp add: input_from_message_def sample_retry_message_def sample_shutdown_env_def sample_dworker_def
      sample_input_def schema_version_def)
  moreover have "now_ms sample_shutdown_env fresh_world < 5000"
    by (simp add: now_ms_def sample_shutdown_env_def sample_denv_def)
  moreover have "de_base64_decode sample_shutdown_env = Inr" "de_wait_shutdown sample_shutdown_env = (\<lambda>_. Some (Some True))"
    by (simp_all add: sample_shutdown_env_def sample_denv_def)
  ultimately show ?thesis
    using shutdown_wait_reported [of sample_shutdown_env sample_dworker sample_retry_message ?input fresh_world
      _ "\<lparr>mg_workers = [], mg_durable_workers = [sample_dworker], mg_durable_sink = None\<rparr>" "[]"]
    by (simp add: sample_input_def sample_dworker_def fresh_world_def)
qed

end
