(* ===== verification/Daemon_Config.thy ===== *)
theory Daemon_Config
  imports Api_Stream Webhook_Manager
begin

text \<open>
  The daemon's configuration (\<open>routerd/src/config.rs\<close>): its sections and defaults, the runtime suffix of
  the consumer group and the semantic validation before anything is started. Reading files and
  environment variables and deserialising them is the \<open>config\<close> crate; the deserialised value and the
  environment are arguments. A 64-bit float is \<open>m / 2\<^sup>k\<close>, or not a finite number.
\<close>

subsection \<open>Sections\<close>

datatype SecurityMode = Development | ProtectedProxy

record ServerConfig =
  sv_http_addr :: string
  sv_grpc_addr :: string
  sv_shutdown_grace_secs :: u64
  sv_security_mode :: SecurityMode

definition server_config_default :: ServerConfig where
  "server_config_default = \<lparr>sv_http_addr = ''0.0.0.0:8080'', sv_grpc_addr = ''0.0.0.0:9090'',
     sv_shutdown_grace_secs = 10, sv_security_mode = Development\<rparr>"

record KafkaConfig =
  kf_group_id_suffix_env :: "string option"
  kf_consumer :: KafkaConsumerConfig
  kf_producer :: KafkaProducerConfig

record LoggingConfig =
  lc_filter :: string
  lc_json :: bool

definition logging_config_default :: LoggingConfig where
  "logging_config_default =
    \<lparr>lc_filter = ''routerd=info,router_core=info,router_kafka=info,router_api=info,router_webhook=info'', lc_json = False\<rparr>"

datatype f64 = NaN | Infinite bool | Finite int nat

definition within_unit :: "f64 \<Rightarrow> bool" where
  "within_unit x = (case x of Finite m k \<Rightarrow> 0 \<le> m \<and> m \<le> 2 ^ k | _ \<Rightarrow> False)"

record OpenTelemetryConfig =
  ot_enabled :: bool
  ot_endpoint :: string
  ot_service_name :: string
  ot_timeout_ms :: u64
  ot_shutdown_timeout_ms :: u64
  ot_sampling_ratio :: f64

definition open_telemetry_config_default :: OpenTelemetryConfig where
  "open_telemetry_config_default =
    \<lparr>ot_enabled = False, ot_endpoint = ''http://127.0.0.1:4318'', ot_service_name = ''kafka-edge-router'',
     ot_timeout_ms = 5000, ot_shutdown_timeout_ms = 5000, ot_sampling_ratio = Finite 7205759403792794 56\<rparr>"

record KafkaReadinessConfig =
  kr_enabled :: bool
  kr_check_interval_ms :: u64
  kr_stale_after_secs :: u64
  kr_failure_threshold :: "32 word"
  kr_success_threshold :: "32 word"

definition kafka_readiness_config_default :: KafkaReadinessConfig where
  "kafka_readiness_config_default = \<lparr>kr_enabled = False, kr_check_interval_ms = 1000, kr_stale_after_secs = 30,
     kr_failure_threshold = 3, kr_success_threshold = 2\<rparr>"

record ObservabilityConfig =
  ob_opentelemetry :: OpenTelemetryConfig
  ob_kafka_readiness :: KafkaReadinessConfig

record AppConfig =
  ap_server :: ServerConfig
  ap_api :: ApiConfig
  ap_router :: RouterConfig
  ap_auth :: AuthConfig
  ap_kafka :: KafkaConfig
  ap_webhooks :: WebhookConfig
  ap_logging :: LoggingConfig
  ap_observability :: ObservabilityConfig

definition app_config_default :: AppConfig where
  "app_config_default =
    \<lparr>ap_server = server_config_default, ap_api = api_config_default, ap_router = router_config_default,
     ap_auth = auth_config_default,
     ap_kafka = \<lparr>kf_group_id_suffix_env = None, kf_consumer = kafka_consumer_config_default,
       kf_producer = kafka_producer_config_default\<rparr>,
     ap_webhooks = webhook_config_default, ap_logging = logging_config_default,
     ap_observability = \<lparr>ob_opentelemetry = open_telemetry_config_default,
       ob_kafka_readiness = kafka_readiness_config_default\<rparr>\<rparr>"

subsection \<open>Library functions\<close>

text \<open>\<open>str::parse::<SocketAddr>()\<close>: IPv4 and port, or IPv6 in brackets with an optional scope id and port.\<close>

definition read_port :: "string \<Rightarrow> (nat \<times> string) option" where
  "read_port s = (case read_char CHR '':'' s of None \<Rightarrow> None | Some r \<Rightarrow> read_number 10 (length r) True 65536 r)"

definition read_scope_id :: "string \<Rightarrow> string" where
  "read_scope_id s =
    (case read_char CHR ''%'' s of
       None \<Rightarrow> s
     | Some r \<Rightarrow> (case read_number 10 (length r) True (2 ^ 32) r of None \<Rightarrow> s | Some (_, r) \<Rightarrow> r))"

definition read_socket_v4 :: "string \<Rightarrow> (SocketAddr \<times> string) option" where
  "read_socket_v4 s =
    (case read_ipv4 s of None \<Rightarrow> None | Some (x, s) \<Rightarrow>
     (case read_port s of None \<Rightarrow> None | Some (port, s) \<Rightarrow> Some (\<lparr>sa_ip = V4 x, sa_port = port\<rparr>, s)))"

definition read_socket_v6 :: "string \<Rightarrow> (SocketAddr \<times> string) option" where
  "read_socket_v6 s =
    (case read_char CHR ''['' s of None \<Rightarrow> None | Some s \<Rightarrow>
     (case read_ipv6 s of None \<Rightarrow> None | Some (x, s) \<Rightarrow>
     (case read_char CHR '']'' (read_scope_id s) of None \<Rightarrow> None | Some s \<Rightarrow>
     (case read_port s of None \<Rightarrow> None | Some (port, s) \<Rightarrow> Some (\<lparr>sa_ip = V6 x, sa_port = port\<rparr>, s)))))"

definition parse_socket_addr :: "string \<Rightarrow> SocketAddr option" where
  "parse_socket_addr s =
    (case (case read_socket_v4 s of Some a \<Rightarrow> Some a | None \<Rightarrow> read_socket_v6 s) of
       Some (addr, r) \<Rightarrow> if r = [] then Some addr else None
     | None \<Rightarrow> None)"

definition is_loopback :: "IpAddr \<Rightarrow> bool" where
  "is_loopback ip = (case ip of V4 x \<Rightarrow> v4_is_loopback x | V6 x \<Rightarrow> v6_is_loopback x)"

definition is_ascii_alphabetic :: "char \<Rightarrow> bool" where
  "is_ascii_alphabetic c \<longleftrightarrow> in_range 65 90 c \<or> in_range 97 122 c"

definition is_ascii_alphanumeric :: "char \<Rightarrow> bool" where
  "is_ascii_alphanumeric c \<longleftrightarrow> is_ascii_alphabetic c \<or> in_range 48 57 c"

text \<open>\<open>str::split_once\<close> with a non-empty separator.\<close>

fun split_once :: "string \<Rightarrow> string \<Rightarrow> (string \<times> string) option" where
  "split_once sep [] = None"
| "split_once sep (c # s) =
    (if take (length sep) (c # s) = sep then Some ([], drop (length sep) (c # s))
     else map_option (\<lambda>(a, b). (c # a, b)) (split_once sep s))"

definition bail_if :: "bool \<Rightarrow> string \<Rightarrow> string + unit" where
  "bail_if failed message = (if failed then Inl message else Inr ())"

lemma bail_if_Inr [result_simps]: "bail_if c m = Inr u \<longleftrightarrow> \<not> c"
  by (simp add: bail_if_def)

subsection \<open>The runtime suffix of the consumer group\<close>

definition valid_environment_name :: "string \<Rightarrow> bool" where
  "valid_environment_name name =
    (case name of
       [] \<Rightarrow> False
     | c # rest \<Rightarrow> (is_ascii_alphabetic c \<or> c = CHR ''_'')
         \<and> list_all (\<lambda>c. is_ascii_alphanumeric c \<or> c = CHR ''_'') rest)"

definition group_id_byte :: "char \<Rightarrow> bool" where
  "group_id_byte c \<longleftrightarrow> is_ascii_alphanumeric c \<or> c = CHR ''.'' \<or> c = CHR ''_'' \<or> c = CHR ''-''"

definition valid_kafka_group_id :: "string \<Rightarrow> bool" where
  "valid_kafka_group_id group_id \<longleftrightarrow> group_id \<noteq> [] \<and> length group_id \<le> 255 \<and> list_all group_id_byte group_id"

definition apply_runtime_identity :: "(string \<Rightarrow> string option) \<Rightarrow> AppConfig \<Rightarrow> string + AppConfig" where
  "apply_runtime_identity lookup c =
    (let kafka = ap_kafka c; consumer = kf_consumer kafka in
     case kf_group_id_suffix_env kafka of
       None \<Rightarrow> Inr c
     | Some variable \<Rightarrow>
         and_then (bail_if (\<not> valid_environment_name variable)
           ''kafka.group_id_suffix_env must be a valid environment variable name'') (\<lambda>_.
         and_then (ok_or (''environment variable '' @ variable @ '' is required for the Kafka group id'') (lookup variable)) (\<lambda>suffix.
         and_then (bail_if (suffix = [] \<or> length suffix > 128 \<or> \<not> list_all group_id_byte suffix)
           (''Kafka group-id suffix from '' @ variable @ '' must be 1..=128 ASCII letters, digits, '' @ [CHR 39] @ ''.'' @ [CHR 39]
             @ '', '' @ [CHR 39] @ ''_'' @ [CHR 39] @ '', or '' @ [CHR 39] @ ''-'' @ [CHR 39])) (\<lambda>_.
         let group_id = kc_group_id consumer @ ''.'' @ suffix in
         and_then (bail_if (length group_id > 255) ''resolved Kafka consumer group id must not exceed 255 bytes'') (\<lambda>_.
         Inr (c\<lparr>ap_kafka := kafka\<lparr>kf_consumer := consumer\<lparr>kc_group_id := group_id\<rparr>\<rparr>\<rparr>))))))"

subsection \<open>Validation\<close>

definition blank :: "string \<Rightarrow> bool" where
  "blank s \<longleftrightarrow> trim s = []"

definition validate_listener_and_limits :: "AppConfig \<Rightarrow> string + unit" where
  "validate_listener_and_limits c =
    (let server = ap_server c; api = ap_api c; router = ap_router c; mode = ah_mode (ap_auth c);
         protected = (sv_security_mode server = ProtectedProxy) in
     and_then (ok_or ''server.http_addr is not a socket address'' (parse_socket_addr (sv_http_addr server))) (\<lambda>http_addr.
     and_then (ok_or ''server.grpc_addr is not a socket address'' (parse_socket_addr (sv_grpc_addr server))) (\<lambda>grpc_addr.
     and_then (bail_if (protected \<and> (\<not> is_loopback (sa_ip http_addr) \<or> \<not> is_loopback (sa_ip grpc_addr)))
       ''protected_proxy mode requires loopback-only HTTP and gRPC listeners'') (\<lambda>_.
     and_then (bail_if (protected \<and> mode = Disabled) ''protected_proxy mode requires authentication'') (\<lambda>_.
     and_then (bail_if ((mode = TrustedHeader \<or> mode = ProxyMtls) \<and> \<not> protected)
       ''proxy identity modes require protected_proxy security mode'') (\<lambda>_.
     and_then (bail_if (ac_http_body_limit_bytes api = 0 \<or> ac_sse_keep_alive_secs api = 0 \<or> ac_ws_max_message_bytes api = 0
         \<or> ac_ws_max_frame_bytes api = 0 \<or> ac_ws_max_commands_per_second api = 0
         \<or> ac_grpc_max_decoding_message_bytes api = 0 \<or> ac_grpc_max_encoding_message_bytes api = 0
         \<or> ac_grpc_concurrency_limit api = 0 \<or> ac_grpc_keep_alive_interval_secs api = 0
         \<or> ac_grpc_keep_alive_timeout_secs api = 0 \<or> ac_publish_max_payload_bytes api = 0
         \<or> ac_max_rate_limit_principals api = 0 \<or> ac_global_commands_per_second api = 0
         \<or> ac_principal_commands_per_second api = 0 \<or> ac_global_publishes_per_second api = 0
         \<or> ac_principal_publishes_per_second api = 0)
       ''HTTP, SSE, WebSocket, and gRPC limits must be positive'') (\<lambda>_.
     and_then (bail_if (rc_default_queue_capacity router = 0 \<or> rc_max_queue_capacity router = 0
         \<or> ac_stream_queue_capacity api = 0 \<or> ac_max_stream_queue_capacity api = 0 \<or> rc_max_connections router = 0
         \<or> rc_max_connections_per_tenant router = 0 \<or> rc_max_subscriptions router = 0
         \<or> rc_max_subscriptions_per_tenant router = 0 \<or> rc_max_subscriptions_per_connection router = 0
         \<or> rc_slow_consumer_strikes router = 0)
       ''queue capacities, subscription limits, and slow-consumer strikes must be positive'') (\<lambda>_.
     and_then (bail_if (ac_ws_max_frame_bytes api > ac_ws_max_message_bytes api)
       ''api.ws_max_frame_bytes must not exceed api.ws_max_message_bytes'') (\<lambda>_.
     and_then (bail_if (rc_default_queue_capacity router > rc_max_queue_capacity router)
       ''router.default_queue_capacity must not exceed router.max_queue_capacity'') (\<lambda>_.
     and_then (bail_if (ac_stream_queue_capacity api > ac_max_stream_queue_capacity api)
       ''api.stream_queue_capacity must not exceed api.max_stream_queue_capacity'') (\<lambda>_.
     bail_if (ac_max_stream_queue_capacity api > rc_max_queue_capacity router)
       ''api.max_stream_queue_capacity must not exceed router.max_queue_capacity'')))))))))))"

definition supported_algorithms :: "string list" where
  "supported_algorithms = [''RS256'', ''RS384'', ''RS512'', ''ES256'', ''ES384'', ''EdDSA'']"

definition validate_jwt :: "JwtConfig \<Rightarrow> string + unit" where
  "validate_jwt jwt =
    and_then (bail_if (jc_jwks_path jwt = [] \<or> blank (jc_issuer jwt) \<or> blank (jc_audience jwt) \<or> jc_algorithms jwt = []
        \<or> jc_refresh_interval_secs jwt = 0 \<or> jc_max_jwks_bytes jwt = 0 \<or> jc_max_jwks_keys jwt = 0
        \<or> blank (jc_tenant_claim jwt) \<or> blank (jc_scope_claim jwt) \<or> blank (jc_subscribe_scope jwt)
        \<or> blank (jc_publish_scope jwt))
      ''JWT mode requires JWKS path, issuer, audience, algorithms, claims, scopes, and positive refresh bounds'') (\<lambda>_.
    bail_if (list_ex (\<lambda>algorithm. algorithm \<notin> set supported_algorithms) (jc_algorithms jwt))
      ''JWT algorithms must be asymmetric and explicitly supported'')"

definition validate_auth :: "AuthConfig \<Rightarrow> string + unit" where
  "validate_auth auth =
    and_then (bail_if (ah_mode auth = StaticBearer \<and> ah_bearer_tokens auth = [])
      ''auth.bearer_tokens must not be empty in static_bearer mode'') (\<lambda>_.
    and_then (if ah_mode auth = Jwt then validate_jwt (ah_jwt auth) else Inr ()) (\<lambda>_.
    and_then (bail_if (ah_mode auth = ProxyMtls
        \<and> (blank (ah_proxy_identity_header auth) \<or> ah_proxy_identities auth = []
          \<or> list_ex (\<lambda>(name, ident). blank (pi_tenant_id ident) \<or> (\<not> pi_subscribe ident \<and> \<not> pi_publish ident))
               (ah_proxy_identities auth)))
      ''proxy_mtls mode requires a header and bounded identities with tenant permissions'') (\<lambda>_.
    and_then (bail_if (list_ex blank (ah_publish_tenants auth)) ''auth.publish_tenants must not contain empty tenant ids'') (\<lambda>_.
    bail_if (ah_mode auth = StaticBearer
        \<and> list_ex (\<lambda>tenant. \<not> list_ex (\<lambda>(token, mapped). mapped = tenant) (ah_bearer_tokens auth)) (ah_publish_tenants auth))
      ''every auth.publish_tenants entry must have a static bearer mapping''))))"

definition validate_kafka :: "KafkaConsumerConfig \<Rightarrow> KafkaProducerConfig \<Rightarrow> string + unit" where
  "validate_kafka consumer producer =
    and_then (bail_if (kc_topics consumer = []) ''kafka.consumer.topics must not be empty'') (\<lambda>_.
    and_then (bail_if (kc_max_payload_bytes consumer = 0) ''kafka.consumer.max_payload_bytes must be positive'') (\<lambda>_.
    and_then (bail_if (blank (kc_brokers consumer) \<or> blank (kc_client_id consumer))
      ''Kafka consumer brokers and client_id must not be empty'') (\<lambda>_.
    and_then (bail_if (\<not> valid_kafka_group_id (kc_group_id consumer))
      (''kafka.consumer.group_id must be 1..=255 ASCII letters, digits, '' @ [CHR 39] @ ''.'' @ [CHR 39]
         @ '', '' @ [CHR 39] @ ''_'' @ [CHR 39] @ '', or '' @ [CHR 39] @ ''-'' @ [CHR 39])) (\<lambda>_.
    and_then (bail_if (list_ex blank (kc_topics consumer)) ''kafka.consumer.topics must not contain empty names'') (\<lambda>_.
    and_then (bail_if (kc_auto_offset_reset consumer \<noteq> ''earliest'' \<and> kc_auto_offset_reset consumer \<noteq> ''latest'')
      ''kafka.consumer.auto_offset_reset must be earliest or latest'') (\<lambda>_.
    bail_if (kd_enabled producer \<and> (blank (kd_brokers producer) \<or> blank (kd_client_id producer)
        \<or> blank (kd_topic producer) \<or> kd_delivery_timeout_ms producer = 0))
      ''enabled Kafka producer fields and delivery timeout must not be empty or zero''))))))"

definition validate_kafka_and_auth :: "AppConfig \<Rightarrow> string + unit" where
  "validate_kafka_and_auth c =
    and_then (validate_kafka (kf_consumer (ap_kafka c)) (kf_producer (ap_kafka c))) (\<lambda>_. validate_auth (ap_auth c))"

definition validate_observability :: "AppConfig \<Rightarrow> string + unit" where
  "validate_observability c =
    (let telemetry = ob_opentelemetry (ap_observability c); readiness = ob_kafka_readiness (ap_observability c) in
     and_then (bail_if (ot_enabled telemetry
         \<and> (\<not> (case split_once ''://'' (ot_endpoint telemetry) of
                  Some (scheme, _) \<Rightarrow> scheme = ''http'' \<or> scheme = ''https'' | None \<Rightarrow> False)
           \<or> blank (ot_service_name telemetry) \<or> ot_timeout_ms telemetry = 0 \<or> ot_shutdown_timeout_ms telemetry = 0
           \<or> \<not> within_unit (ot_sampling_ratio telemetry)))
       ''enabled OpenTelemetry settings require an HTTP(S) endpoint, service name, positive timeouts, and sampling_ratio within 0..=1'') (\<lambda>_.
     bail_if (kr_enabled readiness
         \<and> (kr_check_interval_ms readiness = 0 \<or> kr_stale_after_secs readiness = 0
           \<or> kr_failure_threshold readiness = 0 \<or> kr_success_threshold readiness = 0))
       ''enabled Kafka readiness intervals and hysteresis thresholds must be positive''))"

definition validate_durable :: "WebhookConfig \<Rightarrow> string + unit" where
  "validate_durable w =
    (let durable = wc_durable w in
     and_then (bail_if (blank (dc_brokers durable) \<or> blank (dc_client_id durable) \<or> blank (dc_group_id durable)
         \<or> blank (dc_delivery_topic durable) \<or> blank (dc_retry_topic durable) \<or> blank (dc_dead_letter_topic durable)
         \<or> dc_delivery_timeout_ms durable = 0 \<or> dc_max_record_bytes durable = 0 \<or> dc_max_recovery_records durable = 0)
       ''durable webhook Kafka fields and bounds must be non-empty and positive'') (\<lambda>_.
     and_then (bail_if (dc_delivery_topic durable = dc_retry_topic durable \<or> dc_delivery_topic durable = dc_dead_letter_topic durable
         \<or> dc_retry_topic durable = dc_dead_letter_topic durable)
       ''durable webhook delivery, retry, and dead-letter topics must be distinct'') (\<lambda>_.
     bail_if (wc_destinations w = []) ''durable webhook mode requires at least one destination'')))"

text \<open>The loop over the destinations, with the ids seen so far.\<close>

fun validate_destinations :: "RouterConfig \<Rightarrow> string list \<Rightarrow> WebhookDestinationConfig list \<Rightarrow> string + unit" where
  "validate_destinations router webhook_ids [] = Inr ()"
| "validate_destinations router webhook_ids (d # ds) =
    and_then (bail_if (blank (wd_id d)) ''webhook destination id must not be empty'') (\<lambda>_.
    and_then (bail_if (wd_id d \<in> set webhook_ids) (''duplicate webhook destination id: '' @ wd_id d)) (\<lambda>_.
    and_then (bail_if (wd_queue_capacity d = 0 \<or> wd_queue_capacity d > rc_max_queue_capacity router \<or> wd_timeout_ms d = 0
        \<or> wd_max_attempts d = 0 \<or> wd_initial_backoff_ms d = 0 \<or> wd_max_backoff_ms d = 0)
      (''webhook '' @ wd_id d @ '' queue must be within 1..='' @ show_nat (rc_max_queue_capacity router)
        @ '', and timeout, attempt, and backoff values must be positive'')) (\<lambda>_.
    and_then (bail_if (wd_initial_backoff_ms d > wd_max_backoff_ms d)
      (''webhook '' @ wd_id d @ '' initial_backoff_ms must not exceed max_backoff_ms'')) (\<lambda>_.
    and_then (map_err (\<lambda>_. ''invalid webhook '' @ wd_id d @ '' filter'') (filter_validate (wd_filter d))) (\<lambda>_.
    validate_destinations router (wd_id d # webhook_ids) ds)))))"

definition validate_webhooks :: "AppConfig \<Rightarrow> string + unit" where
  "validate_webhooks c =
    and_then (if wc_enabled (ap_webhooks c) \<and> wc_mode (ap_webhooks c) = WebhookDeliveryMode.Durable
      then validate_durable (ap_webhooks c) else Inr ()) (\<lambda>_.
    validate_destinations (ap_router c) [] (wc_destinations (ap_webhooks c)))"

definition app_validate :: "AppConfig \<Rightarrow> string + unit" where
  "app_validate c =
    and_then (validate_listener_and_limits c) (\<lambda>_.
    and_then (validate_kafka_and_auth c) (\<lambda>_.
    and_then (validate_observability c) (\<lambda>_.
    validate_webhooks c)))"

text \<open>\<open>load\<close> after deserialisation.\<close>

definition load :: "(string \<Rightarrow> string option) \<Rightarrow> AppConfig \<Rightarrow> string + AppConfig" where
  "load lookup deserialized =
    and_then (apply_runtime_identity lookup deserialized) (\<lambda>c. and_then (app_validate c) (\<lambda>_. Inr c))"

subsection \<open>What a loaded configuration guarantees\<close>

lemma configured_algorithms_supported:
  assumes "set names \<subseteq> set supported_algorithms"
  shows "\<exists>as. configured_algorithms names = Inr as \<and> length as = length names"
  using assms
proof (induction names)
  case (Cons v vs)
  from Cons.prems have "\<exists>a. configured_algorithm v = Inr a"
    by (auto simp: supported_algorithms_def configured_algorithm_def)
  with Cons show ?case by (auto simp: result_simps)
qed simp

lemma validate_destinations_Inr:
  "validate_destinations router ids ds = Inr u \<Longrightarrow>
    distinct (map wd_id ds) \<and> set (map wd_id ds) \<inter> set ids = {}
    \<and> (\<forall>d\<in>set ds. 0 < wd_queue_capacity d \<and> wd_queue_capacity d \<le> rc_max_queue_capacity router
         \<and> filter_valid (wd_filter d) \<and> wd_max_attempts d \<noteq> 0 \<and> wd_initial_backoff_ms d \<le> wd_max_backoff_ms d)"
proof (induction router ids ds rule: validate_destinations.induct)
  case (2 router ids d ds)
  from 2(2) have "validate_destinations router (wd_id d # ids) ds = Inr u" and "wd_id d \<notin> set ids"
    and "0 < wd_queue_capacity d \<and> wd_queue_capacity d \<le> rc_max_queue_capacity router
         \<and> filter_valid (wd_filter d) \<and> wd_max_attempts d \<noteq> 0 \<and> wd_initial_backoff_ms d \<le> wd_max_backoff_ms d"
    by (auto simp: result_simps filter_validate_Inr)
  with 2(1) show ?case by auto
qed simp

text \<open>Registration never refuses a capacity within the router's limit.\<close>

lemma register_capacity_accepted:
  assumes "0 < n" and "n \<le> rc_max_queue_capacity (rt_config r)"
  shows "fst (register_connection ops fresh tenant proto (Some n) r) \<noteq> Inl (InvalidQueueCapacity a b)"
  using assms by (auto simp: register_connection_def validate_identifier_def Let_def split: sum.splits)

lemma resolve_within:
  assumes "resolve_stream_queue_capacity config requested = Inr n"
  shows "0 < n \<and> n \<le> ac_max_stream_queue_capacity config"
  using assms by (auto simp: resolve_stream_queue_capacity_def Let_def split: if_splits)

lemma listener_limits_Inr:
  assumes "validate_listener_and_limits c = Inr ()"
  shows "0 < ac_stream_queue_capacity (ap_api c)
    \<and> ac_stream_queue_capacity (ap_api c) \<le> ac_max_stream_queue_capacity (ap_api c)
    \<and> ac_max_stream_queue_capacity (ap_api c) \<le> rc_max_queue_capacity (ap_router c)
    \<and> (ah_mode (ap_auth c) \<in> {TrustedHeader, ProxyMtls} \<longrightarrow>
         (\<exists>http grpc. parse_socket_addr (sv_http_addr (ap_server c)) = Some http \<and> is_loopback (sa_ip http)
           \<and> parse_socket_addr (sv_grpc_addr (ap_server c)) = Some grpc \<and> is_loopback (sa_ip grpc)))"
  using assms unfolding validate_listener_and_limits_def Let_def by (simp add: result_simps) auto

lemma load_Inr:
  assumes "load lookup raw = Inr c"
  shows "validate_listener_and_limits c = Inr ()" "validate_kafka_and_auth c = Inr ()" "validate_webhooks c = Inr ()"
    "validate_observability c = Inr ()"
  using assms by (auto simp: load_def app_validate_def result_simps)

text \<open>
  C33. A configuration that loads keeps the promises the other components rely on: every queue capacity
  the stream endpoints can resolve, and in particular the default one, is accepted by the router built
  from it, and so is that of every webhook destination; destination ids are distinct and their filters
  valid; an identity header is only trusted on loopback listeners; the JWT algorithms of the
  authenticator are all known to it; and the consumer group is a portable name of at most 255 bytes.
\<close>

theorem loaded_config_sound:
  assumes "load lookup raw = Inr c"
  shows "(\<exists>n. resolve_stream_queue_capacity (ap_api c) None = Inr n)
    \<and> (resolve_stream_queue_capacity (ap_api c) requested = Inr n \<longrightarrow> rt_config r = ap_router c \<longrightarrow>
         fst (register_connection ops fresh tenant proto (Some n) r) \<noteq> Inl (InvalidQueueCapacity a b))
    \<and> distinct (map wd_id (wc_destinations (ap_webhooks c)))
    \<and> (\<forall>d\<in>set (wc_destinations (ap_webhooks c)). filter_valid (wd_filter d) \<and> (rt_config r = ap_router c \<longrightarrow>
         fst (register_connection ops fresh tenant proto (Some (wd_queue_capacity d)) r) \<noteq> Inl (InvalidQueueCapacity a b)))
    \<and> (ah_mode (ap_auth c) \<in> {TrustedHeader, ProxyMtls} \<longrightarrow>
         (\<exists>http grpc. parse_socket_addr (sv_http_addr (ap_server c)) = Some http \<and> is_loopback (sa_ip http)
           \<and> parse_socket_addr (sv_grpc_addr (ap_server c)) = Some grpc \<and> is_loopback (sa_ip grpc)))
    \<and> (ah_mode (ap_auth c) = Jwt \<longrightarrow> (\<exists>allowed. configured_algorithms (jc_algorithms (ah_jwt (ap_auth c))) = Inr allowed \<and> allowed \<noteq> []))
    \<and> valid_kafka_group_id (kc_group_id (kf_consumer (ap_kafka c)))"
proof -
  note parts = load_Inr [OF assms]
  note limits = listener_limits_Inr [OF parts(1)]
  have "validate_destinations (ap_router c) [] (wc_destinations (ap_webhooks c)) = Inr ()"
    using parts(3) by (auto simp: validate_webhooks_def result_simps)
  note dests = validate_destinations_Inr [OF this]
  have auth: "validate_auth (ap_auth c) = Inr ()" and group: "valid_kafka_group_id (kc_group_id (kf_consumer (ap_kafka c)))"
    using parts(2) by (auto simp: validate_kafka_and_auth_def validate_kafka_def result_simps)
  have jwt: "\<exists>allowed. configured_algorithms (jc_algorithms (ah_jwt (ap_auth c))) = Inr allowed \<and> allowed \<noteq> []"
    if "ah_mode (ap_auth c) = Jwt"
  proof -
    from auth that have "validate_jwt (ah_jwt (ap_auth c)) = Inr ()" by (auto simp: validate_auth_def result_simps)
    then have "jc_algorithms (ah_jwt (ap_auth c)) \<noteq> []" "set (jc_algorithms (ah_jwt (ap_auth c))) \<subseteq> set supported_algorithms"
      by (auto simp: validate_jwt_def result_simps list_ex_iff)
    with configured_algorithms_supported show ?thesis by (metis length_0_conv)
  qed
  have "resolve_stream_queue_capacity (ap_api c) None = Inr (ac_stream_queue_capacity (ap_api c))"
    using limits by (simp add: resolve_stream_queue_capacity_def Let_def)
  moreover have "fst (register_connection ops fresh tenant proto (Some n) r) \<noteq> Inl (InvalidQueueCapacity a b)"
    if "resolve_stream_queue_capacity (ap_api c) requested = Inr n" "rt_config r = ap_router c"
    using resolve_within [OF that(1)] limits that(2) by (intro register_capacity_accepted) auto
  moreover have "fst (register_connection ops fresh tenant proto (Some (wd_queue_capacity d)) r) \<noteq> Inl (InvalidQueueCapacity a b)"
    if "d \<in> set (wc_destinations (ap_webhooks c))" "rt_config r = ap_router c" for d
    using dests that by (intro register_capacity_accepted) auto
  ultimately show ?thesis using limits dests jwt group by blast
qed

definition sample_app_config :: AppConfig where
  "sample_app_config = app_config_default
    \<lparr>ap_server := \<lparr>sv_http_addr = ''127.0.0.1:8080'', sv_grpc_addr = ''127.0.0.1:9090'', sv_shutdown_grace_secs = 10,
       sv_security_mode = ProtectedProxy\<rparr>,
     ap_auth := auth_config_default\<lparr>ah_mode := TrustedHeader\<rparr>,
     ap_kafka := (ap_kafka app_config_default)\<lparr>kf_group_id_suffix_env := Some ''POD_UID''\<rparr>\<rparr>"

lemma sample_addresses:
  "parse_socket_addr ''127.0.0.1:8080'' = Some \<lparr>sa_ip = V4 (Ipv4Addr 127 0 0 1), sa_port = 8080\<rparr>"
  "parse_socket_addr ''127.0.0.1:9090'' = Some \<lparr>sa_ip = V4 (Ipv4Addr 127 0 0 1), sa_port = 9090\<rparr>"
  by (simp_all add: parse_socket_addr_def read_socket_v4_def read_ipv4_def read_octet_def read_number_def read_char_def
    digit_value_def read_port_def)

lemma blank_ascii: "ascii_str s \<Longrightarrow> blank s \<longleftrightarrow> (\<forall>c\<in>set s. is_whitespace (of_char c))"
  by (simp add: blank_def trim_empty_iff chars_def str_chars_ascii)

lemmas sample_config_defs = sample_app_config_def app_config_default_def auth_config_default_def
  kafka_consumer_config_default_def kafka_producer_config_default_def webhook_config_default_def
  open_telemetry_config_default_def kafka_readiness_config_default_def

lemma sample_app_config_loads: "is_ok (load (\<lambda>_. Some ''pod-1'') sample_app_config)"
proof -
  let ?k = "ap_kafka sample_app_config"
  let ?c = "sample_app_config\<lparr>ap_kafka := ?k\<lparr>kf_consumer := (kf_consumer ?k)\<lparr>kc_group_id := ''kafka-edge-router-local.pod-1''\<rparr>\<rparr>\<rparr>"
  note ascii = group_id_byte_def is_ascii_alphanumeric_def is_ascii_alphabetic_def in_range_def
  have "apply_runtime_identity (\<lambda>_. Some ''pod-1'') sample_app_config = Inr ?c"
    by (simp add: apply_runtime_identity_def sample_config_defs bail_if_def valid_environment_name_def ascii)
  moreover have "validate_listener_and_limits ?c = Inr ()"
    by (simp add: validate_listener_and_limits_def sample_config_defs bail_if_def sample_addresses is_loopback_def
      v4_is_loopback_def api_config_default_def router_config_default_def)
  moreover have "validate_kafka_and_auth ?c = Inr ()"
    by (simp add: validate_kafka_and_auth_def validate_kafka_def validate_auth_def sample_config_defs bail_if_def blank_ascii
      is_whitespace_def valid_kafka_group_id_def ascii)
  moreover have "validate_observability ?c = Inr ()"
    by (simp add: validate_observability_def sample_config_defs bail_if_def)
  moreover have "validate_webhooks ?c = Inr ()"
    by (simp add: validate_webhooks_def sample_config_defs)
  ultimately show ?thesis by (simp add: load_def app_validate_def)
qed

theorem loaded_config_sound_witness:
  "\<exists>c http. load (\<lambda>_. Some ''pod-1'') sample_app_config = Inr c
    \<and> parse_socket_addr (sv_http_addr (ap_server c)) = Some http \<and> is_loopback (sa_ip http)
    \<and> valid_kafka_group_id (kc_group_id (kf_consumer (ap_kafka c)))"
proof -
  obtain c where c: "load (\<lambda>_. Some ''pod-1'') sample_app_config = Inr c"
    using sample_app_config_loads by (cases "load (\<lambda>_. Some ''pod-1'') sample_app_config") auto
  have "ah_mode (ap_auth c) = TrustedHeader"
    using c by (auto simp: load_def apply_runtime_identity_def sample_app_config_def Let_def result_simps)
  with loaded_config_sound [OF c] c show ?thesis by blast
qed

end
