(* ===== verification/Daemon_Health.thy ===== *)
theory Daemon_Health
  imports Api_State Kafka_Health
begin

text \<open>
  Readiness in the running daemon: the hysteresis of Kafka-dependent readiness
  (\<open>routerd/src/readiness.rs\<close>), the task that mirrors readiness in the gRPC health service
  (\<open>serve_grpc\<close>, \<open>monitor_grpc_health\<close> in \<open>router-api/src/grpc.rs\<close>), and the parts of start-up and
  shutdown in \<open>routerd/src/main.rs\<close> that set the gates. The tasks run concurrently; their atomic accesses
  to the gates are the rules of \<open>daemon_step\<close>.
\<close>

subsection \<open>Hysteresis\<close>

record ReadinessHysteresis =
  rh_ready :: bool
  rh_successes :: "32 word"
  rh_failures :: "32 word"
  rh_success_threshold :: "32 word"
  rh_failure_threshold :: "32 word"

definition hysteresis_new :: "32 word \<Rightarrow> 32 word \<Rightarrow> ReadinessHysteresis" where
  "hysteresis_new success_threshold failure_threshold =
    \<lparr>rh_ready = False, rh_successes = 0, rh_failures = 0, rh_success_threshold = success_threshold,
     rh_failure_threshold = failure_threshold\<rparr>"

definition hysteresis_observe :: "bool \<Rightarrow> ReadinessHysteresis \<Rightarrow> bool \<times> ReadinessHysteresis" where
  "hysteresis_observe healthy h =
    (let h =
       (if healthy then
          let h = h\<lparr>rh_failures := 0, rh_successes := sat_add (rh_successes h) 1\<rparr>
          in if rh_successes h \<ge> rh_success_threshold h then h\<lparr>rh_ready := True\<rparr> else h
        else
          let h = h\<lparr>rh_successes := 0, rh_failures := sat_add (rh_failures h) 1\<rparr>
          in if rh_failures h \<ge> rh_failure_threshold h then h\<lparr>rh_ready := False\<rparr> else h)
     in (rh_ready h, h))"

text \<open>\<open>k\<close> consecutive observations \<open>b\<close> end at position \<open>i\<close>.\<close>

definition streak :: "bool \<Rightarrow> nat \<Rightarrow> bool list \<Rightarrow> nat \<Rightarrow> bool" where
  "streak b k bs i \<longleftrightarrow> k \<le> i \<and> i \<le> length bs \<and> (\<forall>j. i - k \<le> j \<and> j < i \<longrightarrow> bs ! j = b)"

fun trailing :: "bool \<Rightarrow> bool list \<Rightarrow> nat" where
  "trailing b [] = 0"
| "trailing b (x # xs) = (if x = b then Suc (trailing b xs) else 0)"

lemma trailing_le: "trailing b xs \<le> length xs"
  by (induction xs) auto

lemma trailing_iff: "k \<le> length xs \<Longrightarrow> k \<le> trailing b xs \<longleftrightarrow> (\<forall>j < k. xs ! j = b)"
proof (induction xs arbitrary: k)
  case (Cons x xs)
  then show ?case by (cases k) (auto simp: less_Suc_eq_0_disj)
qed simp

lemma streak_end: "streak b k bs (length bs) \<longleftrightarrow> k \<le> trailing b (rev bs)"
proof (cases "k \<le> length bs")
  case True
  have "(\<forall>j. length bs - k \<le> j \<and> j < length bs \<longrightarrow> bs ! j = b) \<longleftrightarrow> (\<forall>j < k. rev bs ! j = b)"
  proof (rule iffI; intro allI impI)
    fix j assume h: "\<forall>j. length bs - k \<le> j \<and> j < length bs \<longrightarrow> bs ! j = b" and j: "j < k"
    have "length bs - k \<le> length bs - Suc j \<and> length bs - Suc j < length bs" using j True by linarith
    with h j True show "rev bs ! j = b" by (simp add: rev_nth)
  next
    fix j assume h: "\<forall>j < k. rev bs ! j = b" and j: "length bs - k \<le> j \<and> j < length bs"
    have "length bs - Suc j < k" using j True by linarith
    with h have "rev bs ! (length bs - Suc j) = b" by blast
    moreover have "rev bs ! (length bs - Suc j) = bs ! (length bs - Suc (length bs - Suc j))" using j by (intro rev_nth) linarith
    moreover have "length bs - Suc (length bs - Suc j) = j" using j by linarith
    ultimately show "bs ! j = b" by simp
  qed
  with True show ?thesis by (simp add: streak_def trailing_iff)
next
  case False
  with trailing_le [of b "rev bs"] show ?thesis by (simp add: streak_def)
qed

lemma streak_append: "i \<le> length bs \<Longrightarrow> streak b k (bs @ xs) i \<longleftrightarrow> streak b k bs i"
  by (auto simp: streak_def nth_append)

definition observe_all :: "bool list \<Rightarrow> ReadinessHysteresis \<Rightarrow> ReadinessHysteresis" where
  "observe_all bs h = fold (\<lambda>b h. snd (hysteresis_observe b h)) bs h"

lemma observe_counters:
  "unat (rh_successes (observe_all bs (hysteresis_new st ft))) = min (trailing True (rev bs)) (2 ^ 32 - 1)"
  "unat (rh_failures (observe_all bs (hysteresis_new st ft))) = min (trailing False (rev bs)) (2 ^ 32 - 1)"
  "rh_success_threshold (observe_all bs (hysteresis_new st ft)) = st"
  "rh_failure_threshold (observe_all bs (hysteresis_new st ft)) = ft"
  by (induction bs rule: rev_induct)
    (auto simp: observe_all_def hysteresis_observe_def hysteresis_new_def Let_def unat_sat_add)

lemma unat_le_min: "unat (t :: 32 word) \<le> min n (2 ^ 32 - 1) \<longleftrightarrow> unat t \<le> n"
  using unsigned_less [of t, where ?'a = nat] by auto

lemma observe_snoc:
  "rh_ready (observe_all (bs @ [b]) (hysteresis_new st ft)) =
    (if b \<and> unat st \<le> trailing True (rev (bs @ [b])) then True
     else if \<not> b \<and> unat ft \<le> trailing False (rev (bs @ [b])) then False
     else rh_ready (observe_all bs (hysteresis_new st ft)))"
proof -
  let ?h = "observe_all bs (hysteresis_new st ft)"
  have "unat (sat_add (rh_successes ?h) 1) = min (Suc (trailing True (rev bs))) (2 ^ 32 - 1)"
    "unat (sat_add (rh_failures ?h) 1) = min (Suc (trailing False (rev bs))) (2 ^ 32 - 1)"
    by (simp_all add: unat_sat_add observe_counters)
  then have c: "st \<le> sat_add (rh_successes ?h) 1 \<longleftrightarrow> unat st \<le> Suc (trailing True (rev bs))"
    "ft \<le> sat_add (rh_failures ?h) 1 \<longleftrightarrow> unat ft \<le> Suc (trailing False (rev bs))"
    by (simp_all only: word_le_nat_alt unat_le_min)
  have "rh_ready (observe_all (bs @ [b]) (hysteresis_new st ft)) = rh_ready (snd (hysteresis_observe b ?h))"
    by (simp add: observe_all_def)
  also have "\<dots> = (if b \<and> st \<le> sat_add (rh_successes ?h) 1 then True
      else if \<not> b \<and> ft \<le> sat_add (rh_failures ?h) 1 then False else rh_ready ?h)"
    by (auto simp: hysteresis_observe_def Let_def observe_counters)
  finally show ?thesis by (simp add: c)
qed

subsection \<open>The daemon's gates\<close>

text \<open>
  The gRPC health service: not started; the initial state reported; watching, with the version of the
  channel seen last. The last two also hold what the service answers.
\<close>

datatype GrpcHealth = NotStarted | Reported bool | Watching nat bool

text \<open>
  \<open>dm_monitor\<close> is the running readiness task, if any; \<open>dm_shutdown\<close> the shutdown flag of all tasks;
  \<open>dm_draining\<close> says that \<open>drain_components\<close> has withdrawn readiness.
\<close>

record Daemon =
  dm_health :: HealthState
  dm_monitor :: "ReadinessHysteresis option"
  dm_grpc :: GrpcHealth
  dm_started :: bool
  dm_draining :: bool
  dm_shutdown :: bool

definition daemon_start :: Daemon where
  "daemon_start = \<lparr>dm_health = set_live True health_state_default, dm_monitor = None, dm_grpc = NotStarted,
     dm_started = False, dm_draining = False, dm_shutdown = False\<rparr>"

definition start_readiness :: "(32 word \<times> 32 word) option \<Rightarrow> Daemon \<Rightarrow> Daemon" where
  "start_readiness config d =
    (case config of
       Some (success_threshold, failure_threshold) \<Rightarrow>
         d\<lparr>dm_monitor := Some (hysteresis_new success_threshold failure_threshold), dm_started := True\<rparr>
     | None \<Rightarrow> d\<lparr>dm_health := set_ready True (dm_health d), dm_started := True\<rparr>)"

definition monitor_tick :: "bool \<Rightarrow> ReadinessHysteresis \<Rightarrow> Daemon \<Rightarrow> Daemon" where
  "monitor_tick healthy h d =
    (case hysteresis_observe healthy h of (ready, h) \<Rightarrow> d\<lparr>dm_health := set_ready ready (dm_health d), dm_monitor := Some h\<rparr>)"

definition serve_grpc_report :: "Daemon \<Rightarrow> Daemon" where
  "serve_grpc_report d = d\<lparr>dm_grpc := Reported (is_ready (dm_health d))\<rparr>"

definition serve_grpc_watch :: "bool \<Rightarrow> Daemon \<Rightarrow> Daemon" where
  "serve_grpc_watch serving d = d\<lparr>dm_grpc := Watching (readiness (dm_health d)) serving\<rparr>"

definition monitor_grpc_health :: "Daemon \<Rightarrow> Daemon" where
  "monitor_grpc_health d = d\<lparr>dm_grpc := Watching (hs_version (dm_health d)) (hs_ready_changes (dm_health d))\<rparr>"

inductive daemon_step :: "Daemon \<Rightarrow> Daemon \<Rightarrow> bool" where
  d_start: "\<not> dm_started d \<Longrightarrow> daemon_step d (start_readiness config d)"
| d_tick: "dm_monitor d = Some h \<Longrightarrow> daemon_step d (monitor_tick healthy h d)"
| d_monitor_stop: "dm_monitor d = Some h \<Longrightarrow> dm_shutdown d \<Longrightarrow> daemon_step d (d\<lparr>dm_monitor := None\<rparr>)"
| d_report: "dm_grpc d = NotStarted \<Longrightarrow> daemon_step d (serve_grpc_report d)"
| d_watch: "dm_grpc d = Reported serving \<Longrightarrow> daemon_step d (serve_grpc_watch serving d)"
| d_update: "dm_grpc d = Watching seen serving \<Longrightarrow> seen \<noteq> hs_version (dm_health d) \<Longrightarrow> daemon_step d (monitor_grpc_health d)"
| d_drain: "dm_started d \<Longrightarrow> \<not> dm_draining d \<Longrightarrow>
    daemon_step d (d\<lparr>dm_health := set_ready False (dm_health d), dm_draining := True\<rparr>)"
| d_shutdown: "dm_draining d \<Longrightarrow> daemon_step d (d\<lparr>dm_shutdown := True\<rparr>)"
| d_stop: "dm_shutdown d \<Longrightarrow> daemon_step d (d\<lparr>dm_health := set_live False (dm_health d)\<rparr>)"

inductive_cases daemon_stepE: "daemon_step d e"

text \<open>
  The mirror is right: a watcher has seen no more than the current version, and when it has seen it, the
  service answers the current readiness.
\<close>

definition mirrors :: "Daemon \<Rightarrow> bool" where
  "mirrors d \<longleftrightarrow> hs_ready (dm_health d) = hs_ready_changes (dm_health d)
    \<and> (case dm_grpc d of
         Watching seen serving \<Rightarrow> seen \<le> hs_version (dm_health d)
           \<and> (seen = hs_version (dm_health d) \<longrightarrow> serving = hs_ready (dm_health d))
       | _ \<Rightarrow> False)"

text \<open>Readiness withdrawn for good: the drain has begun and no task is left that would set it again.\<close>

definition withdrawn :: "Daemon \<Rightarrow> bool" where
  "withdrawn d \<longleftrightarrow> dm_started d \<and> dm_draining d \<and> dm_monitor d = None \<and> \<not> is_ready (dm_health d)"

lemmas daemon_defs = start_readiness_def monitor_tick_def serve_grpc_report_def serve_grpc_watch_def
  monitor_grpc_health_def set_ready_def set_live_def readiness_def is_ready_def

interpretation dh: step_invariant daemon_step mirrors
  by unfold_locales
    (erule daemon_stepE; auto simp: mirrors_def daemon_defs split: GrpcHealth.splits option.splits prod.splits)

interpretation dw: step_invariant daemon_step withdrawn
  by unfold_locales
    (erule daemon_stepE; auto simp: withdrawn_def daemon_defs split: option.splits prod.splits)

lemma gates_agree:
  assumes "daemon_step\<^sup>*\<^sup>* daemon_start d"
  shows "hs_ready (dm_health d) = hs_ready_changes (dm_health d)"
  using assms
proof (induction rule: rtranclp_induct)
  case (step d e)
  from step.hyps(2) step.IH show ?case
    by (cases rule: daemon_step.cases) (auto simp: daemon_defs split: option.splits prod.splits)
qed (simp add: daemon_start_def health_state_default_def set_live_def)

subsection \<open>Properties\<close>

text \<open>
  C34. Hysteresis: after any sequence of observations the daemon is ready exactly when at some point the
  configured number of consecutive healthy observations was reached and since then the configured number
  of consecutive unhealthy ones was not, however long the sequence (the counters saturate).
\<close>

theorem hysteresis_exact:
  assumes "0 < success_threshold" and "0 < failure_threshold"
  shows "rh_ready (observe_all bs (hysteresis_new success_threshold failure_threshold)) \<longleftrightarrow>
    (\<exists>i \<le> length bs. streak True (unat success_threshold) bs i
      \<and> (\<forall>j. i < j \<and> j \<le> length bs \<longrightarrow> \<not> streak False (unat failure_threshold) bs j))"
proof (induction bs rule: rev_induct)
  case Nil
  have "0 < unat success_threshold" using assms(1) by (simp add: word_less_nat_alt)
  then show ?case by (simp add: observe_all_def hysteresis_new_def streak_def)
next
  case (snoc b bs)
  let ?s = "unat success_threshold" and ?f = "unat failure_threshold" and ?n = "length bs"
  have pos: "0 < ?s" "0 < ?f" using assms by (simp_all add: word_less_nat_alt)
  have last: "streak c k (bs @ [b]) (Suc ?n) \<longleftrightarrow> k \<le> trailing c (rev (bs @ [b]))" for c k
    using streak_end [of c k "bs @ [b]"] by simp
  have old: "i \<le> ?n \<Longrightarrow> streak c k (bs @ [b]) i \<longleftrightarrow> streak c k bs i" for c k i by (rule streak_append)
  have ex: "(\<exists>i \<le> Suc m. P i) \<longleftrightarrow> P (Suc m) \<or> (\<exists>i \<le> m. P i)" for P m by (auto simp: le_Suc_eq)
  have all: "(\<forall>j. i < j \<and> j \<le> Suc ?n \<longrightarrow> \<not> streak False ?f (bs @ [b]) j) \<longleftrightarrow>
      \<not> streak False ?f (bs @ [b]) (Suc ?n) \<and> (\<forall>j. i < j \<and> j \<le> ?n \<longrightarrow> \<not> streak False ?f bs j)" if "i \<le> ?n" for i
    using that old by (auto simp: le_Suc_eq)
  have "(\<exists>i \<le> Suc ?n. streak True ?s (bs @ [b]) i \<and> (\<forall>j. i < j \<and> j \<le> Suc ?n \<longrightarrow> \<not> streak False ?f (bs @ [b]) j)) \<longleftrightarrow>
      ?s \<le> trailing True (rev (bs @ [b])) \<or>
      (\<not> ?f \<le> trailing False (rev (bs @ [b]))
        \<and> (\<exists>i \<le> ?n. streak True ?s bs i \<and> (\<forall>j. i < j \<and> j \<le> ?n \<longrightarrow> \<not> streak False ?f bs j)))"
    unfolding last [symmetric] ex by (auto simp: old all cong: conj_cong)
  with snoc.IH pos show ?case unfolding observe_snoc by (cases b) auto
qed

theorem hysteresis_exact_witness:
  "rh_ready (observe_all [True, True, False, False] (hysteresis_new 2 3))
    \<and> (\<exists>i \<le> length [True, True, False, False]. streak True 2 [True, True, False, False] i
      \<and> (\<forall>j. i < j \<and> j \<le> length [True, True, False, False] \<longrightarrow> \<not> streak False 3 [True, True, False, False] j))"
proof -
  have "rh_ready (observe_all [True, True, False, False] (hysteresis_new 2 3))"
    using observe_snoc [of "[True, True, False]" False 2 3] observe_snoc [of "[True, True]" False 2 3]
      observe_snoc [of "[True]" True 2 3] by simp
  with hysteresis_exact [of 2 3 "[True, True, False, False]"] show ?thesis by simp
qed



text \<open>
  C36. Shutdown withdraws readiness for good once the readiness task has stopped: then no later step sets
  it again. Before that it is not safe: with the task still running, a check that comes after the
  withdrawal sets readiness again, and the daemon stays ready through the whole drain.
\<close>

theorem drain_readiness_race:
  "(withdrawn d \<longrightarrow> daemon_step\<^sup>*\<^sup>* d e \<longrightarrow> \<not> is_ready (dm_health e))
  \<and> (\<exists>d. daemon_step\<^sup>*\<^sup>* daemon_start d \<and> dm_draining d \<and> dm_shutdown d \<and> dm_monitor d = None \<and> is_ready (dm_health d))"
proof (intro conjI impI)
  assume "withdrawn d" "daemon_step\<^sup>*\<^sup>* d e"
  with dw.inv_reachable show "\<not> is_ready (dm_health e)" by (auto simp: withdrawn_def)
next
  let ?h = "hysteresis_new 1 1"
  let ?d1 = "start_readiness (Some (1, 1)) daemon_start"
  let ?d2 = "?d1\<lparr>dm_health := set_ready False (dm_health ?d1), dm_draining := True\<rparr>"
  let ?d3 = "monitor_tick True ?h ?d2"
  let ?d4 = "?d3\<lparr>dm_shutdown := True\<rparr>"
  let ?d5 = "?d4\<lparr>dm_monitor := None\<rparr>"
  note defs = daemon_start_def daemon_defs hysteresis_observe_def Let_def
  have "daemon_step daemon_start ?d1" by (rule d_start) (simp add: daemon_start_def)
  moreover have "daemon_step ?d1 ?d2" by (rule d_drain) (simp_all add: defs)
  moreover have "daemon_step ?d2 ?d3" by (rule d_tick) (simp add: defs)
  moreover have "daemon_step ?d3 ?d4" by (rule d_shutdown) (simp add: defs)
  moreover have "daemon_step ?d4 ?d5" by (rule d_monitor_stop) (simp_all add: defs)
  ultimately have "daemon_step\<^sup>*\<^sup>* daemon_start ?d5" by (meson rtranclp.rtrancl_into_rtrancl rtranclp.rtrancl_refl)
  moreover have "rh_ready (snd (hysteresis_observe True ?h))" by (simp add: hysteresis_observe_def hysteresis_new_def sat_add_def Let_def)
  ultimately show "\<exists>d. daemon_step\<^sup>*\<^sup>* daemon_start d \<and> dm_draining d \<and> dm_shutdown d \<and> dm_monitor d = None \<and> is_ready (dm_health d)"
    by (intro exI [of _ ?d5]) (simp add: defs split: prod.splits)
qed

definition sample_drained :: Daemon where
  "sample_drained = daemon_start\<lparr>dm_started := True, dm_draining := True\<rparr>"

theorem drain_readiness_race_witness:
  "\<not> is_ready (dm_health (sample_drained\<lparr>dm_shutdown := True\<rparr>))"
proof -
  have "withdrawn sample_drained"
    by (simp add: sample_drained_def withdrawn_def daemon_start_def set_live_def is_ready_def health_state_default_def)
  moreover have "daemon_step\<^sup>*\<^sup>* sample_drained (sample_drained\<lparr>dm_shutdown := True\<rparr>)"
    by (rule r_into_rtranclp, rule d_shutdown) (simp add: sample_drained_def)
  ultimately show ?thesis using drain_readiness_race [of sample_drained] by blast
qed

end
