(* ===== verification/Daemon_Main.thy ===== *)
theory Daemon_Main
  imports Daemon_Config Daemon_Health Ingestor
begin

text \<open>
  The process (\<open>routerd/src/main.rs\<close>, \<open>telemetry.rs\<close>, and the constructors of the Kafka clients): start-up
  composes the components of the other theories in the order of the source and stops at the first error;
  then the tasks run, with the refresh of the key set among them, until a signal or the end of a task; then
  they are drained within the grace period. Deserialising the configuration, creating Kafka clients, binding
  sockets and the OpenTelemetry SDK are the fields of \<open>MainEnv\<close>. A message of an error that another crate words
  is the string that crate gives.
\<close>

subsection \<open>Telemetry\<close>

record 'e SdkTracerProvider =
  tp_sampling_ratio :: f64
  tp_service_name :: string
  tp_exporter :: 'e

record 'e TelemetryGuard =
  tg_provider :: "'e SdkTracerProvider option"
  tg_shutdown_timeout_ms :: u64

text \<open>What telemetry changes in the process: globals of the tracing crates and standard error.\<close>

record 'e TelemetryGlobals =
  gl_propagator :: bool
  gl_subscriber :: "(string \<times> bool \<times> bool) option"
  gl_provider :: "'e SdkTracerProvider option"
  gl_stderr :: "string list"

definition build_provider :: "(string \<Rightarrow> u64 \<Rightarrow> string + 'e) \<Rightarrow> OpenTelemetryConfig \<Rightarrow> string + 'e SdkTracerProvider" where
  "build_provider span_exporter config =
    and_then (map_err (\<lambda>e. ''failed to build OTLP HTTP span exporter: '' @ e)
      (span_exporter (ot_endpoint config) (ot_timeout_ms config))) (\<lambda>exporter.
    Inr \<lparr>tp_sampling_ratio = ot_sampling_ratio config, tp_service_name = ot_service_name config, tp_exporter = exporter\<rparr>)"

text \<open>\<open>env_filter\<close> is the filter of the environment, if there is a valid one. A subscriber is its filter, JSON or not, with export or not.\<close>

definition telemetry_init ::
  "(string \<Rightarrow> u64 \<Rightarrow> string + 'e) \<Rightarrow> string option \<Rightarrow> LoggingConfig \<Rightarrow> OpenTelemetryConfig \<Rightarrow> 'e TelemetryGlobals
   \<Rightarrow> 'e TelemetryGuard \<times> 'e TelemetryGlobals" where
  "telemetry_init span_exporter env_filter logging config g =
    (let g = g\<lparr>gl_propagator := True\<rparr>;
         (provider, g) =
           (if ot_enabled config then
              (case build_provider span_exporter config of
                 Inr provider \<Rightarrow> (Some provider, g)
               | Inl error \<Rightarrow> (None, g\<lparr>gl_stderr := gl_stderr g @
                   [''OpenTelemetry initialization failed; continuing without export: '' @ error]\<rparr>))
            else (None, g));
         directives = (case env_filter of Some f \<Rightarrow> f | None \<Rightarrow> lc_filter logging);
         g = (case gl_subscriber g of
                None \<Rightarrow> g\<lparr>gl_subscriber := Some (directives, lc_json logging, provider \<noteq> None)\<rparr>
              | Some _ \<Rightarrow> g\<lparr>gl_stderr := gl_stderr g @ [''tracing subscriber initialization failed'']\<rparr>);
         g = (case provider of Some p \<Rightarrow> g\<lparr>gl_provider := Some p\<rparr> | None \<Rightarrow> g)
     in (\<lparr>tg_provider = provider, tg_shutdown_timeout_ms = ot_shutdown_timeout_ms config\<rparr>, g))"

text \<open>Shutting down logs a failure and nothing more: the result is the warning, if any.\<close>

definition telemetry_shutdown :: "('e SdkTracerProvider \<Rightarrow> u64 \<Rightarrow> string + unit) \<Rightarrow> 'e TelemetryGuard \<Rightarrow> string option" where
  "telemetry_shutdown shutdown_with_timeout guard =
    (case tg_provider guard of
       None \<Rightarrow> None
     | Some provider \<Rightarrow>
         (case shutdown_with_timeout provider (tg_shutdown_timeout_ms guard) of
            Inl error \<Rightarrow> Some (''OpenTelemetry shutdown did not complete cleanly: '' @ error)
          | Inr _ \<Rightarrow> None))"

subsection \<open>Kafka clients\<close>

text \<open>\<open>create\<close> gives a producer as the function that sends a record and acts on the world.\<close>

type_synonym 'w producer = "ProducerRecord \<Rightarrow> 'w \<Rightarrow> (KafkaError + int \<times> int) \<times> 'w"

definition kafka_publisher :: "(string \<Rightarrow> (string \<times> string) option) \<Rightarrow> 'w producer \<Rightarrow> string \<Rightarrow> 'w publisher" where
  "kafka_publisher mime_parse send topic command w =
    (kafka_publish mime_parse (\<lambda>record. fst (send record w)) topic command,
     if is_ok (command_validate mime_parse command) then snd (send (publish_record_of topic command) w) else w)"

definition kafka_publisher_new ::
  "((string \<times> string) list \<Rightarrow> string + 'w producer) \<Rightarrow> (string \<Rightarrow> (string \<times> string) option) \<Rightarrow> KafkaProducerConfig
   \<Rightarrow> string + 'w publisher" where
  "kafka_publisher_new create mime_parse config =
    and_then (map_err (\<lambda>e. ''failed to create Kafka producer: '' @ e) (create (producer_client_config config))) (\<lambda>send.
    Inr (kafka_publisher mime_parse send (kd_topic config)))"

datatype KafkaIngestError = IngestCreate string | IngestSubscribe string

definition ingestor_with_sinks ::
  "((string \<times> string) list \<Rightarrow> string + 'consumer) \<Rightarrow> ('consumer \<Rightarrow> string list \<Rightarrow> string + unit) \<Rightarrow> KafkaConsumerConfig \<Rightarrow> 'sinks
   \<Rightarrow> KafkaIngestError + 'consumer \<times> IngestConfig \<times> 'sinks" where
  "ingestor_with_sinks create subscribe_to config pre_commit_sinks =
    and_then (map_err IngestCreate (create (consumer_client_config config))) (\<lambda>consumer.
    and_then (map_err IngestSubscribe (subscribe_to consumer (kc_topics config))) (\<lambda>_.
    Inr (consumer, \<lparr>ic_max_payload_bytes = kc_max_payload_bytes config,
                    ic_commit_invalid_messages = kc_commit_invalid_messages config\<rparr>, pre_commit_sinks)))"

definition ingestor_new ::
  "((string \<times> string) list \<Rightarrow> string + 'consumer) \<Rightarrow> ('consumer \<Rightarrow> string list \<Rightarrow> string + unit) \<Rightarrow> KafkaConsumerConfig
   \<Rightarrow> KafkaIngestError + 'consumer \<times> IngestConfig \<times> 's list" where
  "ingestor_new create subscribe_to config = ingestor_with_sinks create subscribe_to config []"

subsection \<open>Start-up\<close>

record Arguments =
  ar_config :: string
  ar_check_config :: bool

text \<open>The steps of start-up that were passed, in order.\<close>

datatype StartEvent =
    TelemetryStarted
  | KeysLoaded
  | ProducerCreated
  | WebhooksBuilt
  | ConsumerCreated
  | HttpBound
  | GrpcBound
  | TaskSpawned string

record ('jwk, 'key, 'c, 'w, 'e, 'consumer) MainEnv =
  mn_deserialize :: "string \<Rightarrow> string + AppConfig"
  mn_variable :: "string \<Rightarrow> string option"
  mn_span_exporter :: "string \<Rightarrow> u64 \<Rightarrow> string + 'e"
  mn_env_filter :: "string option"
  mn_auth :: "('jwk, 'key) AuthEnv"
  mn_mime :: "string \<Rightarrow> (string \<times> string) option"
  mn_create_producer :: "(string \<times> string) list \<Rightarrow> string + 'w producer"
  mn_create_consumer :: "(string \<times> string) list \<Rightarrow> string + 'consumer"
  mn_subscribe :: "'consumer \<Rightarrow> string list \<Rightarrow> string + unit"
  mn_sinks :: "'c SinkEnv"
  mn_ops :: "'c mpsc_ops"
  mn_fresh :: "nat \<Rightarrow> connection_id"
  mn_bind :: "string \<Rightarrow> string + unit"
  mn_now :: nat

definition bind_listeners :: "(string \<Rightarrow> string + unit) \<Rightarrow> ServerConfig \<Rightarrow> StartEvent list \<times> (string + unit)" where
  "bind_listeners bind_to server =
    (case bind_to (sv_http_addr server) of
       Inl e \<Rightarrow> ([], Inl (''failed to bind HTTP listener '' @ sv_http_addr server @ '': '' @ e))
     | Inr _ \<Rightarrow>
         (case bind_to (sv_grpc_addr server) of
            Inl e \<Rightarrow> ([HttpBound], Inl (''failed to bind gRPC listener '' @ sv_grpc_addr server @ '': '' @ e))
          | Inr _ \<Rightarrow> ([HttpBound, GrpcBound], Inr ())))"

text \<open>The names of the tasks, in the order they are spawned.\<close>

definition task_names :: "AppConfig \<Rightarrow> 'key Authenticator \<Rightarrow> string list" where
  "task_names c au =
    (case jwks_refresh_interval au of Some _ \<Rightarrow> [''jwks-refresh''] | None \<Rightarrow> [])
    @ [''kafka'', ''http'', ''grpc'', ''webhooks'']
    @ (if kr_enabled (ob_kafka_readiness (ap_observability c)) then [''kafka-readiness''] else [])"

record ('c, 'key, 'w, 'e, 'consumer) Started =
  sd_config :: AppConfig
  sd_guard :: "'e TelemetryGuard"
  sd_api :: "('c, 'key, 'w) api_state"
  sd_manager :: WebhookManager
  sd_ingestor :: "'consumer \<times> IngestConfig \<times> DurableWebhookSink list"
  sd_tasks :: "string list"

text \<open>From the loaded configuration to the bound listeners; the result is \<open>None\<close> for \<open>--check-config\<close>.\<close>

definition start_components ::
  "('jwk, 'key, 'c, 'w, 'e, 'consumer) MainEnv \<Rightarrow> AppConfig
   \<Rightarrow> StartEvent list \<times> (string + ('c, 'key, 'w) api_state \<times> WebhookManager \<times> 'consumer \<times> IngestConfig \<times> DurableWebhookSink list)" where
  "start_components env c =
    (case reload_jwks (mn_auth env) (authenticator_new (ap_auth c)) of
       (Inl e, _) \<Rightarrow> ([], Inl (''failed to load initial JWT key set: '' @ e))
     | (Inr _, au) \<Rightarrow>
     let health = set_live True health_state_default; r = router_new (ap_router c) in
     (case (if kd_enabled (kf_producer (ap_kafka c))
            then map_sum id Some (kafka_publisher_new (mn_create_producer env) (mn_mime env) (kf_producer (ap_kafka c)))
            else Inr None) of
       Inl e \<Rightarrow> ([KeysLoaded], Inl (''failed to construct Kafka producer: '' @ e))
     | Inr publisher \<Rightarrow>
     (case manager_new (mn_sinks env) (mn_ops env) (mn_fresh env) (ap_webhooks c) r of
       (Inl _, _) \<Rightarrow> ([KeysLoaded, ProducerCreated], Inl ''failed to construct webhook manager'')
     | (Inr manager, r) \<Rightarrow>
     (case ingestor_with_sinks (mn_create_consumer env) (mn_subscribe env) (kf_consumer (ap_kafka c))
             (case manager_sink manager of None \<Rightarrow> [] | Some sink \<Rightarrow> [sink]) of
       Inl _ \<Rightarrow> ([KeysLoaded, ProducerCreated, WebhooksBuilt], Inl ''failed to construct Kafka consumer'')
     | Inr ingestor \<Rightarrow>
         ([KeysLoaded, ProducerCreated, WebhooksBuilt, ConsumerCreated],
          Inr (api_state_with_authenticator r au publisher health (ap_api c) (mn_now env), manager, ingestor))))))"

definition main_start ::
  "('jwk, 'key, 'c, 'w, 'e, 'consumer) MainEnv \<Rightarrow> Arguments \<Rightarrow> 'e TelemetryGlobals
   \<Rightarrow> StartEvent list \<times> (string + ('c, 'key, 'w, 'e, 'consumer) Started option)" where
  "main_start env arguments g =
    (case and_then (mn_deserialize env (ar_config arguments)) (load (mn_variable env)) of
       Inl e \<Rightarrow> ([], Inl e)
     | Inr c \<Rightarrow>
     let (guard, g) = telemetry_init (mn_span_exporter env) (mn_env_filter env) (ap_logging c) (ob_opentelemetry (ap_observability c)) g
     in if ar_check_config arguments then ([TelemetryStarted], Inr None)
        else (case start_components env c of
          (built, Inl e) \<Rightarrow> (TelemetryStarted # built, Inl e)
        | (built, Inr (st, manager, ingestor)) \<Rightarrow>
        (case bind_listeners (mn_bind env) (ap_server c) of
          (bound, Inl e) \<Rightarrow> (TelemetryStarted # built @ bound, Inl e)
        | (bound, Inr _) \<Rightarrow>
            let tasks = task_names c (as_authenticator st);
                st = (if kr_enabled (ob_kafka_readiness (ap_observability c)) then st
                      else st\<lparr>as_health := set_ready True (as_health st)\<rparr>)
            in (TelemetryStarted # built @ bound @ map TaskSpawned tasks,
                Inr (Some \<lparr>sd_config = c, sd_guard = guard, sd_api = st, sd_manager = manager, sd_ingestor = ingestor,
                  sd_tasks = tasks\<rparr>)))))"

subsection \<open>The refresh of the key set\<close>

datatype ('jwk, 'key) RefreshEvent = RefreshTick "('jwk, 'key) AuthEnv" | RefreshShutdown "bool option"

fun jwks_refresh :: "('jwk, 'key) RefreshEvent list \<Rightarrow> 'key Authenticator \<Rightarrow> 'key Authenticator" where
  "jwks_refresh [] au = au"
| "jwks_refresh (RefreshTick env # evs) au = jwks_refresh evs (snd (reload_jwks env au))"
| "jwks_refresh (RefreshShutdown changed # evs) au =
    (if changed = None \<or> changed = Some True then au else jwks_refresh evs au)"

subsection \<open>Shutdown\<close>

text \<open>The handler of the terminate signal is installed first; then the first of the two signals counts.\<close>

datatype Signalled = InstallFailed string | CtrlC "string + unit" | Terminate

definition shutdown_signal :: "Signalled \<Rightarrow> string + string" where
  "shutdown_signal s = (case s of InstallFailed e \<Rightarrow> Inl e | CtrlC res \<Rightarrow> map_sum id (\<lambda>_. ''SIGINT'') res | Terminate \<Rightarrow> Inr ''SIGTERM'')"

text \<open>A task that stops does so some milliseconds after the shutdown flag is set, or never.\<close>

record TaskRun =
  tk_name :: string
  tk_stops_after :: "nat option"

definition stops_within :: "nat \<Rightarrow> TaskRun \<Rightarrow> bool" where
  "stops_within grace t \<longleftrightarrow> (case tk_stops_after t of Some n \<Rightarrow> n \<le> grace | None \<Rightarrow> False)"

text \<open>The gates afterwards, the aborted tasks and the milliseconds it took.\<close>

definition drain_components :: "nat \<Rightarrow> TaskRun list \<Rightarrow> HealthState \<Rightarrow> HealthState \<times> string list \<times> nat" where
  "drain_components grace tasks health =
    (let health = set_ready False health;
         drained = list_all (stops_within grace) tasks;
         aborted = (if drained then [] else map tk_name (filter (\<lambda>t. \<not> stops_within grace t) tasks));
         elapsed = (if drained then fold max (map (\<lambda>t. case tk_stops_after t of Some n \<Rightarrow> n | None \<Rightarrow> 0) tasks) 0 else grace);
         health = set_live False health
     in (health, aborted, elapsed))"

definition shutdown_grace_ms :: "ServerConfig \<Rightarrow> nat" where
  "shutdown_grace_ms server = 1000 * unat (max (sv_shutdown_grace_secs server) 1)"

text \<open>
  What ends the wait of \<open>main\<close>: the outcome of the signal, or the first task to end. \<open>join_next\<close> gives nothing when
  no task is left, the error of a task that panicked, or the name and the result of a task.
\<close>

datatype MainStop = StopSignal "string + string" | ComponentExit "(string + string \<times> (string + unit)) option"

fun stop_log :: "MainStop \<Rightarrow> string" where
  "stop_log (StopSignal (Inr signal)) = ''INFO shutdown requested '' @ signal"
| "stop_log (StopSignal (Inl error)) = ''ERROR signal handler failed; shutting down '' @ error"
| "stop_log (ComponentExit (Some (Inr (name, Inr _)))) = ''WARN component exited unexpectedly '' @ name"
| "stop_log (ComponentExit (Some (Inr (name, Inl error)))) = ''ERROR component failed '' @ name @ '' '' @ error"
| "stop_log (ComponentExit (Some (Inl error))) = ''ERROR component task panicked or was cancelled '' @ error"
| "stop_log (ComponentExit None) = ''WARN all components exited''"

text \<open>
  The whole of \<open>main\<close>: \<open>health\<close> is the state of the gates and \<open>tasks\<close> the tasks that are left when the wait ends. The
  parts of the result are what was logged, the gates, the aborted tasks and the time of the drain, and what
  \<open>main\<close> returns.
\<close>

record MainEnd =
  me_log :: "string list"
  me_health :: HealthState
  me_aborted :: "string list"
  me_elapsed_ms :: nat

definition main_daemon ::
  "('jwk, 'key, 'c, 'w, 'e, 'consumer) MainEnv \<Rightarrow> Arguments \<Rightarrow> 'e TelemetryGlobals \<Rightarrow> ('e SdkTracerProvider \<Rightarrow> u64 \<Rightarrow> string + unit)
   \<Rightarrow> MainStop \<Rightarrow> HealthState \<Rightarrow> TaskRun list \<Rightarrow> string + MainEnd option" where
  "main_daemon env arguments g shutdown_with_timeout stop health tasks =
    (case snd (main_start env arguments g) of
       Inl e \<Rightarrow> Inl e
     | Inr None \<Rightarrow> Inr None
     | Inr (Some sd) \<Rightarrow>
         let grace = shutdown_grace_ms (ap_server (sd_config sd));
             (health, aborted, elapsed) = drain_components grace tasks health;
             warning = telemetry_shutdown shutdown_with_timeout (sd_guard sd)
         in Inr (Some \<lparr>me_log = stop_log stop # (case warning of Some w \<Rightarrow> [w] | None \<Rightarrow> []), me_health = health,
              me_aborted = aborted, me_elapsed_ms = elapsed\<rparr>))"

text \<open>The exit status of a process whose \<open>main\<close> returns a \<open>Result\<close>: 0 for \<open>Ok\<close> and 1 for \<open>Err\<close>.\<close>

definition exit_status :: "'e + 'a \<Rightarrow> nat" where
  "exit_status res = (if is_ok res then 0 else 1)"

subsection \<open>What start-up guarantees\<close>

lemma telemetry_never_fails:
  "\<exists>guard g'. telemetry_init span_exporter env_filter logging config g = (guard, g') \<and> gl_subscriber g' \<noteq> None
    \<and> (tg_provider guard \<noteq> None \<longrightarrow> ot_enabled config \<and> gl_provider g' = tg_provider guard)"
  by (auto simp: telemetry_init_def Let_def split: sum.splits option.splits)

lemma map_sum_Some_Inr: "map_sum id Some x = Inr y \<longleftrightarrow> (\<exists>z. x = Inr z \<and> y = Some z)"
  by (cases x) auto

lemma start_components_Inr:
  assumes "start_components env c = (built, Inr (st, manager, ingestor))"
  shows "built = [KeysLoaded, ProducerCreated, WebhooksBuilt, ConsumerCreated]"
    and "as_health st = set_live True health_state_default"
    and "as_publisher st = None \<longleftrightarrow> \<not> kd_enabled (kf_producer (ap_kafka c))"
    and "snd (snd ingestor) = (case manager_sink manager of None \<Rightarrow> [] | Some sink \<Rightarrow> [sink])"
    and "\<exists>u. reload_jwks (mn_auth env) (authenticator_new (ap_auth c)) = (Inr u, as_authenticator st)"
  using assms
  by (auto simp: start_components_def ingestor_with_sinks_def api_state_with_authenticator_def Let_def result_simps
      map_sum_Some_Inr
      split: prod.splits sum.splits if_splits)

lemma start_components_Inl:
  "start_components env c = (built, Inl e) \<Longrightarrow>
    TaskSpawned name \<notin> set built \<and> GrpcBound \<notin> set built \<and> HttpBound \<notin> set built"
  by (auto simp: start_components_def Let_def split: prod.splits sum.splits if_splits)

lemma bind_listeners_Inl: "bind_listeners bind_to server = (bound, Inl e) \<Longrightarrow> bound = [] \<or> bound = [HttpBound]"
  by (auto simp: bind_listeners_def split: sum.splits)

lemma bind_listeners_Inr: "bind_listeners bind_to server = (bound, Inr u) \<Longrightarrow> bound = [HttpBound, GrpcBound]"
  by (auto simp: bind_listeners_def split: sum.splits)

lemma initial_keys:
  assumes "reload_jwks env (authenticator_new config) = (Inr u, au)"
  shows "au_config au = config" and "ah_mode config = Jwt \<Longrightarrow> au_jwks au \<noteq> []"
  using jwks_reload_atomic [of "authenticator_new config" env] assms by (auto simp: authenticator_new_def)

lemma main_start_cases:
  assumes "main_start env arguments g = (steps, res)"
  obtains (refused) e where "res = Inl e" "steps = []"
  | (checked) "res = Inr None" "steps = [TelemetryStarted]"
  | (broken) built e c where "res = Inl e" "start_components env c = (built, Inl e)" "steps = TelemetryStarted # built"
  | (unbound) built c x bound e where "res = Inl e" "start_components env c = (built, Inr x)"
      "bind_listeners (mn_bind env) (ap_server c) = (bound, Inl e)" "steps = TelemetryStarted # built @ bound"
  | (started) built c st manager ingestor bound u sd raw where "res = Inr (Some sd)"
      "load (mn_variable env) raw = Inr c" "start_components env c = (built, Inr (st, manager, ingestor))"
      "bind_listeners (mn_bind env) (ap_server c) = (bound, Inr u)" "sd_config sd = c" "sd_manager sd = manager"
      "sd_ingestor sd = ingestor" "sd_tasks sd = task_names c (as_authenticator st)"
      "sd_api sd = (if kr_enabled (ob_kafka_readiness (ap_observability c)) then st
        else st\<lparr>as_health := set_ready True (as_health st)\<rparr>)"
      "steps = TelemetryStarted # built @ bound @ map TaskSpawned (sd_tasks sd)"
  using assms unfolding main_start_def Let_def
  by (auto simp: result_simps split: sum.splits prod.splits if_splits)

lemma task_names_of_refresh:
  "''jwks-refresh'' \<in> set (task_names c au) \<longleftrightarrow> jwks_refresh_interval au \<noteq> None"
  by (cases "jwks_refresh_interval au") (simp_all add: task_names_def)

text \<open>
  C27. The daemon starts in a fixed order and all or nothing.
  When \<open>main\<close> gets as far as waiting for a signal, the configuration it runs is one that \<open>load\<close> accepted, every
  component was built before the HTTP and then the gRPC listener was bound, and every task was spawned after both;
  the process is live, it is ready at once exactly when the Kafka readiness check is disabled, publishing is
  available exactly when the producer is enabled, the consumer waits for the sink of the webhook manager when there
  is one, and in JWT mode the key set is not empty and its refresh runs.
  When start-up fails no task was spawned and the gRPC listener is not bound, and the HTTP listener is bound only
  after every component was built.
\<close>

theorem startup_ordered:
  assumes "main_start env arguments g = (steps, res)"
  shows "case res of
      Inr (Some sd) \<Rightarrow>
        steps = [TelemetryStarted, KeysLoaded, ProducerCreated, WebhooksBuilt, ConsumerCreated, HttpBound, GrpcBound]
          @ map TaskSpawned (sd_tasks sd)
        \<and> (\<exists>raw. load (mn_variable env) raw = Inr (sd_config sd))
        \<and> is_live (as_health (sd_api sd))
        \<and> (is_ready (as_health (sd_api sd)) \<longleftrightarrow> \<not> kr_enabled (ob_kafka_readiness (ap_observability (sd_config sd))))
        \<and> (as_publisher (sd_api sd) = None \<longleftrightarrow> \<not> kd_enabled (kf_producer (ap_kafka (sd_config sd))))
        \<and> snd (snd (sd_ingestor sd)) = (case manager_sink (sd_manager sd) of None \<Rightarrow> [] | Some sink \<Rightarrow> [sink])
        \<and> (ah_mode (ap_auth (sd_config sd)) = Jwt
            \<longrightarrow> au_jwks (as_authenticator (sd_api sd)) \<noteq> [] \<and> ''jwks-refresh'' \<in> set (sd_tasks sd))
    | Inr None \<Rightarrow> ar_check_config arguments \<and> steps = [TelemetryStarted]
    | Inl e \<Rightarrow> (\<forall>name. TaskSpawned name \<notin> set steps) \<and> GrpcBound \<notin> set steps
        \<and> (HttpBound \<in> set steps \<longrightarrow> ConsumerCreated \<in> set steps)"
  using assms
proof (cases rule: main_start_cases)
  case refused
  then show ?thesis by simp
next
  case checked
  then show ?thesis using assms
    by (auto simp: main_start_def Let_def split: sum.splits prod.splits if_splits)
next
  case (broken built e c)
  then show ?thesis using start_components_Inl [of env c built e] by auto
next
  case (unbound built c x bound e)
  then have "built = [KeysLoaded, ProducerCreated, WebhooksBuilt, ConsumerCreated]"
    using start_components_Inr(1) by (cases x) blast
  then show ?thesis using unbound bind_listeners_Inl [OF unbound(3)] by auto
next
  case (started built c st manager ingestor bound u sd raw)
  note facts = start_components_Inr [OF started(3)]
  obtain u' where keys: "reload_jwks (mn_auth env) (authenticator_new (ap_auth c)) = (Inr u', as_authenticator st)"
    using facts(5) by blast
  have refresh: "ah_mode (ap_auth c) = Jwt \<Longrightarrow> ''jwks-refresh'' \<in> set (task_names c (as_authenticator st))"
    by (simp add: task_names_of_refresh jwks_refresh_interval_def initial_keys(1) [OF keys])
  have gates: "is_live (as_health (sd_api sd))"
    "is_ready (as_health (sd_api sd)) \<longleftrightarrow> \<not> kr_enabled (ob_kafka_readiness (ap_observability c))"
    using started(9) facts(2) by (simp_all add: is_live_def is_ready_def set_live_def set_ready_def health_state_default_def)
  have "as_publisher (sd_api sd) = as_publisher st" "as_authenticator (sd_api sd) = as_authenticator st"
    using started(9) by simp_all
  with started facts gates refresh initial_keys [OF keys] bind_listeners_Inr [OF started(4)] show ?thesis
    by auto
qed

definition sample_main_env :: "(unit, string, nat \<times> Delivery list \<times> bool, unit, unit, unit) MainEnv" where
  "sample_main_env = \<lparr>mn_deserialize = (\<lambda>_. Inr sample_app_config), mn_variable = (\<lambda>_. Some ''pod-1''),
    mn_span_exporter = (\<lambda>_ _. Inr ()), mn_env_filter = None, mn_auth = sample_auth_env, mn_mime = (\<lambda>_. None),
    mn_create_producer = (\<lambda>_. Inr (\<lambda>_ w. (Inr (0, 0), w))), mn_create_consumer = (\<lambda>_. Inr ()),
    mn_subscribe = (\<lambda>_ _. Inr ()), mn_sinks = sample_senv, mn_ops = fifo_ops, mn_fresh = of_nat,
    mn_bind = (\<lambda>_. Inr ()), mn_now = 0\<rparr>"

definition fresh_globals :: "unit TelemetryGlobals" where
  "fresh_globals = \<lparr>gl_propagator = False, gl_subscriber = None, gl_provider = None, gl_stderr = []\<rparr>"

lemma sample_main_starts:
  "\<exists>steps sd. main_start sample_main_env \<lparr>ar_config = ''router.toml'', ar_check_config = False\<rparr>
      fresh_globals = (steps, Inr (Some sd))
    \<and> \<not> kr_enabled (ob_kafka_readiness (ap_observability (sd_config sd)))"
proof -
  obtain c where c: "load (\<lambda>_. Some ''pod-1'') sample_app_config = Inr c"
    using sample_app_config_loads by (cases "load (\<lambda>_. Some ''pod-1'') sample_app_config") auto
  then have parts: "ah_mode (ap_auth c) = TrustedHeader" "\<not> wc_enabled (ap_webhooks c)"
    "\<not> kr_enabled (ob_kafka_readiness (ap_observability c))"
    by (auto simp: load_def apply_runtime_identity_def sample_config_defs Let_def result_simps)
  from parts(1) have "reload_jwks sample_auth_env (authenticator_new (ap_auth c)) = (Inr (), authenticator_new (ap_auth c))"
    by (simp add: reload_jwks_def authenticator_new_def Let_def)
  with parts have "\<exists>built x. start_components sample_main_env c = (built, Inr x)"
    by (simp add: start_components_def sample_main_env_def kafka_publisher_new_def manager_new_def ingestor_with_sinks_def)
  moreover have "bind_listeners (mn_bind sample_main_env) (ap_server c) = ([HttpBound, GrpcBound], Inr ())"
    by (simp add: bind_listeners_def sample_main_env_def)
  moreover have "and_then (mn_deserialize sample_main_env ''router.toml'') (load (mn_variable sample_main_env)) = Inr c"
    using c by (simp add: sample_main_env_def)
  ultimately show ?thesis using parts(3) by (auto simp: main_start_def Let_def split: prod.split)
qed

theorem startup_ordered_witness:
  "\<exists>steps sd. main_start sample_main_env \<lparr>ar_config = ''router.toml'', ar_check_config = False\<rparr>
      fresh_globals = (steps, Inr (Some sd))
    \<and> is_live (as_health (sd_api sd)) \<and> is_ready (as_health (sd_api sd)) \<and> TaskSpawned ''kafka'' \<notin> set (take 7 steps)"
proof -
  obtain steps sd where start: "main_start sample_main_env \<lparr>ar_config = ''router.toml'', ar_check_config = False\<rparr>
      fresh_globals = (steps, Inr (Some sd))"
    "\<not> kr_enabled (ob_kafka_readiness (ap_observability (sd_config sd)))"
    using sample_main_starts by blast
  with startup_ordered [OF start(1)] show ?thesis by auto
qed

text \<open>A reload that fails keeps the keys, so once the key set is loaded it is never empty again.\<close>

lemma jwks_refresh_keeps_keys:
  "au_config (jwks_refresh evs au) = au_config au
   \<and> (au_jwks au \<noteq> [] \<longrightarrow> au_jwks (jwks_refresh evs au) \<noteq> [])"
proof (induction evs au rule: jwks_refresh.induct)
  case (2 env evs au)
  moreover have "au_config (snd (reload_jwks env au)) = au_config au
      \<and> (au_jwks au \<noteq> [] \<longrightarrow> au_jwks (snd (reload_jwks env au)) \<noteq> [])"
    using jwks_reload_atomic [of au env] by (auto split: prod.splits sum.splits if_splits)
  ultimately show ?case by simp
qed auto

text \<open>
  Shutdown closes both gates, takes no longer than the grace period and aborts exactly the tasks that did not stop
  within it.
\<close>

lemma fold_max_bounded: "(\<forall>x\<in>set xs. x \<le> b) \<Longrightarrow> (a::nat) \<le> b \<Longrightarrow> fold max xs a \<le> b"
  by (induction xs arbitrary: a) auto

lemma drain_bounded:
  assumes "drain_components grace tasks health = (health', aborted, elapsed)"
  shows "\<not> is_live health' \<and> \<not> is_ready health' \<and> elapsed \<le> grace
    \<and> aborted = map tk_name (filter (\<lambda>t. \<not> stops_within grace t) tasks)"
proof -
  have "list_all (stops_within grace) tasks \<Longrightarrow>
      fold max (map (\<lambda>t. case tk_stops_after t of Some n \<Rightarrow> n | None \<Rightarrow> 0) tasks) 0 \<le> grace"
    by (rule fold_max_bounded) (auto simp: list_all_iff stops_within_def split: option.splits)
  moreover have "list_all (stops_within grace) tasks \<Longrightarrow> filter (\<lambda>t. \<not> stops_within grace t) tasks = []"
    by (auto simp: list_all_iff filter_empty_conv)
  ultimately show ?thesis using assms
    by (auto simp: drain_components_def Let_def is_live_def is_ready_def set_live_def set_ready_def split: if_splits)
qed

lemma failed_start_status:
  "main_start env arguments g = (steps, Inl e) \<Longrightarrow> exit_status (main_daemon env arguments g f stop health tasks) = 1"
  by (simp add: main_daemon_def exit_status_def)

lemma shutdown_grace_positive: "1000 \<le> shutdown_grace_ms server"
proof -
  have "1 \<le> max (sv_shutdown_grace_secs server) 1" by simp
  then have "unat (1 :: u64) \<le> unat (max (sv_shutdown_grace_secs server) 1)" by (simp only: word_le_nat_alt)
  then show ?thesis by (simp add: shutdown_grace_ms_def)
qed



end
