(* ===== verification/Metrics_Render.thy ===== *)
theory Metrics_Render
  imports Router
begin

text \<open>
  The text exposition of the metrics (\<open>render_prometheus\<close> in \<open>router-core/src/metrics.rs\<close>). The printer is
  translated line by line; a scraper's reading of the text, \<open>scrape\<close>, is the specification it is checked
  against: the lines that are no comments, each a series and a value. Every series occurs once, and its value
  is the one of the snapshot. The bounds of the buckets are printed by \<open>Display\<close> of \<open>f64\<close>, which gives the
  shortest decimal that denotes the double, without exponent: the literals of the source.
\<close>

subsection \<open>The printer\<close>

abbreviation newline :: char where
  "newline \<equiv> CHR 0x0A"

definition show_u64 :: "u64 \<Rightarrow> string" where
  "show_u64 w = show_nat (unat w)"

definition type_line :: "string \<Rightarrow> string \<Rightarrow> string" where
  "type_line name kind = ''# TYPE '' @ name @ '' '' @ kind @ [newline]"

definition sample_line :: "string \<Rightarrow> string \<Rightarrow> string" where
  "sample_line series v = series @ '' '' @ v @ [newline]"

definition labelled :: "string \<Rightarrow> string \<Rightarrow> string \<Rightarrow> string" where
  "labelled name label v = name @ ''{'' @ label @ ''=\"'' @ v @ ''\"}''"

definition protocols :: "string list" where
  "protocols = [''websocket'', ''sse'', ''grpc'', ''http_webhook'']"

definition latency_bucket_labels :: "string list" where
  "latency_bucket_labels =
    [''0.00001'', ''0.00005'', ''0.0001'', ''0.00025'', ''0.0005'', ''0.001'', ''0.0025'', ''0.005'', ''0.01'',
     ''0.025'', ''0.05'', ''0.1'', ''0.5'', ''1'']"

definition render_counters :: "MetricsSnapshot \<Rightarrow> nat \<Rightarrow> nat \<Rightarrow> string" where
  "render_counters metrics active_connections subscriptions = concat
    [type_line ''router_kafka_messages_total'' ''counter'',
     sample_line ''router_kafka_messages_total'' (show_u64 (sn_kafka_messages metrics)),
     type_line ''router_kafka_bytes_total'' ''counter'',
     sample_line ''router_kafka_bytes_total'' (show_u64 (sn_kafka_bytes metrics)),
     type_line ''router_kafka_commit_errors_total'' ''counter'',
     sample_line ''router_kafka_commit_errors_total'' (show_u64 (sn_kafka_commit_errors metrics)),
     type_line ''router_kafka_rebalances_total'' ''counter'',
     sample_line (labelled ''router_kafka_rebalances_total'' ''event'' ''assignment'') (show_u64 (sn_kafka_rebalance_assignments metrics)),
     sample_line (labelled ''router_kafka_rebalances_total'' ''event'' ''revocation'') (show_u64 (sn_kafka_rebalance_revocations metrics)),
     sample_line (labelled ''router_kafka_rebalances_total'' ''event'' ''error'') (show_u64 (sn_kafka_rebalance_errors metrics)),
     type_line ''router_messages_valid_total'' ''counter'',
     sample_line ''router_messages_valid_total'' (show_u64 (sn_valid_messages metrics)),
     type_line ''router_messages_invalid_total'' ''counter'',
     sample_line ''router_messages_invalid_total'' (show_u64 (sn_invalid_messages metrics)),
     type_line ''router_messages_unmatched_total'' ''counter'',
     sample_line ''router_messages_unmatched_total'' (show_u64 (sn_unmatched_messages metrics)),
     type_line ''router_matched_subscriptions_total'' ''counter'',
     sample_line ''router_matched_subscriptions_total'' (show_u64 (sn_matched_subscriptions metrics)),
     type_line ''router_delivered_connections_total'' ''counter'',
     sample_line ''router_delivered_connections_total'' (show_u64 (sn_delivered_connections metrics)),
     type_line ''router_full_connections_total'' ''counter'',
     sample_line ''router_full_connections_total'' (show_u64 (sn_full_connections metrics)),
     type_line ''router_closed_connections_total'' ''counter'',
     sample_line ''router_closed_connections_total'' (show_u64 (sn_closed_connections metrics)),
     type_line ''router_slow_consumer_disconnects_total'' ''counter'',
     sample_line ''router_slow_consumer_disconnects_total'' (show_u64 (sn_slow_consumer_disconnects metrics)),
     type_line ''router_security_limit_rejections_total'' ''counter'',
     sample_line ''router_security_limit_rejections_total'' (show_u64 (sn_security_limit_rejections metrics)),
     type_line ''router_connections'' ''gauge'',
     sample_line ''router_connections'' (show_nat active_connections),
     type_line ''router_subscriptions'' ''gauge'',
     sample_line ''router_subscriptions'' (show_nat subscriptions),
     type_line ''router_protocol_connections_opened_total'' ''counter'',
     sample_line (labelled ''router_protocol_connections_opened_total'' ''protocol'' ''websocket'') (show_u64 (sn_websocket_opened metrics)),
     sample_line (labelled ''router_protocol_connections_opened_total'' ''protocol'' ''sse'') (show_u64 (sn_sse_opened metrics)),
     sample_line (labelled ''router_protocol_connections_opened_total'' ''protocol'' ''grpc'') (show_u64 (sn_grpc_opened metrics)),
     sample_line (labelled ''router_protocol_connections_opened_total'' ''protocol'' ''http_webhook'') (show_u64 (sn_webhook_opened metrics)),
     type_line ''router_webhook_attempts_total'' ''counter'',
     sample_line ''router_webhook_attempts_total'' (show_u64 (sn_webhook_attempts metrics)),
     type_line ''router_webhook_successes_total'' ''counter'',
     sample_line ''router_webhook_successes_total'' (show_u64 (sn_webhook_successes metrics)),
     type_line ''router_webhook_failures_total'' ''counter'',
     sample_line ''router_webhook_failures_total'' (show_u64 (sn_webhook_failures metrics)),
     type_line ''router_webhook_durable_commands_total'' ''counter'',
     sample_line ''router_webhook_durable_commands_total'' (show_u64 (sn_webhook_durable_commands metrics)),
     type_line ''router_webhook_retries_scheduled_total'' ''counter'',
     sample_line ''router_webhook_retries_scheduled_total'' (show_u64 (sn_webhook_retries_scheduled metrics)),
     type_line ''router_webhook_recovery_replays_total'' ''counter'',
     sample_line ''router_webhook_recovery_replays_total'' (show_u64 (sn_webhook_recovery_replays metrics)),
     type_line ''router_webhook_dead_letters_total'' ''counter'',
     sample_line ''router_webhook_dead_letters_total'' (show_u64 (sn_webhook_dead_letters metrics)),
     type_line ''router_publish_attempts_total'' ''counter'',
     sample_line (labelled ''router_publish_attempts_total'' ''protocol'' ''http'') (show_u64 (sn_http_publish_attempts metrics)),
     sample_line (labelled ''router_publish_attempts_total'' ''protocol'' ''grpc'') (show_u64 (sn_grpc_publish_attempts metrics)),
     type_line ''router_publish_acknowledged_total'' ''counter'',
     sample_line (labelled ''router_publish_acknowledged_total'' ''protocol'' ''http'') (show_u64 (sn_http_publish_acknowledged metrics)),
     sample_line (labelled ''router_publish_acknowledged_total'' ''protocol'' ''grpc'') (show_u64 (sn_grpc_publish_acknowledged metrics)),
     type_line ''router_publish_failures_total'' ''counter'',
     sample_line (labelled ''router_publish_failures_total'' ''protocol'' ''http'') (show_u64 (sn_http_publish_failures metrics)),
     sample_line (labelled ''router_publish_failures_total'' ''protocol'' ''grpc'') (show_u64 (sn_grpc_publish_failures metrics))]"

definition render_kafka_gauges :: "MetricsSnapshot \<Rightarrow> string" where
  "render_kafka_gauges metrics =
    type_line ''router_kafka_assigned_partitions'' ''gauge''
    @ sample_line ''router_kafka_assigned_partitions'' (show_u64 (sn_kafka_assigned_partitions metrics))
    @ type_line ''router_kafka_lag_messages'' ''gauge''
    @ sample_line ''router_kafka_lag_messages'' (show_u64 (sn_kafka_lag_messages metrics))"

definition render_protocol_gauges :: "MetricsSnapshot \<Rightarrow> string" where
  "render_protocol_gauges metrics =
    type_line ''router_active_connections'' ''gauge''
    @ type_line ''router_active_subscriptions'' ''gauge''
    @ concat (map (\<lambda>(index, protocol).
        sample_line (labelled ''router_active_connections'' ''protocol'' protocol)
          (show_u64 (sn_active_connections_by_protocol metrics ! index))
        @ sample_line (labelled ''router_active_subscriptions'' ''protocol'' protocol)
          (show_u64 (sn_active_subscriptions_by_protocol metrics ! index)))
      (List.enumerate 0 protocols))"

definition bucket_series :: "LatencyStage \<Rightarrow> string \<Rightarrow> string" where
  "bucket_series stage upper =
    ''router_operation_latency_seconds_bucket{stage=\"'' @ latency_label stage @ ''\",le=\"'' @ upper @ ''\"}''"

fun render_buckets :: "LatencyStage \<Rightarrow> HistogramSnapshot \<Rightarrow> nat \<Rightarrow> u64 \<Rightarrow> string list \<Rightarrow> string" where
  "render_buckets stage histogram index cumulative [] = []"
| "render_buckets stage histogram index cumulative (upper # uppers) =
    (let cumulative = sat_add cumulative (hn_buckets histogram ! index)
     in sample_line (bucket_series stage upper) (show_u64 cumulative)
       @ render_buckets stage histogram (Suc index) cumulative uppers)"

text \<open>\<open>{:06}\<close>: at least six digits, filled with zeros on the left.\<close>

definition pad6 :: "nat \<Rightarrow> string" where
  "pad6 n = replicate (6 - length (show_nat n)) CHR ''0'' @ show_nat n"

definition render_histogram :: "LatencyStage \<Rightarrow> HistogramSnapshot \<Rightarrow> string" where
  "render_histogram stage histogram =
    render_buckets stage histogram 0 0 latency_bucket_labels
    @ sample_line (bucket_series stage ''+Inf'') (show_u64 (hn_count histogram))
    @ sample_line (labelled ''router_operation_latency_seconds_sum'' ''stage'' (latency_label stage))
        (show_nat (unat (hn_sum_micros histogram) div 1000000) @ ''.'' @ pad6 (unat (hn_sum_micros histogram) mod 1000000))
    @ sample_line (labelled ''router_operation_latency_seconds_count'' ''stage'' (latency_label stage))
        (show_u64 (hn_count histogram))"

definition render_prometheus :: "MetricsSnapshot \<Rightarrow> nat \<Rightarrow> nat \<Rightarrow> string" where
  "render_prometheus metrics active_connections subscriptions =
    render_counters metrics active_connections subscriptions
    @ render_kafka_gauges metrics
    @ render_protocol_gauges metrics
    @ type_line ''router_operation_latency_seconds'' ''histogram''
    @ concat (map (\<lambda>stage. render_histogram stage (sn_latency metrics ! latency_index stage)) latency_all)"

subsection \<open>The reader\<close>

fun lines_of :: "string \<Rightarrow> string list" where
  "lines_of [] = []"
| "lines_of (c # cs) =
    (if c = newline then [] # lines_of cs
     else case lines_of cs of [] \<Rightarrow> [[c]] | l # ls \<Rightarrow> (c # l) # ls)"

definition read_sample :: "string \<Rightarrow> string \<times> string" where
  "read_sample l =
    (rev (tl (dropWhile (\<lambda>c. c \<noteq> CHR '' '') (rev l))), rev (takeWhile (\<lambda>c. c \<noteq> CHR '' '') (rev l)))"

definition scrape :: "string \<Rightarrow> (string \<times> string) list" where
  "scrape s = map read_sample (filter (\<lambda>l. l \<noteq> [] \<and> hd l \<noteq> CHR ''#'') (lines_of s))"

definition plain_series :: "string \<Rightarrow> bool" where
  "plain_series s \<longleftrightarrow> s \<noteq> [] \<and> hd s \<noteq> CHR ''#'' \<and> newline \<notin> set s"

definition plain_value :: "string \<Rightarrow> bool" where
  "plain_value v \<longleftrightarrow> newline \<notin> set v \<and> CHR '' '' \<notin> set v"

named_theorems scrape_simps

lemma lines_of_append: "newline \<notin> set l \<Longrightarrow> lines_of (l @ newline # cs) = l # lines_of cs"
  by (induction l) auto

lemma read_sample_split: "CHR '' '' \<notin> set v \<Longrightarrow> read_sample (series @ CHR '' '' # v) = (series, v)"
proof -
  assume "CHR '' '' \<notin> set v"
  then have "dropWhile (\<lambda>c. c \<noteq> CHR '' '') (rev v @ CHR '' '' # rev series) = CHR '' '' # rev series"
    "takeWhile (\<lambda>c. c \<noteq> CHR '' '') (rev v @ CHR '' '' # rev series) = rev v"
    by (subst dropWhile_append2 takeWhile_append2; auto)+
  then show ?thesis by (simp add: read_sample_def)
qed

lemma scrape_Nil [scrape_simps]: "scrape [] = []"
  by (simp add: scrape_def)

lemma scrape_sample [scrape_simps]:
  assumes "plain_series s" "plain_value v"
  shows "scrape (sample_line s v @ cs) = (s, v) # scrape cs"
proof -
  have "lines_of (sample_line s v @ cs) = (s @ CHR '' '' # v) # lines_of cs"
    using lines_of_append [of "s @ CHR '' '' # v" cs] assms
    by (simp add: sample_line_def plain_series_def plain_value_def)
  with assms show ?thesis by (simp add: scrape_def plain_series_def plain_value_def read_sample_split)
qed

lemma scrape_type [scrape_simps]:
  assumes "newline \<notin> set name" "newline \<notin> set kind"
  shows "scrape (type_line name kind @ cs) = scrape cs"
proof -
  have "lines_of (type_line name kind @ cs) = (''# TYPE '' @ name @ '' '' @ kind) # lines_of cs"
    using lines_of_append [of "''# TYPE '' @ name @ '' '' @ kind" cs] assms by (simp add: type_line_def)
  then show ?thesis by (simp add: scrape_def)
qed

lemma plain_show_nat [scrape_simps]: "plain_value (show_nat n)" "plain_value (show_u64 w)"
proof -
  show p: "plain_value (show_nat n)" for n using show_nat_digits [of _ n] by (fastforce simp: plain_value_def)
  show "plain_value (show_u64 w)" by (simp add: show_u64_def p)
qed

lemma plain_series_Cons [scrape_simps]: "plain_series (c # cs) \<longleftrightarrow> c \<noteq> CHR ''#'' \<and> newline \<notin> set (c # cs)"
  by (simp add: plain_series_def)

lemma plain_labelled [scrape_simps]:
  "plain_series name \<Longrightarrow> newline \<notin> set label \<Longrightarrow> newline \<notin> set v \<Longrightarrow> plain_series (labelled name label v)"
  by (auto simp: plain_series_def labelled_def)

subsection \<open>What the text says\<close>

text \<open>The series of the registry and the fields they report.\<close>

definition counter_samples :: "MetricsSnapshot \<Rightarrow> nat \<Rightarrow> nat \<Rightarrow> (string \<times> string) list" where
  "counter_samples metrics active_connections subscriptions =
    [(''router_kafka_messages_total'', show_u64 (sn_kafka_messages metrics)),
     (''router_kafka_bytes_total'', show_u64 (sn_kafka_bytes metrics)),
     (''router_kafka_commit_errors_total'', show_u64 (sn_kafka_commit_errors metrics)),
     (labelled ''router_kafka_rebalances_total'' ''event'' ''assignment'', show_u64 (sn_kafka_rebalance_assignments metrics)),
     (labelled ''router_kafka_rebalances_total'' ''event'' ''revocation'', show_u64 (sn_kafka_rebalance_revocations metrics)),
     (labelled ''router_kafka_rebalances_total'' ''event'' ''error'', show_u64 (sn_kafka_rebalance_errors metrics)),
     (''router_messages_valid_total'', show_u64 (sn_valid_messages metrics)),
     (''router_messages_invalid_total'', show_u64 (sn_invalid_messages metrics)),
     (''router_messages_unmatched_total'', show_u64 (sn_unmatched_messages metrics)),
     (''router_matched_subscriptions_total'', show_u64 (sn_matched_subscriptions metrics)),
     (''router_delivered_connections_total'', show_u64 (sn_delivered_connections metrics)),
     (''router_full_connections_total'', show_u64 (sn_full_connections metrics)),
     (''router_closed_connections_total'', show_u64 (sn_closed_connections metrics)),
     (''router_slow_consumer_disconnects_total'', show_u64 (sn_slow_consumer_disconnects metrics)),
     (''router_security_limit_rejections_total'', show_u64 (sn_security_limit_rejections metrics)),
     (''router_connections'', show_nat active_connections),
     (''router_subscriptions'', show_nat subscriptions),
     (labelled ''router_protocol_connections_opened_total'' ''protocol'' ''websocket'', show_u64 (sn_websocket_opened metrics)),
     (labelled ''router_protocol_connections_opened_total'' ''protocol'' ''sse'', show_u64 (sn_sse_opened metrics)),
     (labelled ''router_protocol_connections_opened_total'' ''protocol'' ''grpc'', show_u64 (sn_grpc_opened metrics)),
     (labelled ''router_protocol_connections_opened_total'' ''protocol'' ''http_webhook'', show_u64 (sn_webhook_opened metrics)),
     (''router_webhook_attempts_total'', show_u64 (sn_webhook_attempts metrics)),
     (''router_webhook_successes_total'', show_u64 (sn_webhook_successes metrics)),
     (''router_webhook_failures_total'', show_u64 (sn_webhook_failures metrics)),
     (''router_webhook_durable_commands_total'', show_u64 (sn_webhook_durable_commands metrics)),
     (''router_webhook_retries_scheduled_total'', show_u64 (sn_webhook_retries_scheduled metrics)),
     (''router_webhook_recovery_replays_total'', show_u64 (sn_webhook_recovery_replays metrics)),
     (''router_webhook_dead_letters_total'', show_u64 (sn_webhook_dead_letters metrics)),
     (labelled ''router_publish_attempts_total'' ''protocol'' ''http'', show_u64 (sn_http_publish_attempts metrics)),
     (labelled ''router_publish_attempts_total'' ''protocol'' ''grpc'', show_u64 (sn_grpc_publish_attempts metrics)),
     (labelled ''router_publish_acknowledged_total'' ''protocol'' ''http'', show_u64 (sn_http_publish_acknowledged metrics)),
     (labelled ''router_publish_acknowledged_total'' ''protocol'' ''grpc'', show_u64 (sn_grpc_publish_acknowledged metrics)),
     (labelled ''router_publish_failures_total'' ''protocol'' ''http'', show_u64 (sn_http_publish_failures metrics)),
     (labelled ''router_publish_failures_total'' ''protocol'' ''grpc'', show_u64 (sn_grpc_publish_failures metrics))]"

definition gauge_samples :: "MetricsSnapshot \<Rightarrow> (string \<times> string) list" where
  "gauge_samples metrics =
    [(''router_kafka_assigned_partitions'', show_u64 (sn_kafka_assigned_partitions metrics)),
     (''router_kafka_lag_messages'', show_u64 (sn_kafka_lag_messages metrics))]"

definition protocol_label :: "DeliveryProtocol \<Rightarrow> string" where
  "protocol_label p = protocols ! protocol_index p"

definition protocol_samples :: "MetricsSnapshot \<Rightarrow> (string \<times> string) list" where
  "protocol_samples metrics = concat (map (\<lambda>p.
     [(labelled ''router_active_connections'' ''protocol'' (protocol_label p),
       show_u64 (sn_active_connections_by_protocol metrics ! protocol_index p)),
      (labelled ''router_active_subscriptions'' ''protocol'' (protocol_label p),
       show_u64 (sn_active_subscriptions_by_protocol metrics ! protocol_index p))])
     [WebSocket, Sse, Grpc, HttpWebhook])"

text \<open>The cumulative count of a bucket saturates like the printer's.\<close>

definition cumulative :: "HistogramSnapshot \<Rightarrow> nat \<Rightarrow> nat" where
  "cumulative h i = min (\<Sum>j<i. unat (hn_buckets h ! j)) (2 ^ 64 - 1)"

definition latency_samples :: "LatencyStage \<Rightarrow> HistogramSnapshot \<Rightarrow> (string \<times> string) list" where
  "latency_samples stage h =
    map (\<lambda>i. (bucket_series stage (latency_bucket_labels ! i), show_nat (cumulative h (Suc i)))) [0..<14]
    @ [(bucket_series stage ''+Inf'', show_u64 (hn_count h)),
       (labelled ''router_operation_latency_seconds_sum'' ''stage'' (latency_label stage),
        show_nat (unat (hn_sum_micros h) div 1000000) @ ''.'' @ pad6 (unat (hn_sum_micros h) mod 1000000)),
       (labelled ''router_operation_latency_seconds_count'' ''stage'' (latency_label stage), show_u64 (hn_count h))]"

definition metric_samples :: "MetricsSnapshot \<Rightarrow> nat \<Rightarrow> nat \<Rightarrow> (string \<times> string) list" where
  "metric_samples metrics active_connections subscriptions =
    counter_samples metrics active_connections subscriptions @ gauge_samples metrics @ protocol_samples metrics
    @ concat (map (\<lambda>stage. latency_samples stage (sn_latency metrics ! latency_index stage)) latency_all)"

lemma scrape_counters: "scrape (render_counters m a s @ cs) = counter_samples m a s @ scrape cs"
  by (simp add: render_counters_def counter_samples_def scrape_simps)

lemma scrape_kafka_gauges: "scrape (render_kafka_gauges m @ cs) = gauge_samples m @ scrape cs"
  by (simp add: render_kafka_gauges_def gauge_samples_def scrape_simps)

lemma scrape_protocol_gauges: "scrape (render_protocol_gauges m @ cs) = protocol_samples m @ scrape cs"
  by (simp add: render_protocol_gauges_def protocol_samples_def protocols_def protocol_label_def protocol_index_def
      scrape_simps numeral_2_eq_2 numeral_3_eq_3)

lemma plain_bucket_series [scrape_simps]: "newline \<notin> set upper \<Longrightarrow> plain_series (bucket_series stage upper)"
  by (cases stage) (simp_all add: bucket_series_def latency_label_def scrape_simps)

lemma plain_latency_labels: "\<forall>upper\<in>set latency_bucket_labels. newline \<notin> set upper"
  by (simp add: latency_bucket_labels_def)

lemma length_latency_labels: "length latency_bucket_labels = 14"
  by (simp add: latency_bucket_labels_def)

lemma unat_cumulative_Suc:
  "unat (sat_add c (hn_buckets h ! i)) = cumulative h (Suc i)" if "unat c = cumulative h i"
  using that by (simp add: cumulative_def unat_sat_add)

lemma scrape_buckets:
  assumes "\<forall>upper\<in>set uppers. newline \<notin> set upper" "unat c = cumulative h index"
  shows "scrape (render_buckets stage h index c uppers @ cs) =
    map (\<lambda>i. (bucket_series stage (uppers ! i), show_nat (cumulative h (Suc (index + i))))) [0..<length uppers] @ scrape cs"
  using assms
proof (induction uppers arbitrary: index c)
  case (Cons upper uppers)
  have *: "[0..<length (upper # uppers)] = 0 # map Suc [0..<length uppers]"
    by (simp add: map_Suc_upt upt_conv_Cons del: upt_Suc)
  from Cons.prems Cons.IH [of "sat_add c (hn_buckets h ! index)" "Suc index"] show ?case
    unfolding * by (simp add: Let_def scrape_simps show_u64_def unat_cumulative_Suc comp_def)
qed simp

lemma plain_sum [scrape_simps]: "plain_value (show_nat a @ CHR ''.'' # pad6 b)"
  using plain_show_nat(1) [of a] plain_show_nat(1) [of b] by (auto simp: plain_value_def pad6_def)

lemma plain_label [scrape_simps]: "newline \<notin> set (latency_label stage)"
  by (cases stage) (simp_all add: latency_label_def)

lemma scrape_histogram: "scrape (render_histogram stage h @ cs) = latency_samples stage h @ scrape cs"
proof -
  have "unat (0 :: u64) = cumulative h 0" by (simp add: cumulative_def)
  then show ?thesis
    by (simp add: render_histogram_def latency_samples_def scrape_simps scrape_buckets [OF plain_latency_labels]
        length_latency_labels del: upt_rec_numeral)
qed

lemma scrape_histograms:
  "scrape (concat (map (\<lambda>stage. render_histogram stage (f stage)) stages)) =
    concat (map (\<lambda>stage. latency_samples stage (f stage)) stages)"
  by (induction stages) (simp_all add: scrape_histogram scrape_simps)

lemma scrape_render: "scrape (render_prometheus m a s) = metric_samples m a s"
  by (simp add: render_prometheus_def metric_samples_def scrape_counters scrape_kafka_gauges scrape_protocol_gauges
      scrape_histograms scrape_type)

subsection \<open>Every series occurs once\<close>

definition latency_prefix :: string where
  "latency_prefix = ''router_operation_latency_seconds_''"

lemma label_inj: "latency_label a @ CHR 0x22 # x = latency_label b @ CHR 0x22 # y \<longleftrightarrow> a = b \<and> x = y"
  by (cases a; cases b) (simp_all add: latency_label_def)

lemma latency_label_inj: "latency_label a = latency_label b \<longleftrightarrow> a = b"
  by (cases a; cases b) (simp_all add: latency_label_def)

lemma bucket_series_inj: "bucket_series a x = bucket_series b y \<longleftrightarrow> a = b \<and> x = y"
  by (auto simp: bucket_series_def label_inj)

lemma stage_series_inj: "labelled name ''stage'' (latency_label a) = labelled name ''stage'' (latency_label b) \<longleftrightarrow> a = b"
  by (simp add: labelled_def latency_label_inj)

lemma stage_series_apart:
  "bucket_series a x \<noteq> labelled ''router_operation_latency_seconds_sum'' ''stage'' l"
  "bucket_series a x \<noteq> labelled ''router_operation_latency_seconds_count'' ''stage'' l"
  "labelled ''router_operation_latency_seconds_sum'' ''stage'' l \<noteq> labelled ''router_operation_latency_seconds_count'' ''stage'' k"
  by (simp_all add: bucket_series_def labelled_def)

lemma distinct_labels: "distinct (latency_bucket_labels @ [''+Inf''])"
  by (simp add: latency_bucket_labels_def)

definition stage_series :: "LatencyStage \<Rightarrow> string list" where
  "stage_series stage = map (bucket_series stage) (latency_bucket_labels @ [''+Inf''])
    @ [labelled ''router_operation_latency_seconds_sum'' ''stage'' (latency_label stage),
       labelled ''router_operation_latency_seconds_count'' ''stage'' (latency_label stage)]"

lemma series_latency_samples: "map fst (latency_samples stage h) = stage_series stage"
proof -
  have "map (\<lambda>i. bucket_series stage (latency_bucket_labels ! i)) [0..<14] = map (bucket_series stage) latency_bucket_labels"
    by (rule nth_equalityI) (simp_all add: length_latency_labels)
  then show ?thesis by (simp add: latency_samples_def stage_series_def comp_def del: upt_rec_numeral)
qed

lemma distinct_stage_series: "distinct (stage_series stage)"
  using distinct_labels
  by (auto simp: stage_series_def distinct_map inj_on_def bucket_series_inj stage_series_apart
      stage_series_apart [symmetric])

lemma stage_series_disjoint: "a \<noteq> b \<Longrightarrow> set (stage_series a) \<inter> set (stage_series b) = {}"
  by (auto simp: stage_series_def bucket_series_inj stage_series_inj stage_series_apart stage_series_apart [symmetric])

lemma stage_series_prefix: "x \<in> set (stage_series stage) \<Longrightarrow> take 33 x = latency_prefix"
  by (auto simp: stage_series_def bucket_series_def labelled_def latency_prefix_def)

lemma distinct_concat_series: "distinct stages \<Longrightarrow> distinct (concat (map stage_series stages))"
proof (induction stages)
  case (Cons stage stages)
  then have "set (stage_series stage) \<inter> set (stage_series b) = {}" if "b \<in> set stages" for b
    using that by (intro stage_series_disjoint) auto
  with Cons show ?case by (auto simp: distinct_stage_series)
qed simp

definition plain_samples :: "MetricsSnapshot \<Rightarrow> nat \<Rightarrow> nat \<Rightarrow> (string \<times> string) list" where
  "plain_samples m a s = counter_samples m a s @ gauge_samples m @ protocol_samples m"

lemmas plain_samples_defs = plain_samples_def counter_samples_def gauge_samples_def protocol_samples_def
  labelled_def protocol_label_def protocols_def protocol_index_def

lemma plain_series_apart: "x \<in> set (map fst (plain_samples m a s)) \<Longrightarrow> take 33 x \<noteq> latency_prefix"
  by (auto simp: plain_samples_defs latency_prefix_def)

lemma distinct_plain_samples: "distinct (map fst (plain_samples m a s))"
  by (simp add: plain_samples_defs)

lemma distinct_metric_samples: "distinct (map fst (metric_samples m a s))"
proof -
  let ?latency = "concat (map stage_series latency_all)"
  have eq: "map fst (metric_samples m a s) = map fst (plain_samples m a s) @ ?latency"
    by (simp add: metric_samples_def plain_samples_def map_concat comp_def series_latency_samples)
  have "distinct ?latency" by (rule distinct_concat_series) (simp add: latency_all_def)
  moreover have "set (map fst (plain_samples m a s)) \<inter> set ?latency = {}"
    using plain_series_apart stage_series_prefix by fastforce
  ultimately show ?thesis unfolding eq using distinct_plain_samples by simp
qed

lemma distinct_scrape: "distinct (map fst (scrape (render_prometheus m a s)))"
  by (simp add: scrape_render distinct_metric_samples)

lemma scraped_value:
  "(series, v) \<in> set (metric_samples m a s) \<Longrightarrow> map_of (scrape (render_prometheus m a s)) series = Some v"
  by (simp add: scrape_render distinct_metric_samples)

lemma snapshot_gauges:
  "sn_active_connections_by_protocol (snapshot m) ! protocol_index p = conn_gauge p m"
  "sn_active_subscriptions_by_protocol (snapshot m) ! protocol_index p = sub_gauge p m"
  by (simp_all add: snapshot_def conn_gauge_def sub_gauge_def del: upt_rec_numeral)

text \<open>
  The labels of the series are the values of two finite types: \<open>PROTOCOLS\<close> and \<open>LatencyStage::ALL\<close> list them, each once.
\<close>

instantiation DeliveryProtocol :: enum
begin

definition enum_DeliveryProtocol :: "DeliveryProtocol list" where
  "enum_DeliveryProtocol = [WebSocket, Sse, Grpc, HttpWebhook]"

definition enum_all_DeliveryProtocol :: "(DeliveryProtocol \<Rightarrow> bool) \<Rightarrow> bool" where
  "enum_all_DeliveryProtocol P \<longleftrightarrow> list_all P enum_class.enum"

definition enum_ex_DeliveryProtocol :: "(DeliveryProtocol \<Rightarrow> bool) \<Rightarrow> bool" where
  "enum_ex_DeliveryProtocol P \<longleftrightarrow> list_ex P enum_class.enum"

instance
proof
  have all: "p \<in> set enum_class.enum" for p :: DeliveryProtocol by (cases p) (simp_all add: enum_DeliveryProtocol_def)
  then show "(UNIV :: DeliveryProtocol set) = set enum_class.enum" by auto
  show "distinct (enum_class.enum :: DeliveryProtocol list)" by (simp add: enum_DeliveryProtocol_def)
  show "enum_class.enum_all P \<longleftrightarrow> Ball UNIV P" "enum_class.enum_ex P \<longleftrightarrow> Bex UNIV P" for P :: "DeliveryProtocol \<Rightarrow> bool"
    using all by (auto simp: enum_all_DeliveryProtocol_def enum_ex_DeliveryProtocol_def list_all_iff list_ex_iff)
qed

end

instantiation LatencyStage :: enum
begin

definition enum_LatencyStage :: "LatencyStage list" where
  "enum_LatencyStage = latency_all"

definition enum_all_LatencyStage :: "(LatencyStage \<Rightarrow> bool) \<Rightarrow> bool" where
  "enum_all_LatencyStage P \<longleftrightarrow> list_all P enum_class.enum"

definition enum_ex_LatencyStage :: "(LatencyStage \<Rightarrow> bool) \<Rightarrow> bool" where
  "enum_ex_LatencyStage P \<longleftrightarrow> list_ex P enum_class.enum"

instance
proof
  have all: "s \<in> set enum_class.enum" for s :: LatencyStage
    by (cases s) (simp_all add: enum_LatencyStage_def latency_all_def)
  then show "(UNIV :: LatencyStage set) = set enum_class.enum" by auto
  show "distinct (enum_class.enum :: LatencyStage list)" by (simp add: enum_LatencyStage_def latency_all_def)
  show "enum_class.enum_all P \<longleftrightarrow> Ball UNIV P" "enum_class.enum_ex P \<longleftrightarrow> Bex UNIV P" for P :: "LatencyStage \<Rightarrow> bool"
    using all by (auto simp: enum_all_LatencyStage_def enum_ex_LatencyStage_def list_all_iff list_ex_iff)
qed

end

text \<open>So the series of the protocols partition the totals.\<close>

lemma length_partition: "(\<Sum>p\<in>UNIV. length (filter (\<lambda>x. f x = p) xs)) = length xs" for f :: "'a \<Rightarrow> 'b::finite"
proof (induction xs)
  case (Cons x xs)
  have "(\<Sum>p\<in>UNIV. length (filter (\<lambda>y. f y = p) (x # xs)))
      = (\<Sum>p\<in>UNIV. (if p = f x then 1 else 0) + length (filter (\<lambda>y. f y = p) xs))"
    by (rule sum.cong) auto
  then show ?case by (simp add: sum.distrib Cons)
qed simp

lemma protocols_partition: "(\<Sum>p\<in>UNIV. connections_by_protocol p r) = length (rt_connections r)"
  using length_partition [of "\<lambda>(cid, cs). cs_protocol cs" "rt_connections r"]
  by (simp add: connections_by_protocol_def case_prod_unfold)

lemma scraped_gauges:
  "map_of (scrape (render_prometheus (snapshot m) a s)) ''router_connections'' = Some (show_nat a)"
  "map_of (scrape (render_prometheus (snapshot m) a s)) ''router_subscriptions'' = Some (show_nat s)"
  "map_of (scrape (render_prometheus (snapshot m) a s)) (labelled ''router_active_connections'' ''protocol'' (protocol_label p))
    = Some (show_u64 (conn_gauge p m))"
  "map_of (scrape (render_prometheus (snapshot m) a s)) (labelled ''router_active_subscriptions'' ''protocol'' (protocol_label p))
    = Some (show_u64 (sub_gauge p m))"
proof -
  have "p \<in> set [WebSocket, Sse, Grpc, HttpWebhook]" using in_enum [of p] by (simp only: enum_DeliveryProtocol_def)
  then have "(labelled ''router_active_connections'' ''protocol'' (protocol_label p), show_u64 (conn_gauge p m))
      \<in> set (protocol_samples (snapshot m))"
    "(labelled ''router_active_subscriptions'' ''protocol'' (protocol_label p), show_u64 (sub_gauge p m))
      \<in> set (protocol_samples (snapshot m))"
    unfolding protocol_samples_def snapshot_gauges by fastforce+
  then show "map_of (scrape (render_prometheus (snapshot m) a s))
      (labelled ''router_active_connections'' ''protocol'' (protocol_label p)) = Some (show_u64 (conn_gauge p m))"
    "map_of (scrape (render_prometheus (snapshot m) a s))
      (labelled ''router_active_subscriptions'' ''protocol'' (protocol_label p)) = Some (show_u64 (sub_gauge p m))"
    by (intro scraped_value; simp add: metric_samples_def)+
qed (intro scraped_value; simp add: metric_samples_def counter_samples_def)+

subsection \<open>The histograms count the observations\<close>

definition record_all :: "(LatencyStage \<times> nat) list \<Rightarrow> Metrics \<Rightarrow> Metrics" where
  "record_all obs m = fold (\<lambda>(stage, nanos). record_latency stage nanos) obs m"

definition of_stage :: "LatencyStage \<Rightarrow> (LatencyStage \<times> nat) list \<Rightarrow> nat list" where
  "of_stage stage obs = map snd (filter (\<lambda>p. fst p = stage) obs)"

lemma latency_index_inj [simp]: "latency_index a = latency_index b \<longleftrightarrow> a = b"
  by (cases a; cases b) (simp_all add: latency_index_def)

lemma length_record_all [simp]: "length (mt_latency (record_all obs m)) = length (mt_latency m)"
  by (induction obs rule: rev_induct) (auto simp: record_all_def record_latency_def)

lemma record_all_stage:
  "mt_latency (record_all obs metrics_default) ! latency_index stage = fold observe (of_stage stage obs) histogram_default"
proof (induction obs rule: rev_induct)
  case Nil
  show ?case by (cases stage) (simp_all add: record_all_def of_stage_def metrics_default_def)
next
  case (snoc p obs)
  have "length (mt_latency metrics_default) = 7" by (simp add: metrics_default_def)
  moreover obtain s n where "p = (s, n)" by (cases p)
  ultimately show ?case using snoc length_record_all [of obs metrics_default]
    by (auto simp: record_all_def of_stage_def record_latency_def nth_list_update)
qed

lemma sorted_bounds: "sorted latency_buckets_nanos"
  by (simp add: latency_buckets_nanos_def)

lemma length_bounds [simp]: "length latency_buckets_nanos = 14"
  by (simp add: latency_buckets_nanos_def)

text \<open>The bucket of a duration: the first bound that is not below it.\<close>

abbreviation bucket_of :: "nat \<Rightarrow> nat option" where
  "bucket_of n \<equiv> position (\<lambda>upper. n \<le> upper) latency_buckets_nanos"

lemma position_total: "k < length xs \<Longrightarrow> p (xs ! k) \<Longrightarrow> \<exists>j\<le>k. position p xs = Some j"
proof (induction xs arbitrary: k)
  case (Cons x xs)
  then show ?case by (cases k) fastforce+
qed simp

lemma bucket_le: "i < 14 \<Longrightarrow> n \<le> latency_buckets_nanos ! i \<longleftrightarrow> (\<exists>j\<le>i. bucket_of n = Some j)"
proof
  assume "i < 14" "n \<le> latency_buckets_nanos ! i"
  then show "\<exists>j\<le>i. bucket_of n = Some j" by (intro position_total) simp_all
next
  assume i: "i < 14" and "\<exists>j\<le>i. bucket_of n = Some j"
  then obtain j where "j \<le> i" "n \<le> latency_buckets_nanos ! j" by (auto simp: position_Some)
  with sorted_nth_mono [OF sorted_bounds, of j i] i show "n \<le> latency_buckets_nanos ! i" by simp
qed

lemma observe_simps:
  assumes "length (hg_buckets h) = 14"
  shows "i < 14 \<Longrightarrow> hg_buckets (observe n h) ! i = hg_buckets h ! i + (if bucket_of n = Some i then 1 else 0)"
    and "hg_count (observe n h) = hg_count h + 1"
    and "n div 1000 < 2 ^ 64 \<Longrightarrow> hg_sum_micros (observe n h) = hg_sum_micros h + of_nat (n div 1000)"
  using assms by (auto simp: observe_def Let_def nth_list_update split: option.splits)

lemma length_fold_observe: "length (hg_buckets (fold observe ns histogram_default)) = 14"
  by (induction ns rule: rev_induct) (simp_all add: histogram_default_def)

lemma histogram_default_values:
  "i < 14 \<Longrightarrow> hg_buckets histogram_default ! i = 0" "hg_count histogram_default = 0" "hg_sum_micros histogram_default = 0"
  by (simp_all add: histogram_default_def)

lemma fold_observe:
  "i < 14 \<Longrightarrow> hg_buckets (fold observe ns histogram_default) ! i = of_nat (length (filter (\<lambda>n. bucket_of n = Some i) ns))"
  "hg_count (fold observe ns histogram_default) = of_nat (length ns)"
  "\<forall>n\<in>set ns. n div 1000 < 2 ^ 64 \<Longrightarrow>
    hg_sum_micros (fold observe ns histogram_default) = of_nat (\<Sum>n\<leftarrow>ns. n div 1000)"
  by (induction ns rule: rev_induct) (simp_all add: histogram_default_values observe_simps length_fold_observe)

lemma bucket_counts:
  assumes "i < 14"
  shows "(\<Sum>j<Suc i. length (filter (\<lambda>n. bucket_of n = Some j) ns)) =
    length (filter (\<lambda>n. n \<le> latency_buckets_nanos ! i) ns)"
proof (induction ns)
  case (Cons n ns)
  have "(\<Sum>j<Suc i. if bucket_of n = Some j then 1 else 0) = (if n \<le> latency_buckets_nanos ! i then 1 else 0 :: nat)"
  proof (cases "bucket_of n")
    case None
    then show ?thesis using bucket_le [OF assms, of n] by simp
  next
    case (Some k)
    then have "(\<Sum>j<Suc i. if bucket_of n = Some j then 1 else 0) = (\<Sum>j<Suc i. if j = k then 1 else 0 :: nat)"
      by (intro sum.cong) auto
    also have "\<dots> = (if k < Suc i then 1 else 0)" by (simp add: sum.delta)
    finally show ?thesis using bucket_le [OF assms, of n] Some by auto
  qed
  moreover have "length (filter (\<lambda>n. bucket_of n = Some j) (n # ns)) =
      (if bucket_of n = Some j then 1 else 0) + length (filter (\<lambda>n. bucket_of n = Some j) ns)" for j by simp
  ultimately show ?case using Cons.IH by (simp only: sum.distrib) simp
qed simp

lemma cumulative_observed:
  assumes "i < 14" "length ns < 2 ^ 64"
  shows "cumulative (histogram_snapshot (fold observe ns histogram_default)) (Suc i) =
    length (filter (\<lambda>n. n \<le> latency_buckets_nanos ! i) ns)"
proof -
  let ?h = "histogram_snapshot (fold observe ns histogram_default)"
  have "unat (hn_buckets ?h ! j) = length (filter (\<lambda>n. bucket_of n = Some j) ns)" if "j < Suc i" for j
  proof -
    have "length (filter (\<lambda>n. bucket_of n = Some j) ns) < 2 ^ 64"
      using length_filter_le [of "\<lambda>n. bucket_of n = Some j" ns] assms(2) by linarith
    with that assms(1) show ?thesis
      by (simp add: histogram_snapshot_def fold_observe unat_of_nat del: upt_rec_numeral)
  qed
  then have "(\<Sum>j<Suc i. unat (hn_buckets ?h ! j)) = length (filter (\<lambda>n. n \<le> latency_buckets_nanos ! i) ns)"
    by (subst bucket_counts [OF assms(1), of ns, symmetric], intro sum.cong) simp_all
  moreover have "length (filter (\<lambda>n. n \<le> latency_buckets_nanos ! i) ns) \<le> length ns" by simp
  ultimately show ?thesis using assms(2) unfolding cumulative_def by linarith
qed

lemma snapshot_stage:
  "sn_latency (snapshot m) ! latency_index stage = histogram_snapshot (mt_latency m ! latency_index stage)"
  by (simp add: snapshot_def del: upt_rec_numeral)

lemma stage_sample:
  "(series, v) \<in> set (latency_samples stage (sn_latency m ! latency_index stage)) \<Longrightarrow>
    map_of (scrape (render_prometheus m a s)) series = Some v"
  by (rule scraped_value) (use in_enum [of stage] in \<open>auto simp: metric_samples_def enum_LatencyStage_def\<close>)

lemma length_of_stage: "length (of_stage stage obs) \<le> length obs"
  by (simp add: of_stage_def)

lemma unat_of_nat_small: "n < 2 ^ 64 \<Longrightarrow> unat (of_nat n :: u64) = n"
  by (simp add: unat_of_nat)

lemma sum_micros_small: "(\<Sum>n\<leftarrow>ns. n div 1000) < 2 ^ 64 \<Longrightarrow> \<forall>n\<in>set ns. n div 1000 < 2 ^ 64" for ns :: "nat list"
  using member_le_sum_list [of _ "map (\<lambda>n. n div 1000) ns"] by fastforce

text \<open>
  C37. The latency series tell the observations. After any sequence of fewer than 2^64 recorded durations, the
  text exposition has, for every stage, in the series of each bound the number of durations of the stage that
  are at most the bound, in the series \<open>+Inf\<close> and in the count the number of all of them, and, unless the sum of
  their microseconds reaches 2^64, that sum in seconds with six decimals.
\<close>

theorem latency_series_exact:
  assumes "length obs < 2 ^ 64" and "i < 14"
  shows "let series = map_of (scrape (render_prometheus (snapshot (record_all obs metrics_default)) a s));
             ns = of_stage stage obs; micros = (\<Sum>n\<leftarrow>ns. n div 1000)
         in series (bucket_series stage (latency_bucket_labels ! i)) =
              Some (show_nat (length (filter (\<lambda>n. n \<le> latency_buckets_nanos ! i) ns)))
          \<and> series (bucket_series stage ''+Inf'') = Some (show_nat (length ns))
          \<and> series (labelled ''router_operation_latency_seconds_count'' ''stage'' (latency_label stage)) =
              Some (show_nat (length ns))
          \<and> (micros < 2 ^ 64 \<longrightarrow>
              series (labelled ''router_operation_latency_seconds_sum'' ''stage'' (latency_label stage)) =
                Some (show_nat (micros div 1000000) @ ''.'' @ pad6 (micros mod 1000000)))"
proof -
  let ?ns = "of_stage stage obs" and ?m = "snapshot (record_all obs metrics_default)"
  let ?h = "histogram_snapshot (fold observe ?ns histogram_default)"
  have h: "sn_latency ?m ! latency_index stage = ?h" by (simp add: snapshot_stage record_all_stage)
  have n: "length ?ns < 2 ^ 64" using assms(1) length_of_stage [of stage obs] by linarith
  note sample = stage_sample [of _ _ stage ?m, unfolded h latency_samples_def]
  have count: "show_u64 (hn_count ?h) = show_nat (length ?ns)"
    by (simp only: show_u64_def histogram_snapshot_def HistogramSnapshot.simps fold_observe unat_of_nat_small [OF n])
  have sum: "unat (hn_sum_micros ?h) = (\<Sum>n\<leftarrow>?ns. n div 1000)" if "(\<Sum>n\<leftarrow>?ns. n div 1000) < 2 ^ 64"
    by (simp only: histogram_snapshot_def HistogramSnapshot.simps fold_observe(3) [OF sum_micros_small [OF that]]
        unat_of_nat_small [OF that])
  show ?thesis
    unfolding Let_def using assms(2) cumulative_observed [OF assms(2) n]
    by (intro conjI impI; intro sample; simp add: count sum rev_image_eqI [where x = i] del: upt_rec_numeral)
qed

theorem latency_series_exact_witness:
  "length [(Decode, 20000), (Decode, 60000), (Match, 5 :: nat)] < 2 ^ 64 \<and> (1 :: nat) < 14
    \<and> map_of (scrape (render_prometheus
        (snapshot (record_all [(Decode, 20000), (Decode, 60000), (Match, 5)] metrics_default)) 0 0))
        (bucket_series Decode ''0.00005'') = Some ''1''"
  using latency_series_exact [of "[(Decode, 20000), (Decode, 60000), (Match, 5)]" 1 0 0 Decode]
  by (simp add: Let_def of_stage_def latency_bucket_labels_def latency_buckets_nanos_def show_nat.simps digit_char_def
      char_of_eq_iff)

end
