(* ===== verification/Api_Http.thy ===== *)
theory Api_Http
  imports Api_Stream Metrics_Render
begin

text \<open>
  The HTTP endpoints other than publishing (\<open>router-api/src/http.rs\<close>): health and status, the WebSocket
  session and the stream of server-sent events. Parsing commands and filters is \<open>serde\<close>, printing JSON
  values \<open>serde_json\<close>; both are fields of \<open>HttpApiEnv\<close>, with the environment of authentication.
\<close>

subsection \<open>Health and status\<close>

definition health_response :: "bool \<Rightarrow> string \<Rightarrow> nat \<times> Json" where
  "health_response ok state = (if ok then 200 else 503, JObj [(''status'', JStr state)])"

definition health_live :: "('c, 'key, 'w) api_state \<Rightarrow> nat \<times> Json" where
  "health_live st = health_response (is_live (as_health st)) ''live''"

definition health_ready :: "('c, 'key, 'w) api_state \<Rightarrow> nat \<times> Json" where
  "health_ready st = health_response (is_ready (as_health st)) ''ready''"

text \<open>\<open>to_value\<close> is the derived serialisation of \<open>RouterStatus\<close>.\<close>

definition status_json :: "(RouterStatus \<Rightarrow> Json) \<Rightarrow> ('c, 'key, 'w) api_state \<Rightarrow> Json" where
  "status_json to_value st =
    (let r = as_router st; count = (\<lambda>protocol. JInt (int (connections_by_protocol protocol r)))
     in JObj [(''ready'', JBool (is_ready (as_health st))), (''router'', to_value (status r)),
        (''connections_by_protocol'', JObj [(''websocket'', count WebSocket), (''sse'', count Sse),
          (''grpc'', count Grpc), (''http_webhook'', count HttpWebhook)])])"

text \<open>The content type and the body of \<open>GET /metrics\<close>.\<close>

definition metrics_response :: "('c, 'key, 'w) api_state \<Rightarrow> (string \<times> string) list \<times> string" where
  "metrics_response st =
    (let status = status (as_router st);
         body = render_prometheus (st_metrics status) (st_active_connections status) (st_subscriptions status)
     in ([(''content-type'', ''text/plain; version=0.0.4'')], body))"

subsection \<open>WebSocket commands\<close>

datatype WsCommand =
    WsSubscribe string Json
  | WsUnsubscribe string
  | WsPing "string option"

text \<open>\<open>serde_json::error::Category\<close>.\<close>

datatype Category = Io | Syntax | Data | Eof

record ('jwk, 'key) HttpApiEnv =
  he_auth :: "('jwk, 'key) AuthEnv"
  he_json :: JsonEnv
  he_parse_command :: "string \<Rightarrow> Category + WsCommand"
  he_parse_filter :: "Json \<Rightarrow> FilterInput option"
  he_to_string :: "Json \<Rightarrow> string"

definition ws_error :: "('jwk, 'key) HttpApiEnv \<Rightarrow> string \<Rightarrow> string \<Rightarrow> string" where
  "ws_error env code text =
    he_to_string env (JObj [(''operation'', JStr ''error''), (''code'', JStr code), (''message'', JStr text)])"

definition ws_subscribe_error :: "('jwk, 'key) HttpApiEnv \<Rightarrow> CoreError \<Rightarrow> string" where
  "ws_subscribe_error env error =
    (case error of
       SubscriptionExists \<Rightarrow> ws_error env ''subscription_exists'' ''subscription_id already exists''
     | SubscriptionLimitReached \<Rightarrow> ws_error env ''subscription_limit_reached'' ''connection subscription limit reached''
     | GlobalSubscriptionLimitReached \<Rightarrow>
         ws_error env ''subscription_limit_reached'' ''connection subscription limit reached''
     | TenantMismatch \<Rightarrow> ws_error env ''tenant_mismatch'' ''filter tenant is not authorized''
     | ConnectionNotFound \<Rightarrow> ws_error env ''connection_closed'' ''connection is no longer registered''
     | InvalidIdentifier _ _ \<Rightarrow> ws_error env ''invalid_filter'' ''filter is invalid''
     | IncompleteRecipient \<Rightarrow> ws_error env ''invalid_filter'' ''filter is invalid''
     | MissingField _ \<Rightarrow> ws_error env ''invalid_filter'' ''filter is invalid''
     | SubscriptionNotFound \<Rightarrow> ws_error env ''subscribe_failed'' ''subscription could not be created''
     | ConnectionLimitReached \<Rightarrow> ws_error env ''subscribe_failed'' ''subscription could not be created''
     | InvalidQueueCapacity _ _ \<Rightarrow> ws_error env ''subscribe_failed'' ''subscription could not be created'')"

definition ws_subscribe ::
  "('jwk, 'key) HttpApiEnv \<Rightarrow> Principal \<Rightarrow> connection_id \<Rightarrow> string \<Rightarrow> Json \<Rightarrow> 'c Router \<Rightarrow> string \<times> 'c Router" where
  "ws_subscribe env p connection_id subscription_id flt r =
    (case subscription_id_new subscription_id of
       Inl _ \<Rightarrow> (ws_error env ''invalid_subscription_id'' ''subscription_id is invalid'', r)
     | Inr subscription_id \<Rightarrow>
       (case he_parse_filter env flt of
          None \<Rightarrow> (ws_error env ''invalid_filter'' ''filter is invalid'', r)
        | Some fi \<Rightarrow>
          (case into_filter fi p of
             Inl Forbidden \<Rightarrow> (ws_error env ''tenant_mismatch'' ''filter tenant is not authorized'', r)
           | Inl _ \<Rightarrow> (ws_error env ''invalid_filter'' ''filter is invalid'', r)
           | Inr flt \<Rightarrow>
             (case subscribe connection_id subscription_id flt r of
                (Inr _, r) \<Rightarrow> (he_to_string env (JObj [(''operation'', JStr ''subscribed''),
                   (''subscription_id'', JStr (as_str subscription_id))]), r)
              | (Inl error, r) \<Rightarrow> (ws_subscribe_error env error, r)))))"

definition ws_unsubscribe ::
  "('jwk, 'key) HttpApiEnv \<Rightarrow> connection_id \<Rightarrow> string \<Rightarrow> 'c Router \<Rightarrow> string \<times> 'c Router" where
  "ws_unsubscribe env connection_id subscription_id r =
    (case subscription_id_new subscription_id of
       Inl _ \<Rightarrow> (ws_error env ''invalid_subscription_id'' ''subscription_id is invalid'', r)
     | Inr subscription_id \<Rightarrow>
       (case unsubscribe connection_id subscription_id r of
          (Inr _, r) \<Rightarrow> (he_to_string env (JObj [(''operation'', JStr ''unsubscribed''),
             (''subscription_id'', JStr (as_str subscription_id))]), r)
        | (Inl SubscriptionNotFound, r) \<Rightarrow> (ws_error env ''subscription_not_found'' ''subscription does not exist'', r)
        | (Inl ConnectionNotFound, r) \<Rightarrow> (ws_error env ''connection_closed'' ''connection is no longer registered'', r)
        | (Inl _, r) \<Rightarrow> (ws_error env ''unsubscribe_failed'' ''subscription could not be removed'', r)))"

definition handle_ws_command ::
  "('jwk, 'key) HttpApiEnv \<Rightarrow> Principal \<Rightarrow> connection_id \<Rightarrow> string \<Rightarrow> 'c Router \<Rightarrow> string \<times> 'c Router" where
  "handle_ws_command env p connection_id text r =
    (case he_parse_command env text of
       Inl Syntax \<Rightarrow> (ws_error env ''invalid_json'' ''command is not valid JSON'', r)
     | Inl Eof \<Rightarrow> (ws_error env ''invalid_json'' ''command is not valid JSON'', r)
     | Inl _ \<Rightarrow> (ws_error env ''invalid_command'' ''command does not match the protocol'', r)
     | Inr (WsSubscribe subscription_id flt) \<Rightarrow> ws_subscribe env p connection_id subscription_id flt r
     | Inr (WsUnsubscribe subscription_id) \<Rightarrow> ws_unsubscribe env connection_id subscription_id r
     | Inr (WsPing opaque) \<Rightarrow> (he_to_string env (JObj [(''operation'', JStr ''pong''),
         (''opaque'', case opaque of None \<Rightarrow> JNull | Some s \<Rightarrow> JStr s)]), r))"

subsection \<open>The WebSocket session\<close>

record ConnectionQuery =
  cq_tenant_id :: "string option"
  cq_queue_capacity :: "nat option"

text \<open>The handshake: the principal and the capacity the session starts with.\<close>

definition websocket ::
  "('jwk, 'key) HttpApiEnv \<Rightarrow> headers \<Rightarrow> ConnectionQuery \<Rightarrow> ('c, 'key, 'w) api_state \<Rightarrow> ApiError + Principal \<times> nat" where
  "websocket env headers query st =
    and_then (authenticate_http (he_auth env) (as_authenticator st) headers (cq_tenant_id query)) (\<lambda>p.
    and_then (authorize_requested_tenant p (cq_tenant_id query)) (\<lambda>_.
    and_then (authorize_subscribe p) (\<lambda>_.
    and_then (stream_queue_capacity (as_config st) (cq_queue_capacity query)) (\<lambda>capacity.
    Inr (p, capacity)))))"

record WsSession = StreamSession +
  ws_limiter :: CommandRateLimiter

definition websocket_start ::
  "'c mpsc_ops \<Rightarrow> connection_id \<Rightarrow> nat \<Rightarrow> Principal \<Rightarrow> nat \<Rightarrow> ('c, 'key, 'w) api_state
   \<Rightarrow> (CoreError + WsSession) \<times> ('c, 'key, 'w) api_state" where
  "websocket_start ops fresh now p queue_capacity st =
    (case register_connection ops fresh (pl_tenant_id p) WebSocket (Some queue_capacity) (as_router st) of
       (Inl e, r) \<Rightarrow> (Inl e, st\<lparr>as_router := r\<rparr>)
     | (Inr connection_id, r) \<Rightarrow>
         (Inr \<lparr>ss_connection = connection_id, ss_principal = p, ss_open = True,
               ws_limiter = command_limiter_new (ac_ws_max_commands_per_second (as_config st)) now\<rparr>,
          st\<lparr>as_router := r\<rparr>))"

type_synonym close_frame = "nat \<times> string"

datatype WsMessage =
    TextMsg string
  | BinaryMsg string
  | PingMsg string
  | PongMsg string
  | CloseMsg "close_frame option"

text \<open>A transport error is, or is not, tungstenite's \<open>CapacityError::MessageTooLong\<close>.\<close>

datatype WsTransportError = MessageTooLong | OtherTransportError

definition ws_transport_close :: "WsTransportError \<Rightarrow> close_frame" where
  "ws_transport_close error =
    (case error of MessageTooLong \<Rightarrow> (1009, ''message_too_large'') | OtherTransportError \<Rightarrow> (1002, ''protocol_error''))"

text \<open>
  An iteration of the loop: what \<open>select!\<close> chose, whether the answer could be sent, the time the write
  took and the readings of the clock by the two limiters.
\<close>

datatype WsInput = WsDelivery "Delivery option" | WsIncoming "(WsTransportError + WsMessage) option"

record WsTick =
  wt_input :: WsInput
  wt_sent :: bool
  wt_elapsed :: nat
  wt_clock :: "nat \<times> nat \<times> nat"
  wt_command_clock :: "nat \<times> nat"

text \<open>\<open>rate_limiter.allow() && state.allow_rate(..)\<close>: the second limiter is only asked when the first allows.\<close>

definition ws_allow ::
  "WsTick \<Rightarrow> ('c, 'key, 'w) api_state \<Rightarrow> WsSession \<Rightarrow> bool \<times> ('c, 'key, 'w) api_state \<times> WsSession" where
  "ws_allow tick st s =
    (case command_allow (fst (wt_command_clock tick)) (snd (wt_command_clock tick)) (ws_limiter s) of
       (False, limiter) \<Rightarrow> (False, st, s\<lparr>ws_limiter := limiter\<rparr>)
     | (True, limiter) \<Rightarrow>
         (case allow_rate (wt_clock tick) (pl_tenant_id (ss_principal s)) Command st of
            (allowed, st) \<Rightarrow> (allowed, st, s\<lparr>ws_limiter := limiter\<rparr>)))"

definition websocket_step ::
  "('jwk, 'key) HttpApiEnv \<Rightarrow> WsTick \<Rightarrow> ('c, 'key, 'w) api_state \<Rightarrow> WsSession
   \<Rightarrow> WsMessage list \<times> ('c, 'key, 'w) api_state \<times> WsSession" where
  "websocket_step env tick st s =
    (if \<not> ss_open s then ([], st, s)
     else case wt_input tick of
       WsDelivery None \<Rightarrow> ([CloseMsg (Some (1013, ''slow_consumer''))], end_session st s)
     | WsDelivery (Some delivery) \<Rightarrow>
         ([TextMsg (delivery_text (he_json env) delivery)],
          end_unless (wt_sent tick) (with_api_metrics (record_latency ProtocolWrite (wt_elapsed tick)) st) s)
     | WsIncoming None \<Rightarrow> ([], end_session st s)
     | WsIncoming (Some (Inr (TextMsg text))) \<Rightarrow>
         (case ws_allow tick st s of
            (True, st, s) \<Rightarrow>
              (case handle_ws_command env (ss_principal s) (ss_connection s) text (as_router st) of
                 (response, r) \<Rightarrow> ([TextMsg response], end_unless (wt_sent tick) (st\<lparr>as_router := r\<rparr>) s))
          | (False, st, s) \<Rightarrow>
              ([TextMsg (ws_error env ''rate_limited'' ''command rate limit exceeded'')], end_unless (wt_sent tick) st s))
     | WsIncoming (Some (Inr (BinaryMsg _))) \<Rightarrow>
         (case ws_allow tick st s of
            (True, st, s) \<Rightarrow>
              ([TextMsg (ws_error env ''binary_not_supported'' ''binary commands are not supported'')],
               end_unless (wt_sent tick) st s)
          | (False, st, s) \<Rightarrow>
              ([TextMsg (ws_error env ''rate_limited'' ''command rate limit exceeded'')], end_unless (wt_sent tick) st s))
     | WsIncoming (Some (Inr (PingMsg payload))) \<Rightarrow> ([PongMsg payload], end_unless (wt_sent tick) st s)
     | WsIncoming (Some (Inr (CloseMsg frame))) \<Rightarrow> ([CloseMsg frame], end_session st s)
     | WsIncoming (Some (Inl error)) \<Rightarrow> ([CloseMsg (Some (ws_transport_close error))], end_session st s)
     | WsIncoming (Some (Inr (PongMsg _))) \<Rightarrow> ([], st, s))"

subsection \<open>Server-sent events\<close>

record SseQuery =
  sq_tenant_id :: "string option"
  sq_kind :: "string option"
  sq_message_type :: "string option"
  sq_channel :: "string option"
  sq_actor_id :: "string option"
  sq_recipient_type :: "string option"
  sq_recipient_identity :: "string option"
  sq_subscription_id :: "string option"
  sq_queue_capacity :: "nat option"

definition sse_into_filter :: "SseQuery \<Rightarrow> Principal \<Rightarrow> ApiError + RouteFilter \<times> string \<times> nat option" where
  "sse_into_filter q p =
    and_then (into_filter \<lparr>fi_tenant_id = sq_tenant_id q, fi_kind = sq_kind q, fi_message_type = sq_message_type q,
       fi_channel = sq_channel q, fi_actor_id = sq_actor_id q, fi_recipient_type = sq_recipient_type q,
       fi_recipient_identity = sq_recipient_identity q\<rparr> p) (\<lambda>flt.
    Inr (flt, case sq_subscription_id q of Some s \<Rightarrow> s | None \<Rightarrow> ''sse-default'', sq_queue_capacity q))"

definition parse_last_event_id :: "('jwk, 'key) AuthEnv \<Rightarrow> headers \<Rightarrow> ApiError + unit" where
  "parse_last_event_id env headers =
    (case headers ''last-event-id'' of
       None \<Rightarrow> Inr ()
     | Some bytes \<Rightarrow> (case ae_to_str env bytes of
         None \<Rightarrow> Inl (BadRequest ''Last-Event-ID must be a valid HTTP header value'') | Some _ \<Rightarrow> Inr ()))"

text \<open>Everything that is checked before the router is involved.\<close>

definition sse_admit ::
  "('jwk, 'key) HttpApiEnv \<Rightarrow> headers \<Rightarrow> SseQuery \<Rightarrow> ('c, 'key, 'w) api_state
   \<Rightarrow> ApiError + Principal \<times> RouteFilter \<times> SubscriptionId \<times> nat" where
  "sse_admit env headers query st =
    and_then (authenticate_http (he_auth env) (as_authenticator st) headers (sq_tenant_id query)) (\<lambda>p.
    and_then (authorize_subscribe p) (\<lambda>_.
    and_then (parse_last_event_id (he_auth env) headers) (\<lambda>_.
    and_then (sse_into_filter query p) (\<lambda>(flt, subscription_id, requested_queue_capacity).
    and_then (map_err (\<lambda>e. BadRequest (core_error_display e)) (subscription_id_new subscription_id)) (\<lambda>subscription_id.
    and_then (stream_queue_capacity (as_config st) requested_queue_capacity) (\<lambda>queue_capacity.
    Inr (p, flt, subscription_id, queue_capacity)))))))"

definition sse ::
  "('jwk, 'key) HttpApiEnv \<Rightarrow> 'c mpsc_ops \<Rightarrow> connection_id \<Rightarrow> headers \<Rightarrow> SseQuery \<Rightarrow> ('c, 'key, 'w) api_state
   \<Rightarrow> (ApiError + StreamSession) \<times> ('c, 'key, 'w) api_state" where
  "sse env ops fresh headers query st =
    (case sse_admit env headers query st of
       Inl e \<Rightarrow> (Inl e, st)
     | Inr (p, flt, subscription_id, queue_capacity) \<Rightarrow>
       (case register_and_subscribe ops fresh (pl_tenant_id p) Sse queue_capacity subscription_id flt (as_router st) of
          (Inl e, r) \<Rightarrow> (Inl (BadRequest (core_error_display e)), st\<lparr>as_router := r\<rparr>)
        | (Inr connection_id, r) \<Rightarrow>
            (Inr \<lparr>ss_connection = connection_id, ss_principal = p, ss_open = True\<rparr>, st\<lparr>as_router := r\<rparr>)))"

record SseEvent =
  ev_id :: string
  ev_event :: string
  ev_data :: string

definition sse_event :: "('jwk, 'key) HttpApiEnv \<Rightarrow> Delivery \<Rightarrow> SseEvent" where
  "sse_event env delivery =
    (let md = rm_metadata (dv_message delivery)
     in \<lparr>ev_id = md_message_id md,
         ev_event = (case (md_kind md, md_message_type md) of
             (Some kind, Some message_type) \<Rightarrow> kind @ ''.'' @ message_type
           | (Some kind, None) \<Rightarrow> kind
           | _ \<Rightarrow> ''message''),
         ev_data = delivery_text (he_json env) delivery\<rparr>)"

definition sse_step ::
  "('jwk, 'key) HttpApiEnv \<Rightarrow> nat \<Rightarrow> StreamInput \<Rightarrow> ('c, 'key, 'w) api_state \<Rightarrow> StreamSession
   \<Rightarrow> SseEvent list \<times> ('c, 'key, 'w) api_state \<times> StreamSession" where
  "sse_step env elapsed input st s = pump_step (sse_event env) elapsed input st s"

text \<open>The keep-alive interval in seconds and the headers of the response.\<close>

definition sse_response :: "ApiConfig \<Rightarrow> u64 \<times> (string \<times> string) list" where
  "sse_response config =
    (max (ac_sse_keep_alive_secs config) 1,
     [(''cache-control'', ''no-cache, no-transform''), (''x-accel-buffering'', ''no''), (''x-sse-replay'', ''unsupported'')])"

subsection \<open>The sessions keep their contract\<close>

lemma handle_ws_command_touches:
  "handle_ws_command env p c text r = (response, r') \<Longrightarrow> touches_only c r r'"
  unfolding handle_ws_command_def ws_subscribe_def ws_unsubscribe_def
  by (auto split: sum.splits Category.splits WsCommand.splits option.splits prod.splits CoreError.splits ApiError.splits
    dest: subscribe_touches unsubscribe_touches)

lemma ws_allow_frame:
  "ws_allow tick st s = (ok, st', s') \<Longrightarrow> ss_connection s' = ss_connection s \<and> ss_principal s' = ss_principal s
    \<and> ss_open s' = ss_open s \<and> touches_only c (as_router st) (as_router st')"
  by (auto simp: ws_allow_def split: prod.splits bool.splits dest: allow_rate_touches)

lemma websocket_step_ok:
  assumes "websocket_step env tick st s = (out, st', s')"
  shows "session_step_ok st s st' s'"
proof (cases "ss_open s")
  case False
  with assms show ?thesis by (simp add: websocket_step_def session_step_ok_refl)
next
  case True
  have ended: "session_step_ok st s st' s'" if "end_session st s = (st', s')" using that True by (auto intro: end_session_ok)
  have sent: "session_step_ok st s st' s'"
    if "end_unless (wt_sent tick) st1 s1 = (st', s')" "ss_connection s1 = ss_connection s" "ss_principal s1 = ss_principal s"
      "ss_open s1 = ss_open s" "touches_only (ss_connection s) (as_router st) (as_router st1)" for st1 s1
    using that True by (auto intro: end_unless_ok)
  show ?thesis
  proof (cases "wt_input tick")
    case (WsDelivery d)
    with assms True show ?thesis
      by (auto simp: websocket_step_def with_latency_touches split: option.splits intro: ended sent)
  next
    case (WsIncoming m)
    show ?thesis
    proof (cases "\<exists>text. m = Some (Inr (TextMsg text))")
      case True
      with WsIncoming assms \<open>ss_open s\<close> obtain cmd ok st1 s1 where
        a: "ws_allow tick st s = (ok, st1, s1)" and m: "m = Some (Inr (TextMsg cmd))" by (metis prod_cases3)
      note f = ws_allow_frame [OF a]
      obtain response r where h: "handle_ws_command env (ss_principal s1) (ss_connection s1) cmd (as_router st1) = (response, r)"
        by fastforce
      have "touches_only (ss_connection s) (as_router st) r"
        using f handle_ws_command_touches [OF h] by (metis touches_only_trans)
      with WsIncoming assms \<open>ss_open s\<close> a m h f show ?thesis
        by (cases ok) (auto simp: websocket_step_def intro: sent)
    next
      case False
      with WsIncoming assms \<open>ss_open s\<close> show ?thesis
        by (auto simp: websocket_step_def session_step_ok_refl split: option.splits sum.splits WsMessage.splits prod.splits bool.splits
          intro: ended sent dest: ws_allow_frame)
    qed
  qed
qed

interpretation ws: client_session "websocket_step env" for env
  by unfold_locales (rule websocket_step_ok)

lemma websocket_Inr:
  "websocket env headers query st = Inr (p, capacity) \<Longrightarrow>
    authenticate_http (he_auth env) (as_authenticator st) headers (cq_tenant_id query) = Inr p \<and> pl_can_subscribe p"
  by (auto simp: websocket_def authorize_subscribe_def result_simps split: if_splits)

lemma websocket_start_opened:
  assumes fresh: "map_of (rt_connections (as_router st)) fresh = None"
    and run: "websocket_start ops fresh now p capacity st = (res, st')" and "pl_can_subscribe p"
  shows "stream_opened fresh WebSocket (Inr p) res (as_router st) (as_router st')"
proof -
  obtain res1 r1 where
    reg: "register_connection ops fresh (pl_tenant_id p) WebSocket (Some capacity) (as_router st) = (res1, r1)" by fastforce
  note o = register_opened [OF fresh reg]
  show ?thesis
  proof (cases res1)
    case (Inl e)
    with o run reg fresh show ?thesis by (auto simp: websocket_start_def intro: stream_opened_Inl)
  next
    case (Inr c)
    with o run reg assms(3) show ?thesis by (auto simp: websocket_start_def intro: stream_opened_Inr)
  qed
qed

lemma into_filter_tenant: "into_filter fi p = Inr flt \<Longrightarrow> rf_tenant_id flt = pl_tenant_id p"
  by (auto simp: into_filter_def result_simps)

lemma sse_admit_Inr:
  "sse_admit env headers query st = Inr (p, flt, sid, cap) \<Longrightarrow>
    authenticate_http (he_auth env) (as_authenticator st) headers (sq_tenant_id query) = Inr p \<and> pl_can_subscribe p
    \<and> rf_tenant_id flt = pl_tenant_id p"
  by (auto simp: sse_admit_def sse_into_filter_def authorize_subscribe_def result_simps into_filter_tenant split: if_splits)

lemma sse_opened:
  assumes fresh: "map_of (rt_connections (as_router st)) fresh = None" and run: "sse env ops fresh headers query st = (res, st')"
  shows "stream_opened fresh Sse (authenticate_http (he_auth env) (as_authenticator st) headers (sq_tenant_id query))
    res (as_router st) (as_router st')"
proof (cases "sse_admit env headers query st")
  case (Inl e)
  with run show ?thesis by (auto simp: sse_def)
next
  case (Inr a)
  then obtain p flt sid cap where adm: "sse_admit env headers query st = Inr (p, flt, sid, cap)" by (metis prod_cases4)
  obtain res1 r1 where
    reg: "register_and_subscribe ops fresh (pl_tenant_id p) Sse cap sid flt (as_router st) = (res1, r1)" by fastforce
  note o = register_and_subscribe_opened [OF fresh reg] and p = sse_admit_Inr [OF adm]
  show ?thesis
  proof (cases res1)
    case (Inl e)
    with o run reg adm fresh show ?thesis by (auto simp: sse_def intro: stream_opened_Inl)
  next
    case (Inr c)
    with o run reg adm p show ?thesis by (auto simp: sse_def intro: stream_opened_Inr)
  qed
qed

end
