(* ===== verification/Api_Grpc.thy ===== *)
theory Api_Grpc
  imports Api_Stream
begin

text \<open>
  The gRPC calls other than \<open>Publish\<close> (\<open>router-api/src/grpc.rs\<close>): \<open>Subscribe\<close>, the bidirectional \<open>Connect\<close>,
  \<open>GetStatus\<close>, and the task that mirrors readiness in the standard health service. The messages are
  those of \<open>router-proto/proto/router/v1/router.proto\<close>; the wire encoding is generated code.
\<close>

subsection \<open>Messages\<close>

record ProtoRouteFilter =
  pf_tenant_id :: string
  pf_kind :: "string option"
  pf_message_type :: "string option"
  pf_channel :: "string option"
  pf_actor_id :: "string option"
  pf_recipient_type :: "string option"
  pf_recipient_identity :: "string option"

record SubscribeRequest =
  sr_subscription_id :: string
  sr_filter :: "ProtoRouteFilter option"
  sr_queue_capacity :: "32 word option"

record SubscribeCommand =
  sc_subscription_id :: string
  sc_filter :: "ProtoRouteFilter option"

datatype ClientCommand =
    SubscribeCmd SubscribeCommand
  | UnsubscribeCmd string
  | PingCmd string

record Ack =
  ak_operation :: string
  ak_subscription_id :: string

record ProtoRoutedMessage =
  pm_metadata :: RoutingMetadata
  pm_payload :: string

record MessageEvent =
  me_subscription_ids :: "string list"
  me_message :: ProtoRoutedMessage

datatype ServerEvent =
    MessageEv MessageEvent
  | AckEv Ack
  | PongEv string

definition proto_filter :: "ProtoRouteFilter \<Rightarrow> Principal \<Rightarrow> ApiError + RouteFilter" where
  "proto_filter f p =
    and_then (authorize_tenant p (Some (pf_tenant_id f))) (\<lambda>_.
    Inr \<lparr>rf_tenant_id = pl_tenant_id p, rf_kind = pf_kind f, rf_message_type = pf_message_type f,
         rf_channel = pf_channel f, rf_actor_id = pf_actor_id f, rf_recipient_type = pf_recipient_type f,
         rf_recipient_identity = pf_recipient_identity f\<rparr>)"

definition proto_position :: "KafkaPosition \<Rightarrow> KafkaPosition" where
  "proto_position source =
    \<lparr>kp_topic = kp_topic source, kp_partition = kp_partition source, kp_offset = kp_offset source\<rparr>"

definition proto_delivery :: "Delivery \<Rightarrow> ServerEvent" where
  "proto_delivery delivery =
    (let metadata = rm_metadata (dv_message delivery); source = map_option proto_position (md_source metadata)
     in MessageEv
       \<lparr>me_subscription_ids = map as_str (dv_subscription_ids delivery),
        me_message =
          \<lparr>pm_metadata =
             \<lparr>md_message_id = md_message_id metadata, md_tenant_id = md_tenant_id metadata, md_kind = md_kind metadata,
              md_message_type = md_message_type metadata, md_channel = md_channel metadata,
              md_actor_id = md_actor_id metadata, md_recipient_type = md_recipient_type metadata,
              md_recipient_identity = md_recipient_identity metadata, md_content_type = md_content_type metadata,
              md_timestamp_ms = md_timestamp_ms metadata, md_source = source\<rparr>,
           pm_payload = rm_payload (dv_message delivery)\<rparr>\<rparr>)"

subsection \<open>Subscribe\<close>

definition authenticate ::
  "('jwk, 'key) AuthEnv \<Rightarrow> headers \<Rightarrow> string option \<Rightarrow> ('c, 'key, 'w) api_state \<Rightarrow> GrpcStatus + Principal" where
  "authenticate env metadata requested_tenant st =
    map_err into_status (authenticate_grpc env (as_authenticator st) metadata requested_tenant)"

definition grpc_queue_capacity :: "ApiConfig \<Rightarrow> nat option \<Rightarrow> GrpcStatus + nat" where
  "grpc_queue_capacity config requested =
    map_err (\<lambda>maximum. invalid_argument (''queue_capacity must be between 1 and '' @ show_nat maximum))
      (resolve_stream_queue_capacity config requested)"

definition requested_tenant :: "SubscribeRequest \<Rightarrow> string option" where
  "requested_tenant request =
    (case map_option pf_tenant_id (sr_filter request) of Some t \<Rightarrow> if t \<noteq> [] then Some t else None | None \<Rightarrow> None)"

text \<open>Everything that is checked before the router is involved.\<close>

definition subscribe_admit ::
  "('jwk, 'key) AuthEnv \<Rightarrow> headers \<Rightarrow> SubscribeRequest \<Rightarrow> ('c, 'key, 'w) api_state
   \<Rightarrow> GrpcStatus + Principal \<times> RouteFilter \<times> SubscriptionId \<times> nat" where
  "subscribe_admit env metadata request st =
    and_then (authenticate env metadata (requested_tenant request) st) (\<lambda>p.
    and_then (map_err into_status (authorize_subscribe p)) (\<lambda>_.
    and_then (ok_or (invalid_argument ''filter is required'') (sr_filter request)) (\<lambda>f.
    and_then (map_err into_status (proto_filter f p)) (\<lambda>flt.
    and_then (map_err (\<lambda>e. invalid_argument (core_error_display e)) (subscription_id_new (sr_subscription_id request))) (\<lambda>sid.
    and_then (grpc_queue_capacity (as_config st) (map_option unat (sr_queue_capacity request))) (\<lambda>capacity.
    Inr (p, flt, sid, capacity)))))))"

definition grpc_subscribe_call ::
  "('jwk, 'key) AuthEnv \<Rightarrow> 'c mpsc_ops \<Rightarrow> connection_id \<Rightarrow> headers \<Rightarrow> SubscribeRequest \<Rightarrow> ('c, 'key, 'w) api_state
   \<Rightarrow> (GrpcStatus + StreamSession) \<times> ('c, 'key, 'w) api_state" where
  "grpc_subscribe_call env ops fresh metadata request st =
    (case subscribe_admit env metadata request st of
       Inl e \<Rightarrow> (Inl e, st)
     | Inr (p, flt, sid, capacity) \<Rightarrow>
       (case register_and_subscribe ops fresh (pl_tenant_id p) Grpc capacity sid flt (as_router st) of
          (Inl e, r) \<Rightarrow> (Inl (invalid_argument (core_error_display e)), st\<lparr>as_router := r\<rparr>)
        | (Inr connection_id, r) \<Rightarrow>
            (Inr \<lparr>ss_connection = connection_id, ss_principal = p, ss_open = True\<rparr>, st\<lparr>as_router := r\<rparr>)))"

definition grpc_subscribe_step ::
  "nat \<Rightarrow> StreamInput \<Rightarrow> ('c, 'key, 'w) api_state \<Rightarrow> StreamSession
   \<Rightarrow> ServerEvent list \<times> ('c, 'key, 'w) api_state \<times> StreamSession" where
  "grpc_subscribe_step elapsed input st s = pump_step proto_delivery elapsed input st s"

subsection \<open>Connect\<close>

definition grpc_connect_call ::
  "('jwk, 'key) AuthEnv \<Rightarrow> 'c mpsc_ops \<Rightarrow> connection_id \<Rightarrow> headers \<Rightarrow> ('c, 'key, 'w) api_state
   \<Rightarrow> (GrpcStatus + StreamSession) \<times> ('c, 'key, 'w) api_state" where
  "grpc_connect_call env ops fresh metadata st =
    (case and_then (authenticate env metadata None st) (\<lambda>p.
          and_then (map_err into_status (authorize_subscribe p)) (\<lambda>_. Inr p)) of
       Inl e \<Rightarrow> (Inl e, st)
     | Inr p \<Rightarrow>
       (case register_connection ops fresh (pl_tenant_id p) Grpc (Some (ac_stream_queue_capacity (as_config st))) (as_router st) of
          (Inl e, r) \<Rightarrow> (Inl (invalid_argument (core_error_display e)), st\<lparr>as_router := r\<rparr>)
        | (Inr connection_id, r) \<Rightarrow>
            (Inr \<lparr>ss_connection = connection_id, ss_principal = p, ss_open = True\<rparr>, st\<lparr>as_router := r\<rparr>)))"

definition grpc_subscribe ::
  "connection_id \<Rightarrow> Principal \<Rightarrow> SubscribeCommand \<Rightarrow> 'c Router \<Rightarrow> (GrpcStatus + Ack) \<times> 'c Router" where
  "grpc_subscribe connection_id p command r =
    (case and_then (map_err (\<lambda>e. invalid_argument (core_error_display e)) (subscription_id_new (sc_subscription_id command))) (\<lambda>sid.
          and_then (ok_or (invalid_argument ''filter is required'') (sc_filter command)) (\<lambda>f.
          and_then (map_err into_status (proto_filter f p)) (\<lambda>flt. Inr (sid, flt)))) of
       Inl e \<Rightarrow> (Inl e, r)
     | Inr (sid, flt) \<Rightarrow>
       (case subscribe connection_id sid flt r of
          (Inl e, r) \<Rightarrow> (Inl (invalid_argument (core_error_display e)), r)
        | (Inr _, r) \<Rightarrow> (Inr \<lparr>ak_operation = ''subscribed'', ak_subscription_id = as_str sid\<rparr>, r)))"

definition grpc_unsubscribe :: "connection_id \<Rightarrow> string \<Rightarrow> 'c Router \<Rightarrow> (GrpcStatus + Ack) \<times> 'c Router" where
  "grpc_unsubscribe connection_id subscription_id r =
    (case map_err (\<lambda>e. invalid_argument (core_error_display e)) (subscription_id_new subscription_id) of
       Inl e \<Rightarrow> (Inl e, r)
     | Inr sid \<Rightarrow>
       (case unsubscribe connection_id sid r of
          (Inl e, r) \<Rightarrow> (Inl (invalid_argument (core_error_display e)), r)
        | (Inr _, r) \<Rightarrow> (Inr \<lparr>ak_operation = ''unsubscribed'', ak_subscription_id = as_str sid\<rparr>, r)))"

text \<open>
  What \<open>select!\<close> chose: a delivery or the end of the queue; a command (possibly empty), the end of the
  requests or their failure; or the client dropping the response stream.
\<close>

datatype ConnectInput =
    ConnectDelivery "Delivery option"
  | ConnectCommand "GrpcStatus + ClientCommand option option"
  | ConnectDropped

record ConnectTick =
  ct_input :: ConnectInput
  ct_elapsed :: nat
  ct_clock :: "nat \<times> nat \<times> nat"

text \<open>One command: the event to yield, or the status that ends the stream.\<close>

definition connect_command ::
  "ClientCommand option \<Rightarrow> connection_id \<Rightarrow> Principal \<Rightarrow> 'c Router \<Rightarrow> (GrpcStatus + ServerEvent) \<times> 'c Router" where
  "connect_command command connection_id p r =
    (case command of
       Some (SubscribeCmd c) \<Rightarrow> (case grpc_subscribe connection_id p c r of
           (Inr ack, r) \<Rightarrow> (Inr (AckEv ack), r) | (Inl e, r) \<Rightarrow> (Inl e, r))
     | Some (UnsubscribeCmd subscription_id) \<Rightarrow> (case grpc_unsubscribe connection_id subscription_id r of
           (Inr ack, r) \<Rightarrow> (Inr (AckEv ack), r) | (Inl e, r) \<Rightarrow> (Inl e, r))
     | Some (PingCmd opaque) \<Rightarrow> (Inr (PongEv opaque), r)
     | None \<Rightarrow> (Inl (invalid_argument ''command is required''), r))"

definition grpc_connect_step ::
  "ConnectTick \<Rightarrow> ('c, 'key, 'w) api_state \<Rightarrow> StreamSession
   \<Rightarrow> (GrpcStatus + ServerEvent) list \<times> ('c, 'key, 'w) api_state \<times> StreamSession" where
  "grpc_connect_step tick st s =
    (if \<not> ss_open s then ([], st, s)
     else case ct_input tick of
       ConnectDelivery (Some delivery) \<Rightarrow>
         ([Inr (proto_delivery delivery)], with_api_metrics (record_latency ProtocolWrite (ct_elapsed tick)) st, s)
     | ConnectDelivery None \<Rightarrow> ([], end_session st s)
     | ConnectCommand (Inl error) \<Rightarrow> ([Inl error], end_session st s)
     | ConnectCommand (Inr None) \<Rightarrow> ([], end_session st s)
     | ConnectCommand (Inr (Some command)) \<Rightarrow>
         (case allow_rate (ct_clock tick) (pl_tenant_id (ss_principal s)) Command st of
            (False, st) \<Rightarrow> ([Inl (into_status RateLimited)], end_session st s)
          | (True, st) \<Rightarrow>
              (case connect_command command (ss_connection s) (ss_principal s) (as_router st) of
                 (Inl e, r) \<Rightarrow> ([Inl e], end_session (st\<lparr>as_router := r\<rparr>) s)
               | (Inr event, r) \<Rightarrow> ([Inr event], st\<lparr>as_router := r\<rparr>, s)))
     | ConnectDropped \<Rightarrow> ([], end_session st s))"

subsection \<open>Status\<close>

record StatusResponse =
  sp_ready :: bool
  sp_active_connections :: u64
  sp_subscriptions :: u64
  sp_kafka_messages :: u64
  sp_valid_messages :: u64
  sp_invalid_messages :: u64
  sp_delivered_connections :: u64
  sp_dropped_connections :: u64

text \<open>The sum of two counters panics on overflow in a debug build and wraps in a release build, as here.\<close>

definition get_status ::
  "('jwk, 'key) AuthEnv \<Rightarrow> headers \<Rightarrow> ('c, 'key, 'w) api_state \<Rightarrow> GrpcStatus + StatusResponse" where
  "get_status env metadata st =
    and_then (authenticate env metadata None st) (\<lambda>_.
    let s = status (as_router st); m = st_metrics s
    in Inr \<lparr>sp_ready = is_ready (as_health st), sp_active_connections = of_nat (st_active_connections s),
        sp_subscriptions = of_nat (st_subscriptions s), sp_kafka_messages = sn_kafka_messages m,
        sp_valid_messages = sn_valid_messages m, sp_invalid_messages = sn_invalid_messages m,
        sp_delivered_connections = sn_delivered_connections m,
        sp_dropped_connections = sn_full_connections m + sn_closed_connections m\<rparr>)"

subsection \<open>The sessions keep their contract\<close>

lemma connect_command_touches:
  "connect_command command c p r = (res, r') \<Longrightarrow> touches_only c r r'"
  unfolding connect_command_def grpc_subscribe_def grpc_unsubscribe_def
  by (auto split: sum.splits option.splits prod.splits ClientCommand.splits dest: subscribe_touches unsubscribe_touches)

lemma grpc_connect_step_ok:
  assumes "grpc_connect_step tick st s = (out, st', s')"
  shows "session_step_ok st s st' s'"
proof (cases "ss_open s")
  case False
  with assms show ?thesis by (simp add: grpc_connect_step_def session_step_ok_refl)
next
  case True
  have ended: "session_step_ok st s st' s'"
    if "end_session st1 s = (st', s')" "touches_only (ss_connection s) (as_router st) (as_router st1)" for st1
    using that True by (auto intro: end_session_ok)
  show ?thesis
  proof (cases "\<exists>command. ct_input tick = ConnectCommand (Inr (Some command))")
    case False
    with assms True show ?thesis
      by (auto simp: grpc_connect_step_def with_latency_touches split: ConnectInput.splits option.splits sum.splits
        intro: ended session_step_okI)
  next
    case c: True
    then obtain command ok st1 where c: "ct_input tick = ConnectCommand (Inr (Some command))"
      and a: "allow_rate (ct_clock tick) (pl_tenant_id (ss_principal s)) Command st = (ok, st1)" by (metis surj_pair)
    obtain res r where h: "connect_command command (ss_connection s) (ss_principal s) (as_router st1) = (res, r)" by fastforce
    note t = allow_rate_touches [OF a, of "ss_connection s"]
    note t' = touches_only_trans [OF t connect_command_touches [OF h]]
    show ?thesis
      using assms True c a h t t' by (cases ok; cases res) (auto simp: grpc_connect_step_def intro: ended session_step_okI)
  qed
qed

interpretation gc: client_session grpc_connect_step
  by unfold_locales (rule grpc_connect_step_ok)

lemma authenticate_Inr:
  "authenticate env metadata requested st = Inr p \<longleftrightarrow> authenticate_grpc env (as_authenticator st) metadata requested = Inr p"
  by (simp add: authenticate_def result_simps)

lemma proto_filter_tenant: "proto_filter f p = Inr flt \<Longrightarrow> rf_tenant_id flt = pl_tenant_id p"
  by (auto simp: proto_filter_def result_simps)

lemma subscribe_admit_Inr:
  "subscribe_admit env metadata request st = Inr (p, flt, sid, cap) \<Longrightarrow>
    authenticate_grpc env (as_authenticator st) metadata (requested_tenant request) = Inr p \<and> pl_can_subscribe p
    \<and> rf_tenant_id flt = pl_tenant_id p"
  by (auto simp: subscribe_admit_def authenticate_Inr authorize_subscribe_def result_simps proto_filter_tenant split: if_splits)

lemma grpc_subscribe_opened:
  assumes fresh: "map_of (rt_connections (as_router st)) fresh = None"
    and run: "grpc_subscribe_call env ops fresh metadata request st = (res, st')"
  shows "stream_opened fresh Grpc (authenticate_grpc env (as_authenticator st) metadata (requested_tenant request))
    res (as_router st) (as_router st')"
proof (cases "subscribe_admit env metadata request st")
  case (Inl e)
  with run show ?thesis by (auto simp: grpc_subscribe_call_def)
next
  case (Inr a)
  then obtain p flt sid cap where adm: "subscribe_admit env metadata request st = Inr (p, flt, sid, cap)" by (metis prod_cases4)
  obtain res1 r1 where
    reg: "register_and_subscribe ops fresh (pl_tenant_id p) Grpc cap sid flt (as_router st) = (res1, r1)" by fastforce
  note o = register_and_subscribe_opened [OF fresh reg] and p = subscribe_admit_Inr [OF adm]
  show ?thesis
  proof (cases res1)
    case (Inl e)
    with o run reg adm fresh show ?thesis by (auto simp: grpc_subscribe_call_def intro: stream_opened_Inl)
  next
    case (Inr c)
    with o run reg adm p show ?thesis by (auto simp: grpc_subscribe_call_def intro: stream_opened_Inr)
  qed
qed

lemma grpc_connect_opened:
  assumes fresh: "map_of (rt_connections (as_router st)) fresh = None"
    and run: "grpc_connect_call env ops fresh metadata st = (res, st')"
  shows "stream_opened fresh Grpc (authenticate_grpc env (as_authenticator st) metadata None)
    res (as_router st) (as_router st')"
proof (cases "and_then (authenticate env metadata None st) (\<lambda>p. and_then (map_err into_status (authorize_subscribe p)) (\<lambda>_. Inr p))")
  case (Inl e)
  with run show ?thesis by (auto simp: grpc_connect_call_def)
next
  case adm: (Inr p)
  then have p: "authenticate_grpc env (as_authenticator st) metadata None = Inr p" "pl_can_subscribe p"
    by (auto simp: authenticate_Inr authorize_subscribe_def result_simps split: if_splits)
  obtain res1 r1 where reg: "register_connection ops fresh (pl_tenant_id p) Grpc
      (Some (ac_stream_queue_capacity (as_config st))) (as_router st) = (res1, r1)" by fastforce
  note o = register_opened [OF fresh reg]
  show ?thesis
  proof (cases res1)
    case (Inl e)
    with o run reg adm fresh show ?thesis by (auto simp: grpc_connect_call_def intro: stream_opened_Inl)
  next
    case (Inr c)
    with o run reg adm p show ?thesis by (auto simp: grpc_connect_call_def intro: stream_opened_Inr)
  qed
qed

end
