(* ===== verification/Edge_System.thy ===== *)
theory Edge_System
  imports Api_Http Api_Grpc
begin

text \<open>
  The router with its clients: dispatch of Kafka messages, webhook registration, publish requests, reloads
  of the key set and any number of WebSocket, SSE and gRPC sessions, in any interleaving. The steps are the
  operations of the other theories; a session consumes the queue of its own connection, or what was left in
  it when the router removed the connection. The invariant ties every connection to its session; the properties
  it gives are in \<open>Edge_Props\<close>.
\<close>

subsection \<open>Sessions of all protocols\<close>

datatype EdgeSession =
    WsS WsSession
  | SseS StreamSession
  | SubscribeS StreamSession
  | ConnectS StreamSession

fun es_connection :: "EdgeSession \<Rightarrow> connection_id" where
  "es_connection (WsS s) = ss_connection s"
| "es_connection (SseS s) = ss_connection s"
| "es_connection (SubscribeS s) = ss_connection s"
| "es_connection (ConnectS s) = ss_connection s"

fun es_principal :: "EdgeSession \<Rightarrow> Principal" where
  "es_principal (WsS s) = ss_principal s"
| "es_principal (SseS s) = ss_principal s"
| "es_principal (SubscribeS s) = ss_principal s"
| "es_principal (ConnectS s) = ss_principal s"

fun es_open :: "EdgeSession \<Rightarrow> bool" where
  "es_open (WsS s) = ss_open s"
| "es_open (SseS s) = ss_open s"
| "es_open (SubscribeS s) = ss_open s"
| "es_open (ConnectS s) = ss_open s"

fun es_protocol :: "EdgeSession \<Rightarrow> DeliveryProtocol" where
  "es_protocol (WsS s) = WebSocket"
| "es_protocol (SseS s) = Sse"
| "es_protocol (SubscribeS s) = Grpc"
| "es_protocol (ConnectS s) = Grpc"

definition es_tenant :: "EdgeSession \<Rightarrow> string" where
  "es_tenant s = pl_tenant_id (es_principal s)"

datatype EdgeEvent =
    WsE WsTick
  | PumpE nat StreamInput
  | ConnectE ConnectTick

text \<open>Whether an event takes something off the queue (\<open>Some\<close>), and what: \<open>None\<close> at its end.\<close>

fun taken :: "EdgeEvent \<Rightarrow> Delivery option option" where
  "taken (WsE t) = (case wt_input t of WsDelivery d \<Rightarrow> Some d | _ \<Rightarrow> None)"
| "taken (PumpE n i) = (case i of Next d \<Rightarrow> Some d | Dropped \<Rightarrow> None)"
| "taken (ConnectE t) = (case ct_input t of ConnectDelivery d \<Rightarrow> Some d | _ \<Rightarrow> None)"

text \<open>One step of a session; an event of another protocol does nothing.\<close>

fun session_step ::
  "('jwk, 'key) HttpApiEnv \<Rightarrow> EdgeEvent \<Rightarrow> ('c, 'key, 'w) api_state \<Rightarrow> EdgeSession \<Rightarrow> ('c, 'key, 'w) api_state \<times> EdgeSession" where
  "session_step env (WsE t) st (WsS s) = (case websocket_step env t st s of (_, st, s) \<Rightarrow> (st, WsS s))"
| "session_step env (PumpE n i) st (SseS s) = (case sse_step env n i st s of (_, st, s) \<Rightarrow> (st, SseS s))"
| "session_step env (PumpE n i) st (SubscribeS s) = (case grpc_subscribe_step n i st s of (_, st, s) \<Rightarrow> (st, SubscribeS s))"
| "session_step env (ConnectE t) st (ConnectS s) = (case grpc_connect_step t st s of (_, st, s) \<Rightarrow> (st, ConnectS s))"
| "session_step env _ st s = (st, s)"

lemma session_step_contract:
  assumes "session_step env ev st s = (st', s')"
  shows "es_connection s' = es_connection s \<and> es_principal s' = es_principal s \<and> es_protocol s' = es_protocol s
    \<and> (es_open s' \<longrightarrow> es_open s) \<and> touches_only (es_connection s) (as_router st) (as_router st')
    \<and> (es_open s \<and> \<not> es_open s' \<longrightarrow> map_of (rt_connections (as_router st')) (es_connection s) = None)"
  using assms
  by (cases "(env, ev, st, s)" rule: session_step.cases)
    (auto simp: sse_step_def grpc_subscribe_step_def session_step_ok_def split: prod.splits
      dest!: websocket_step_ok pump_step_ok grpc_connect_step_ok)

subsection \<open>The system\<close>

text \<open>
  \<open>eg_pending\<close> holds the accepted WebSocket handshakes whose session has not started; with each session
  goes what its receiver can still take although the connection is gone; \<open>eg_sent\<close> records what was handed
  to which principal.
\<close>

record ('c, 'key, 'w) Edge =
  eg_api :: "('c, 'key, 'w) api_state"
  eg_world :: 'w
  eg_pending :: "(Principal \<times> nat) list"
  eg_sessions :: "connection_id \<Rightarrow> (EdgeSession \<times> Delivery list) option"
  eg_sent :: "(Principal \<times> Delivery) list"

abbreviation eg_router :: "('c, 'key, 'w) Edge \<Rightarrow> 'c Router" where
  "eg_router e \<equiv> as_router (eg_api e)"

abbreviation eg_connections :: "('c, 'key, 'w) Edge \<Rightarrow> connection_id \<Rightarrow> 'c ConnectionState option" where
  "eg_connections e \<equiv> map_of (rt_connections (eg_router e))"

definition with_router :: "'c Router \<Rightarrow> ('c, 'key, 'w) Edge \<Rightarrow> ('c, 'key, 'w) Edge" where
  "with_router r e = e\<lparr>eg_api := (eg_api e)\<lparr>as_router := r\<rparr>\<rparr>"

text \<open>A removed connection leaves its queued deliveries with the receiver.\<close>

definition detach ::
  "'c mpsc_ops \<Rightarrow> 'c Router \<Rightarrow> 'c Router \<Rightarrow> (connection_id \<Rightarrow> (EdgeSession \<times> Delivery list) option)
   \<Rightarrow> connection_id \<Rightarrow> (EdgeSession \<times> Delivery list) option" where
  "detach ops r r' sessions c =
    (case sessions c of
       None \<Rightarrow> None
     | Some (s, left) \<Rightarrow> (case (map_of (rt_connections r) c, map_of (rt_connections r') c) of
         (Some cs, None) \<Rightarrow> Some (s, ch_queued ops (cs_sender cs))
       | _ \<Rightarrow> Some (s, left)))"

definition opened_session ::
  "connection_id \<Rightarrow> ('s \<Rightarrow> EdgeSession) \<Rightarrow> 'e + 's \<Rightarrow> ('c, 'key, 'w) api_state \<Rightarrow> ('c, 'key, 'w) Edge \<Rightarrow> ('c, 'key, 'w) Edge" where
  "opened_session c kind res st e =
    (case res of
       Inl _ \<Rightarrow> e\<lparr>eg_api := st\<rparr>
     | Inr s \<Rightarrow> e\<lparr>eg_api := st, eg_sessions := (eg_sessions e)(c \<mapsto> (kind s, []))\<rparr>)"

definition fresh_id :: "connection_id \<Rightarrow> ('c, 'key, 'w) Edge \<Rightarrow> bool" where
  "fresh_id c e \<longleftrightarrow> eg_connections e c = None \<and> eg_sessions e c = None"

text \<open>
  \<open>env\<close> stays the same in a run; the environment of a publish request and of a reload, which includes the
  clock and the file system, is any.
\<close>

inductive edge_step ::
  "'c mpsc_ops \<Rightarrow> ('jwk, 'key) HttpApiEnv \<Rightarrow> ('c, 'key, 'w) Edge \<Rightarrow> ('c, 'key, 'w) Edge \<Rightarrow> bool" for ops env where
  e_dispatch: "message_valid m \<Longrightarrow> dispatch ops t1 t2 m (eg_router e) = Some (rep, r) \<Longrightarrow>
    edge_step ops env e ((with_router r e)\<lparr>eg_sessions := detach ops (eg_router e) r (eg_sessions e)\<rparr>)"
| e_webhook_register: "fresh_id c e \<Longrightarrow> register_connection ops c tenant HttpWebhook cap (eg_router e) = (res, r) \<Longrightarrow>
    edge_step ops env e (with_router r e)"
| e_webhook_step: "eg_connections e c = Some cs \<Longrightarrow> cs_protocol cs = HttpWebhook \<Longrightarrow>
    subscribe c sid flt (eg_router e) = (res, r) \<or> r = unregister_connection c (eg_router e) \<Longrightarrow>
    edge_step ops env e (with_router r e)"
| e_webhook_receive: "eg_connections e c = Some cs \<Longrightarrow> cs_protocol cs = HttpWebhook \<Longrightarrow>
    ch_capacity ops ch = ch_capacity ops (cs_sender cs) \<Longrightarrow> ch_queued ops ch = drop n (ch_queued ops (cs_sender cs)) \<Longrightarrow>
    r = (eg_router e)\<lparr>rt_connections := AList.update c (cs\<lparr>cs_sender := ch\<rparr>) (rt_connections (eg_router e))\<rparr> \<Longrightarrow>
    edge_step ops env e (with_router r e)"
| e_publish_http: "publish_http (penv :: ('jwk, 'key) PublishEnv) headers request (eg_api e, eg_world e) = (res, st, w) \<Longrightarrow>
    edge_step ops env e (e\<lparr>eg_api := st, eg_world := w\<rparr>)"
| e_publish_grpc: "publish_grpc (penv :: ('jwk, 'key) PublishEnv) headers grequest (eg_api e, eg_world e) = (gres, st, w) \<Longrightarrow>
    edge_step ops env e (e\<lparr>eg_api := st, eg_world := w\<rparr>)"
| e_reload: "reload_jwks (aenv :: ('jwk, 'key) AuthEnv) (as_authenticator (eg_api e)) = (lres, au) \<Longrightarrow>
    edge_step ops env e (e\<lparr>eg_api := (eg_api e)\<lparr>as_authenticator := au\<rparr>\<rparr>)"
| e_handshake: "websocket env headers query (eg_api e) = Inr pending \<Longrightarrow>
    edge_step ops env e (e\<lparr>eg_pending := pending # eg_pending e\<rparr>)"
| e_websocket: "(p, cap) \<in> set (eg_pending e) \<Longrightarrow> fresh_id c e \<Longrightarrow>
    websocket_start ops c now p cap (eg_api e) = (wres, st) \<Longrightarrow> edge_step ops env e (opened_session c WsS wres st e)"
| e_sse: "fresh_id c e \<Longrightarrow> sse env ops c headers squery (eg_api e) = (sres, st) \<Longrightarrow>
    edge_step ops env e (opened_session c SseS sres st e)"
| e_subscribe: "fresh_id c e \<Longrightarrow> grpc_subscribe_call (he_auth env) ops c headers srequest (eg_api e) = (cres, st) \<Longrightarrow>
    edge_step ops env e (opened_session c SubscribeS cres st e)"
| e_connect: "fresh_id c e \<Longrightarrow> grpc_connect_call (he_auth env) ops c headers (eg_api e) = (cres, st) \<Longrightarrow>
    edge_step ops env e (opened_session c ConnectS cres st e)"
| e_client: "eg_sessions e c = Some (s, left) \<Longrightarrow> taken ev = None \<Longrightarrow> session_step env ev (eg_api e) s = (st, s') \<Longrightarrow>
    edge_step ops env e (e\<lparr>eg_api := st, eg_sessions := (eg_sessions e)(c \<mapsto> (s', left))\<rparr>)"
| e_deliver: "eg_sessions e c = Some (s, left) \<Longrightarrow> es_open s \<Longrightarrow> taken ev = Some (Some d) \<Longrightarrow>
    eg_connections e c = Some cs \<Longrightarrow> ch_queued ops (cs_sender cs) = d # ch_queued ops ch \<Longrightarrow>
    ch_capacity ops ch = ch_capacity ops (cs_sender cs) \<Longrightarrow>
    r = (eg_router e)\<lparr>rt_connections := AList.update c (cs\<lparr>cs_sender := ch\<rparr>) (rt_connections (eg_router e))\<rparr> \<Longrightarrow>
    session_step env ev ((eg_api e)\<lparr>as_router := r\<rparr>) s = (st, s') \<Longrightarrow>
    edge_step ops env e (e\<lparr>eg_api := st, eg_sessions := (eg_sessions e)(c \<mapsto> (s', left)), eg_sent := (es_principal s, d) # eg_sent e\<rparr>)"
| e_deliver_rest: "eg_sessions e c = Some (s, d # left) \<Longrightarrow> es_open s \<Longrightarrow> taken ev = Some (Some d) \<Longrightarrow>
    eg_connections e c = None \<Longrightarrow> session_step env ev (eg_api e) s = (st, s') \<Longrightarrow>
    edge_step ops env e (e\<lparr>eg_api := st, eg_sessions := (eg_sessions e)(c \<mapsto> (s', left)), eg_sent := (es_principal s, d) # eg_sent e\<rparr>)"
| e_queue_end: "eg_sessions e c = Some (s, []) \<Longrightarrow> taken ev = Some None \<Longrightarrow> eg_connections e c = None \<Longrightarrow>
    session_step env ev (eg_api e) s = (st, s') \<Longrightarrow>
    edge_step ops env e (e\<lparr>eg_api := st, eg_sessions := (eg_sessions e)(c \<mapsto> (s', []))\<rparr>)"

definition edge_start :: "('c, 'key, 'w) api_state \<Rightarrow> 'w \<Rightarrow> ('c, 'key, 'w) Edge" where
  "edge_start st w = \<lparr>eg_api = st, eg_world = w, eg_pending = [], eg_sessions = (\<lambda>_. None), eg_sent = []\<rparr>"

subsection \<open>The invariant\<close>

text \<open>Every client connection has an open session of the same tenant and protocol.\<close>

definition connections_have_sessions :: "('c, 'key, 'w) Edge \<Rightarrow> bool" where
  "connections_have_sessions e \<longleftrightarrow>
    (\<forall>c cs. eg_connections e c = Some cs \<longrightarrow> cs_protocol cs \<noteq> HttpWebhook \<longrightarrow>
      (\<exists>s left. eg_sessions e c = Some (s, left) \<and> es_open s \<and> cs_tenant_id cs = es_tenant s \<and> cs_protocol cs = es_protocol s))"

definition sessions_ok :: "('c, 'key, 'w) Edge \<Rightarrow> bool" where
  "sessions_ok e \<longleftrightarrow>
    (\<forall>c s left. eg_sessions e c = Some (s, left) \<longrightarrow>
      es_connection s = c \<and> pl_can_subscribe (es_principal s)
      \<and> (\<forall>d\<in>set left. md_tenant_id (rm_metadata (dv_message d)) = es_tenant s)
      \<and> (\<forall>cs. eg_connections e c = Some cs \<longrightarrow> cs_protocol cs \<noteq> HttpWebhook))"

definition sent_ok :: "('c, 'key, 'w) Edge \<Rightarrow> bool" where
  "sent_ok e \<longleftrightarrow> (\<forall>(p, cap)\<in>set (eg_pending e). pl_can_subscribe p)
    \<and> (\<forall>(p, d)\<in>set (eg_sent e). pl_can_subscribe p \<and> md_tenant_id (rm_metadata (dv_message d)) = pl_tenant_id p)"

definition edge_inv :: "'c mpsc_ops \<Rightarrow> ('c, 'key, 'w) Edge \<Rightarrow> bool" where
  "edge_inv ops e \<longleftrightarrow> router_inv (eg_router e) \<and> queues_ok ops (eg_router e)
    \<and> connections_have_sessions e \<and> sessions_ok e \<and> sent_ok e"

lemma edge_inv_connection:
  assumes "edge_inv ops e" and "eg_connections e c = Some cs" and "cs_protocol cs \<noteq> HttpWebhook"
  obtains s left where "eg_sessions e c = Some (s, left)" "es_open s" "cs_tenant_id cs = es_tenant s" "cs_protocol cs = es_protocol s"
  using assms unfolding edge_inv_def connections_have_sessions_def by blast

lemma edge_inv_sessionD:
  assumes "edge_inv ops e" and "eg_sessions e c = Some (s, left)"
  shows "es_connection s = c" "pl_can_subscribe (es_principal s)"
    "d \<in> set left \<Longrightarrow> md_tenant_id (rm_metadata (dv_message d)) = es_tenant s"
    "eg_connections e c = Some cs \<Longrightarrow> cs_protocol cs \<noteq> HttpWebhook"
  using assms unfolding edge_inv_def sessions_ok_def by blast+

text \<open>A session's queue holds messages of its tenant.\<close>

lemma edge_inv_queue:
  assumes inv: "edge_inv ops e" and s: "eg_sessions e c = Some (s, left)" and cs: "eg_connections e c = Some cs"
    and d: "d \<in> set (ch_queued ops (cs_sender cs))"
  shows "md_tenant_id (rm_metadata (dv_message d)) = es_tenant s"
proof -
  from edge_inv_connection [OF inv cs edge_inv_sessionD(4) [OF inv s cs]] s have "cs_tenant_id cs = es_tenant s" by auto
  moreover have "queue_ok ops (rt_config (eg_router e)) cs" using inv cs by (simp add: edge_inv_def queues_ok_def)
  ultimately show ?thesis using d by (simp add: queue_ok_def)
qed

subsection \<open>Router changes that keep or remove connections\<close>

definition narrows :: "'c Router \<Rightarrow> 'c Router \<Rightarrow> bool" where
  "narrows r r' \<longleftrightarrow>
    (\<forall>c cs'. map_of (rt_connections r') c = Some cs' \<longrightarrow>
      (\<exists>cs. map_of (rt_connections r) c = Some cs \<and> cs_tenant_id cs' = cs_tenant_id cs \<and> cs_protocol cs' = cs_protocol cs))"

lemma narrows_refl [simp]: "narrows r r"
  by (simp add: narrows_def)

lemma narrows_trans: "narrows r r' \<Longrightarrow> narrows r' r'' \<Longrightarrow> narrows r r''"
  unfolding narrows_def by fastforce

lemma touches_narrows: "touches_only c r r' \<Longrightarrow> narrows r r'"
  unfolding narrows_def
proof (intro allI impI)
  fix d cs' assume t: "touches_only c r r'" and cs': "map_of (rt_connections r') d = Some cs'"
  show "\<exists>cs. map_of (rt_connections r) d = Some cs \<and> cs_tenant_id cs' = cs_tenant_id cs \<and> cs_protocol cs' = cs_protocol cs"
  proof (cases "d = c")
    case True
    with t cs' obtain cs where "map_of (rt_connections r) d = Some cs" "same_owner cs cs'" by (auto simp: touches_only_def)
    then show ?thesis by (auto simp: same_owner_def)
  next
    case False
    with t cs' show ?thesis by (auto simp: touches_only_def)
  qed
qed

lemma touches_queues:
  assumes t: "touches_only c r r'" and q: "queues_ok ops r"
  shows "queues_ok ops r'"
  unfolding queues_ok_def
proof (intro allI impI)
  fix d cs' assume cs': "map_of (rt_connections r') d = Some cs'"
  have config: "rt_config r' = rt_config r" using t by (simp add: touches_only_def)
  show "queue_ok ops (rt_config r') cs'"
  proof (cases "d = c")
    case True
    with t cs' obtain cs where "map_of (rt_connections r) d = Some cs" "same_owner cs cs'" by (auto simp: touches_only_def)
    with q config show ?thesis by (auto simp: same_owner_def queues_ok_def)
  next
    case False
    with t cs' q config show ?thesis by (auto simp: touches_only_def queues_ok_def)
  qed
qed

lemma dispatch_narrows:
  assumes "router_inv r" and "dispatch ops t1 t2 m r = Some (rep, r')"
  shows "narrows r r'"
  unfolding narrows_def dispatch_connection [OF assms]
  by (auto simp: after_send_def split: option.splits if_splits)

lemma unregister_narrows: "narrows r (unregister_connection c r)"
  by (rule touches_narrows [OF unregister_touches])

lemma receive_narrows:
  "map_of (rt_connections r) c = Some cs \<Longrightarrow>
    narrows r (r\<lparr>rt_connections := AList.update c (cs\<lparr>cs_sender := ch\<rparr>) (rt_connections r)\<rparr>)"
  by (auto simp: narrows_def alist_simps split: if_splits)

lemma edge_inv_router:
  assumes "edge_inv ops e" and "router_inv r" "queues_ok ops r" "narrows (eg_router e) r"
  shows "edge_inv ops (with_router r e)"
proof -
  have "connections_have_sessions (with_router r e)"
    using assms(1,4) unfolding edge_inv_def connections_have_sessions_def with_router_def narrows_def by simp metis
  moreover have "sessions_ok (with_router r e)"
    using assms(1,4) unfolding edge_inv_def sessions_ok_def with_router_def narrows_def by simp metis
  ultimately show ?thesis using assms by (simp add: edge_inv_def with_router_def sent_ok_def)
qed

lemma edge_inv_api:
  assumes "edge_inv ops e" and "router_inv (as_router st)" "queues_ok ops (as_router st)" "narrows (eg_router e) (as_router st)"
  shows "edge_inv ops (e\<lparr>eg_api := st, eg_world := w\<rparr>)"
  using edge_inv_router [OF assms]
  by (simp add: edge_inv_def with_router_def connections_have_sessions_def sessions_ok_def sent_ok_def)

lemma edge_inv_detach:
  assumes inv: "edge_inv ops e" and "router_inv r" "queues_ok ops r" "narrows (eg_router e) r"
  shows "edge_inv ops ((with_router r e)\<lparr>eg_sessions := detach ops (eg_router e) r (eg_sessions e)\<rparr>)"
    (is "edge_inv ops ?e")
proof -
  note base = edge_inv_router [OF assms]
  have kept: "detach ops (eg_router e) r (eg_sessions e) c = Some (s, left') \<Longrightarrow> \<exists>left. eg_sessions e c = Some (s, left)"
    and stays: "eg_sessions e c = Some (s, left) \<Longrightarrow> \<exists>left'. detach ops (eg_router e) r (eg_sessions e) c = Some (s, left')"
    for c s left left' by (auto simp: detach_def split: option.splits)
  have tenant: "\<forall>d\<in>set left'. md_tenant_id (rm_metadata (dv_message d)) = es_tenant s"
    if "detach ops (eg_router e) r (eg_sessions e) c = Some (s, left')" for c s left'
  proof -
    from kept [OF that] obtain left where l: "eg_sessions e c = Some (s, left)" by blast
    show ?thesis
    proof (cases "left' = left")
      case True
      with edge_inv_sessionD(3) [OF inv l] show ?thesis by simp
    next
      case False
      with that l obtain cs where cs: "eg_connections e c = Some cs" "left' = ch_queued ops (cs_sender cs)"
        by (auto simp: detach_def split: option.splits)
      with edge_inv_queue [OF inv l cs(1)] show ?thesis by simp
    qed
  qed
  have "connections_have_sessions ?e"
    using base stays unfolding edge_inv_def connections_have_sessions_def with_router_def by simp metis
  moreover have "sessions_ok ?e"
    using base kept tenant unfolding edge_inv_def sessions_ok_def with_router_def by simp metis
  ultimately show ?thesis using base by (simp add: edge_inv_def with_router_def sent_ok_def)
qed

text \<open>A step of the session of connection \<open>c\<close>, after its receiver may have taken a delivery.\<close>

lemma edge_inv_session:
  assumes inv: "edge_inv ops e" and c: "eg_sessions e c = Some (s, left)"
    and r1: "router_inv (as_router st1)" "queues_ok ops (as_router st1)" "narrows (eg_router e) (as_router st1)"
    and step: "session_step env ev st1 s = (st', s')" and left: "set left' \<subseteq> set left"
    and sent: "\<forall>(p, d)\<in>set sent'. pl_can_subscribe p \<and> md_tenant_id (rm_metadata (dv_message d)) = pl_tenant_id p"
  shows "edge_inv ops (e\<lparr>eg_api := st', eg_sessions := (eg_sessions e)(c \<mapsto> (s', left')), eg_sent := sent'\<rparr>)"
    (is "edge_inv ops ?e")
proof -
  note k = session_step_contract [OF step]
  note sD = edge_inv_sessionD [OF inv c]
  have conn: "es_connection s = c" by (rule sD(1))
  have r': "router_inv (as_router st')" "queues_ok ops (as_router st')"
    using k r1 touches_queues by (auto simp: touches_only_def)
  have n: "narrows (eg_router e) (as_router st')"
    using k by (intro narrows_trans [OF r1(3)] touches_narrows) blast
  have tenant: "es_tenant s' = es_tenant s" using k by (simp add: es_tenant_def)
  have "connections_have_sessions ?e"
    unfolding connections_have_sessions_def
  proof (intro allI impI)
    fix d cs' assume cs': "eg_connections ?e d = Some cs'" "cs_protocol cs' \<noteq> HttpWebhook"
    with n obtain cs where cs: "eg_connections e d = Some cs" "cs_tenant_id cs' = cs_tenant_id cs" "cs_protocol cs' = cs_protocol cs"
      by (auto simp: narrows_def)
    with cs'(2) obtain t l where t: "eg_sessions e d = Some (t, l)" "es_open t" "cs_tenant_id cs = es_tenant t" "cs_protocol cs = es_protocol t"
      using edge_inv_connection [OF inv cs(1)] by metis
    show "\<exists>s left. eg_sessions ?e d = Some (s, left) \<and> es_open s \<and> cs_tenant_id cs' = es_tenant s \<and> cs_protocol cs' = es_protocol s"
    proof (cases "d = c")
      case True
      with t c have "t = s" by simp
      moreover have "es_open s'" using k cs'(1) conn t(2) True \<open>t = s\<close> by auto
      ultimately show ?thesis using True t cs k tenant by simp
    next
      case False
      with t cs show ?thesis by simp
    qed
  qed
  moreover have "sessions_ok ?e"
    unfolding sessions_ok_def
  proof (intro allI impI)
    fix d t l assume t: "eg_sessions ?e d = Some (t, l)"
    have w: "\<forall>cs. eg_connections ?e d = Some cs \<longrightarrow> cs_protocol cs \<noteq> HttpWebhook" if u: "eg_sessions e d = Some (u, m)" for u m
    proof (intro allI impI)
      fix cs' assume "eg_connections ?e d = Some cs'"
      with n obtain cs where "eg_connections e d = Some cs" "cs_protocol cs' = cs_protocol cs" by (auto simp: narrows_def)
      with edge_inv_sessionD(4) [OF inv u] show "cs_protocol cs' \<noteq> HttpWebhook" by simp
    qed
    show "es_connection t = d \<and> pl_can_subscribe (es_principal t)
      \<and> (\<forall>x\<in>set l. md_tenant_id (rm_metadata (dv_message x)) = es_tenant t)
      \<and> (\<forall>cs. eg_connections ?e d = Some cs \<longrightarrow> cs_protocol cs \<noteq> HttpWebhook)"
    proof (cases "d = c")
      case True
      with t have "t = s'" "l = left'" by auto
      with w [OF c [folded True]] sD(2,3) left k conn True tenant show ?thesis by auto
    next
      case False
      with t have "eg_sessions e d = Some (t, l)" by simp
      with w edge_inv_sessionD [OF inv] show ?thesis by blast
    qed
  qed
  ultimately show ?thesis using inv r' sent by (auto simp: edge_inv_def sent_ok_def)
qed

subsection \<open>Opening sessions\<close>

lemma edge_inv_open:
  assumes inv: "edge_inv ops e" and fresh: "fresh_id c e"
    and o: "stream_opened c proto auth res (eg_router e) (as_router st)" and q: "queues_ok ops (as_router st)"
    and kind: "\<And>s. es_connection (kind s) = ss_connection s \<and> es_principal (kind s) = ss_principal s
      \<and> es_open (kind s) = ss_open s \<and> es_protocol (kind s) = proto" and "proto \<noteq> HttpWebhook"
  shows "edge_inv ops (opened_session c kind res st e)"
proof (cases res)
  case (Inl x)
  with o inv have "router_inv (as_router st)" "narrows (eg_router e) (as_router st)"
    by (auto simp: stream_opened_def edge_inv_def narrows_def)
  from edge_inv_api [OF inv this(1) q this(2), of "eg_world e"] Inl show ?thesis by (simp add: opened_session_def)
next
  case (Inr s)
  let ?e = "opened_session c kind res st e"
  from o Inr have op: "opened c (pl_tenant_id (ss_principal s)) proto res (eg_router e) (as_router st)"
    and s: "pl_can_subscribe (ss_principal s)" "ss_connection s = c" "ss_open s" by (auto simp: stream_opened_def)
  from op Inr obtain cs0 where cs0: "eg_connections ?e c = Some cs0" "cs_tenant_id cs0 = pl_tenant_id (ss_principal s)" "cs_protocol cs0 = proto"
    and others: "\<And>d. d \<noteq> c \<Longrightarrow> eg_connections ?e d = eg_connections e d" by (auto simp: opened_def opened_session_def)
  have sess: "eg_sessions ?e = (eg_sessions e)(c \<mapsto> (kind s, []))" using Inr by (simp add: opened_session_def)
  have "connections_have_sessions ?e"
    unfolding connections_have_sessions_def
  proof (intro allI impI)
    fix d cs assume cs: "eg_connections ?e d = Some cs" "cs_protocol cs \<noteq> HttpWebhook"
    show "\<exists>s left. eg_sessions ?e d = Some (s, left) \<and> es_open s \<and> cs_tenant_id cs = es_tenant s \<and> cs_protocol cs = es_protocol s"
    proof (cases "d = c")
      case True
      with cs cs0 s kind [of s] show ?thesis by (simp add: sess es_tenant_def)
    next
      case False
      with cs others have "eg_connections e d = Some cs" by simp
      then show ?thesis
        by (rule edge_inv_connection [OF inv _ cs(2)]) (use False in \<open>auto simp: sess\<close>)
    qed
  qed
  moreover have "sessions_ok ?e"
    unfolding sessions_ok_def
  proof (intro allI impI)
    fix d t l assume t: "eg_sessions ?e d = Some (t, l)"
    show "es_connection t = d \<and> pl_can_subscribe (es_principal t)
      \<and> (\<forall>x\<in>set l. md_tenant_id (rm_metadata (dv_message x)) = es_tenant t)
      \<and> (\<forall>cs. eg_connections ?e d = Some cs \<longrightarrow> cs_protocol cs \<noteq> HttpWebhook)"
    proof (cases "d = c")
      case True
      with t have "t = kind s" "l = []" by (auto simp: sess)
      with True cs0 s kind [of s] assms(6) show ?thesis by auto
    next
      case False
      with t have "eg_sessions e d = Some (t, l)" by (simp add: sess)
      with False others edge_inv_sessionD [OF inv] show ?thesis by auto
    qed
  qed
  moreover have "router_inv (eg_router ?e)" "queues_ok ops (eg_router ?e)" "sent_ok ?e"
    using inv op q Inr by (auto simp: edge_inv_def opened_def opened_session_def sent_ok_def)
  ultimately show ?thesis by (simp add: edge_inv_def)
qed

lemma register_queues:
  assumes "mpsc_laws ops" "router_inv r" "queues_ok ops r" "map_of (rt_connections r) c = None"
    and "register_connection ops c tenant proto cap r = (res, r')"
  shows "router_inv r' \<and> queues_ok ops r'"
proof -
  have "router_step ops r r'" by (rule step_register [OF assms(4,5)])
  with assms(1-3) show ?thesis by (auto intro: router_step_inv router_step_queues)
qed

lemma unregister_queues: "queues_ok ops r \<Longrightarrow> queues_ok ops (unregister_connection c r)"
  by (rule touches_queues [OF unregister_touches])

lemma register_and_subscribe_queues:
  assumes "mpsc_laws ops" "router_inv r" "queues_ok ops r" "map_of (rt_connections r) c = None"
    and "register_and_subscribe ops c tenant proto cap sid flt r = (res, r')"
  shows "queues_ok ops r'"
  using assms(5) register_queues [OF assms(1-4)] unfolding register_and_subscribe_def
  by (auto split: prod.splits sum.splits dest!: subscribe_touches intro!: unregister_queues intro: touches_queues)

lemma opening_queues:
  assumes "mpsc_laws ops" "router_inv (as_router st)" "queues_ok ops (as_router st)" "map_of (rt_connections (as_router st)) c = None"
  shows "websocket_start ops c now p cap st = (wres, st') \<Longrightarrow> queues_ok ops (as_router st')"
    and "sse env ops c headers query st = (sres, st') \<Longrightarrow> queues_ok ops (as_router st')"
    and "grpc_subscribe_call aenv ops c headers request st = (cres, st') \<Longrightarrow> queues_ok ops (as_router st')"
    and "grpc_connect_call aenv ops c headers st = (cres, st') \<Longrightarrow> queues_ok ops (as_router st')"
  using register_queues [OF assms] register_and_subscribe_queues [OF assms] assms(3)
  by (auto simp: websocket_start_def sse_def grpc_subscribe_call_def grpc_connect_call_def split: prod.splits sum.splits)

subsection \<open>Publishing leaves the connections alone\<close>

lemma publish_metrics_touches:
  "touches_only c (as_router st) (as_router (with_api_metrics (record_publish_attempt p) st))"
  "touches_only c (as_router st) (as_router (with_api_metrics (record_publish_acknowledged p) st))"
  "touches_only c (as_router st) (as_router (with_api_metrics (record_publish_failure p) st))"
  unfolding with_api_metrics_def
  by (simp; rule touches_only_metrics; simp add: record_publish_attempt_def record_publish_acknowledged_def
    record_publish_failure_def conn_gauge_def sub_gauge_def metrics_shape_def split: PublishProtocol.splits DeliveryProtocol.splits)+

lemma publish_inner_touches:
  "publish_http_inner env headers req (st, w) = (res, st', w') \<Longrightarrow> touches_only c (as_router st) (as_router st')"
  "publish_grpc_inner env headers greq (st, w) = (gres, st', w') \<Longrightarrow> touches_only c (as_router st) (as_router st')"
  by (auto simp: publish_http_inner_def publish_grpc_inner_def Let_def split: sum.splits prod.splits bool.splits
    dest: allow_rate_touches)

lemma publish_outer_touches:
  assumes "touches_only c (as_router (with_api_metrics (record_publish_attempt p) st)) (as_router st1)"
  shows "touches_only c (as_router st) (as_router (with_api_metrics
    (if ok then record_publish_acknowledged p else record_publish_failure p) (with_api_metrics (record_latency stage n) st1)))"
proof -
  have "touches_only c (as_router (with_api_metrics (record_latency stage n) st1)) (as_router (with_api_metrics
      (if ok then record_publish_acknowledged p else record_publish_failure p) (with_api_metrics (record_latency stage n) st1)))"
    by (cases ok) (simp_all only: if_True if_False publish_metrics_touches)
  with touches_only_trans [OF publish_metrics_touches(1) assms] with_latency_touches [of c st1] show ?thesis
    by (meson touches_only_trans)
qed

lemma publish_touches:
  "publish_http env headers request (st, w) = (res, st', w') \<Longrightarrow> touches_only c (as_router st) (as_router st')"
  "publish_grpc env headers grequest (st, w) = (gres, st', w') \<Longrightarrow> touches_only c (as_router st) (as_router st')"
proof -
  assume run: "publish_http env headers request (st, w) = (res, st', w')"
  obtain res1 st1 w1 where i: "(case request of Inr req \<Rightarrow> publish_http_inner env headers req (with_api_metrics (record_publish_attempt PublishHttp) st, w)
      | Inl _ \<Rightarrow> (Inl (BadRequest ''request body is not valid for the publish contract''),
          with_api_metrics (record_publish_attempt PublishHttp) st, w)) = (res1, st1, w1)" by (metis prod_cases3)
  have "touches_only c (as_router (with_api_metrics (record_publish_attempt PublishHttp) st)) (as_router st1)"
    using i by (auto split: sum.splits dest: publish_inner_touches)
  from publish_outer_touches [OF this] run i show "touches_only c (as_router st) (as_router st')"
    by (auto simp: publish_http_def Let_def)
next
  assume run: "publish_grpc env headers grequest (st, w) = (gres, st', w')"
  obtain res1 st1 w1 where
    i: "publish_grpc_inner env headers grequest (with_api_metrics (record_publish_attempt PublishGrpc) st, w) = (res1, st1, w1)"
    by (metis prod_cases3)
  from publish_outer_touches [OF publish_inner_touches(2) [OF i]] run i show "touches_only c (as_router st) (as_router st')"
    by (auto simp: publish_grpc_def Let_def)
qed

subsection \<open>Every step keeps the invariant\<close>

lemma edge_inv_touches:
  assumes "edge_inv ops e" and "touches_only c (eg_router e) (as_router st)"
  shows "edge_inv ops (e\<lparr>eg_api := st, eg_world := w\<rparr>)"
  using assms edge_inv_api [OF assms(1)] touches_queues [OF assms(2)] touches_narrows [OF assms(2)]
  by (simp add: edge_inv_def touches_only_def)

lemma edge_inv_webhook:
  assumes inv: "edge_inv ops e" and fresh: "fresh_id c e" and "router_inv r" "queues_ok ops r"
    and o: "opened c tenant HttpWebhook res (eg_router e) r"
  shows "edge_inv ops (with_router r e)"
proof -
  have conns: "map_of (rt_connections r) d = Some cs \<Longrightarrow> cs_protocol cs \<noteq> HttpWebhook \<or> d \<noteq> c \<Longrightarrow> eg_connections e d = Some cs" for d cs
    using o by (cases "d = c") (auto simp: opened_def split: if_splits)
  have "connections_have_sessions (with_router r e)"
    unfolding connections_have_sessions_def
  proof (intro allI impI)
    fix d cs assume "eg_connections (with_router r e) d = Some cs" "cs_protocol cs \<noteq> HttpWebhook"
    moreover from this conns have "eg_connections e d = Some cs" by (simp add: with_router_def)
    ultimately show "\<exists>s left. eg_sessions (with_router r e) d = Some (s, left) \<and> es_open s \<and> cs_tenant_id cs = es_tenant s
        \<and> cs_protocol cs = es_protocol s"
      by (elim edge_inv_connection [OF inv]) (auto simp: with_router_def)
  qed
  moreover have "sessions_ok (with_router r e)"
    unfolding sessions_ok_def
  proof (intro allI impI)
    fix d s left assume "eg_sessions (with_router r e) d = Some (s, left)"
    then have d: "eg_sessions e d = Some (s, left)" by (simp add: with_router_def)
    with fresh have "d \<noteq> c" by (auto simp: fresh_id_def)
    with conns edge_inv_sessionD [OF inv d] show "es_connection s = d \<and> pl_can_subscribe (es_principal s)
      \<and> (\<forall>x\<in>set left. md_tenant_id (rm_metadata (dv_message x)) = es_tenant s)
      \<and> (\<forall>cs. eg_connections (with_router r e) d = Some cs \<longrightarrow> cs_protocol cs \<noteq> HttpWebhook)"
      by (auto simp: with_router_def)
  qed
  ultimately show ?thesis using assms by (simp add: edge_inv_def with_router_def sent_ok_def)
qed

text \<open>The steps of the router itself: dispatch, and what a webhook worker does with its connection.\<close>

lemma edge_inv_router_steps:
  assumes laws: "mpsc_laws ops" and inv: "edge_inv ops e"
  shows "message_valid m \<Longrightarrow> dispatch ops t1 t2 m (eg_router e) = Some (rep, r) \<Longrightarrow>
      edge_inv ops ((with_router r e)\<lparr>eg_sessions := detach ops (eg_router e) r (eg_sessions e)\<rparr>)"
    and "fresh_id c e \<Longrightarrow> register_connection ops c tenant HttpWebhook cap (eg_router e) = (res, r) \<Longrightarrow>
      edge_inv ops (with_router r e)"
    and "subscribe c sid flt (eg_router e) = (sres, r) \<or> r = unregister_connection c (eg_router e) \<Longrightarrow>
      edge_inv ops (with_router r e)"
    and "eg_connections e c = Some cs \<Longrightarrow> ch_capacity ops ch = ch_capacity ops (cs_sender cs) \<Longrightarrow>
      ch_queued ops ch = drop n (ch_queued ops (cs_sender cs)) \<Longrightarrow>
      r = (eg_router e)\<lparr>rt_connections := AList.update c (cs\<lparr>cs_sender := ch\<rparr>) (rt_connections (eg_router e))\<rparr> \<Longrightarrow>
      router_inv r \<and> queues_ok ops r \<and> narrows (eg_router e) r"
proof -
  have r: "router_inv (eg_router e)" "queues_ok ops (eg_router e)" using inv by (simp_all add: edge_inv_def)
  have step: "router_inv r' \<and> queues_ok ops r'" if "router_step ops (eg_router e) r'" for r'
    using that laws r by (auto intro: router_step_inv router_step_queues)
  show "edge_inv ops ((with_router r e)\<lparr>eg_sessions := detach ops (eg_router e) r (eg_sessions e)\<rparr>)"
    if "message_valid m" "dispatch ops t1 t2 m (eg_router e) = Some (rep, r)"
    using step [OF step_dispatch [OF that]] dispatch_narrows [OF r(1) that(2)] by (auto intro!: edge_inv_detach inv)
  show "edge_inv ops (with_router r e)"
    if f: "fresh_id c e" and reg: "register_connection ops c tenant HttpWebhook cap (eg_router e) = (res, r)"
  proof -
    have c: "eg_connections e c = None" using f by (simp add: fresh_id_def)
    from register_queues [OF laws r c reg] register_opened [OF c reg] edge_inv_webhook [OF inv f] show ?thesis by blast
  qed
  show "edge_inv ops (with_router r e)"
    if "subscribe c sid flt (eg_router e) = (sres, r) \<or> r = unregister_connection c (eg_router e)"
  proof -
    from that have "touches_only c (eg_router e) r" by (auto dest: subscribe_touches)
    with r show ?thesis
      by (intro edge_inv_router inv) (auto simp: touches_only_def intro: touches_queues touches_narrows)
  qed
  show "router_inv r \<and> queues_ok ops r \<and> narrows (eg_router e) r"
    if "eg_connections e c = Some cs" "ch_capacity ops ch = ch_capacity ops (cs_sender cs)"
      "ch_queued ops ch = drop n (ch_queued ops (cs_sender cs))"
      "r = (eg_router e)\<lparr>rt_connections := AList.update c (cs\<lparr>cs_sender := ch\<rparr>) (rt_connections (eg_router e))\<rparr>"
    using step [OF step_receive [OF that(1-3)]] receive_narrows [OF that(1)] that(4) by simp
qed

lemma edge_inv_openings:
  assumes laws: "mpsc_laws ops" and inv: "edge_inv ops e" and f: "fresh_id c e"
  shows "pl_can_subscribe p \<Longrightarrow> websocket_start ops c now p cap (eg_api e) = (wres, st) \<Longrightarrow>
      edge_inv ops (opened_session c WsS wres st e)"
    and "sse env ops c headers squery (eg_api e) = (sres, st) \<Longrightarrow> edge_inv ops (opened_session c SseS sres st e)"
    and "grpc_subscribe_call aenv ops c headers srequest (eg_api e) = (cres, st) \<Longrightarrow>
      edge_inv ops (opened_session c SubscribeS cres st e)"
    and "grpc_connect_call aenv ops c headers (eg_api e) = (cres, st) \<Longrightarrow>
      edge_inv ops (opened_session c ConnectS cres st e)"
proof -
  have c: "eg_connections e c = None" using f by (simp add: fresh_id_def)
  have "router_inv (eg_router e)" "queues_ok ops (eg_router e)" using inv by (simp_all add: edge_inv_def)
  note queues = opening_queues [OF laws this c] and opens = edge_inv_open [OF inv f]
  show "edge_inv ops (opened_session c WsS wres st e)"
    if "pl_can_subscribe p" "websocket_start ops c now p cap (eg_api e) = (wres, st)"
    by (rule opens [OF websocket_start_opened [OF c that(2,1)] queues(1) [OF that(2)]]) simp_all
  show "edge_inv ops (opened_session c SseS sres st e)" if "sse env ops c headers squery (eg_api e) = (sres, st)"
    by (rule opens [OF sse_opened [OF c that] queues(2) [OF that]]) simp_all
  show "edge_inv ops (opened_session c SubscribeS cres st e)"
    if "grpc_subscribe_call aenv ops c headers srequest (eg_api e) = (cres, st)"
    by (rule opens [OF grpc_subscribe_opened [OF c that] queues(3) [OF that]]) simp_all
  show "edge_inv ops (opened_session c ConnectS cres st e)"
    if "grpc_connect_call aenv ops c headers (eg_api e) = (cres, st)"
    by (rule opens [OF grpc_connect_opened [OF c that] queues(4) [OF that]]) simp_all
qed

text \<open>A session takes a delivery: off the queue of its connection, or off what is left of it.\<close>

lemma edge_inv_deliveries:
  assumes inv: "edge_inv ops e" and c: "eg_sessions e c = Some (s, left)" and left: "set left' \<subseteq> set left"
    and r: "router_inv (as_router st1)" "queues_ok ops (as_router st1)" "narrows (eg_router e) (as_router st1)"
    and step: "session_step env ev st1 s = (st, s')" and d: "md_tenant_id (rm_metadata (dv_message d)) = es_tenant s"
  shows "edge_inv ops (e\<lparr>eg_api := st, eg_sessions := (eg_sessions e)(c \<mapsto> (s', left')), eg_sent := (es_principal s, d) # eg_sent e\<rparr>)"
proof -
  have "\<forall>(p, d)\<in>set (eg_sent e). pl_can_subscribe p \<and> md_tenant_id (rm_metadata (dv_message d)) = pl_tenant_id p"
    using inv by (simp add: edge_inv_def sent_ok_def)
  with d edge_inv_sessionD(2) [OF inv c] show ?thesis
    by (intro edge_inv_session [OF inv c r step left]) (auto simp: es_tenant_def)
qed

lemma edge_inv_step:
  assumes laws: "mpsc_laws ops" and step: "edge_step ops env e e'" and inv: "edge_inv ops e"
  shows "edge_inv ops e'"
proof -
  have r: "router_inv (eg_router e)" "queues_ok ops (eg_router e)"
    and sent: "\<forall>(p, d)\<in>set (eg_sent e). pl_can_subscribe p \<and> md_tenant_id (rm_metadata (dv_message d)) = pl_tenant_id p"
    using inv by (auto simp: edge_inv_def sent_ok_def)
  note session = edge_inv_session [OF inv _ r narrows_refl _ order_refl sent]
    and router = edge_inv_router_steps [OF laws inv] and opens = edge_inv_openings [OF laws inv]
  from step show ?thesis
  proof (cases rule: edge_step.cases)
    case (e_webhook_receive c cs ch n r')
    from router(4) [OF e_webhook_receive(2,4,5,6)] e_webhook_receive(1) show ?thesis by (auto intro: edge_inv_router inv)
  next
    case (e_reload aenv lres au)
    with edge_inv_api [OF inv, of "(eg_api e)\<lparr>as_authenticator := au\<rparr>" "eg_world e"] r show ?thesis by simp
  next
    case (e_handshake headers query pending)
    then have "pl_can_subscribe (fst pending)" by (cases pending) (auto dest: websocket_Inr)
    with inv e_handshake show ?thesis
      by (auto simp: edge_inv_def connections_have_sessions_def sessions_ok_def sent_ok_def)
  next
    case (e_websocket p cap c now wres st)
    then have "pl_can_subscribe p" using inv by (auto simp: edge_inv_def sent_ok_def)
    from opens(1) [OF e_websocket(3) this e_websocket(4)] e_websocket(1) show ?thesis by simp
  next
    case (e_deliver c s left ev d cs ch r' st s')
    have "router_inv r' \<and> queues_ok ops r' \<and> narrows (eg_router e) r'"
      by (rule router(4) [OF e_deliver(5,7) _ e_deliver(8), where n = 1]) (simp add: e_deliver(6))
    moreover have "md_tenant_id (rm_metadata (dv_message d)) = es_tenant s"
      using edge_inv_queue [OF inv e_deliver(2,5)] e_deliver(6) by simp
    ultimately show ?thesis
      unfolding e_deliver(1) by (intro edge_inv_deliveries [OF inv e_deliver(2) order_refl _ _ _ e_deliver(9)]) simp_all
  next
    case (e_deliver_rest c s d left ev st s')
    with edge_inv_sessionD(3) [OF inv e_deliver_rest(2)] r show ?thesis
      by (auto intro!: edge_inv_deliveries [OF inv e_deliver_rest(2) _ _ _ _ e_deliver_rest(6)])
  qed (auto intro: router(1-3) opens(2-4) edge_inv_touches [OF inv] publish_touches dest: session)
qed

interpretation eg: step_invariant "edge_step ops env" "\<lambda>e. mpsc_laws ops \<longrightarrow> edge_inv ops e" for ops env
  by unfold_locales (blast intro: edge_inv_step)

lemma edge_start_inv:
  assumes "config_usize config" and "as_router st = router_new config"
  shows "edge_inv ops (edge_start st w)"
  using router_new_inv [OF assms(1)] assms(2)
  by (simp add: edge_inv_def edge_start_def connections_have_sessions_def sessions_ok_def sent_ok_def queues_ok_def router_new_def)

lemma edge_reachable_inv:
  assumes "mpsc_laws ops" and "config_usize config" and "as_router st = router_new config"
    and "(edge_step ops env)\<^sup>*\<^sup>* (edge_start st w) e"
  shows "edge_inv ops e"
  using eg.inv_reachable [OF assms(4)] edge_start_inv [OF assms(2,3)] assms(1) by blast

end
