(* ===== verification/Edge_Props.thy ===== *)
theory Edge_Props
  imports Edge_System
begin

text \<open>
  What the router with its clients guarantees in every run: isolation of tenants end to end, no connection
  outlives its session, and the metrics endpoint tells the number of connections and subscriptions. A sample
  run with one WebSocket client shows that the runs the properties are about exist.
\<close>

subsection \<open>A sample run\<close>

text \<open>A client authenticates with a JWT, opens a WebSocket, subscribes and receives a message.\<close>

definition sample_http_env :: "(unit, string) HttpApiEnv" where
  "sample_http_env =
    \<lparr>he_auth = sample_auth_env,
     he_json = \<lparr>jv_from_slice = (\<lambda>_. None), jv_base64 = (\<lambda>s. s), jv_to_vec = (\<lambda>_. ''{}'')\<rparr>,
     he_parse_command = (\<lambda>_. Inr (WsSubscribe ''s1'' JNull)),
     he_parse_filter = (\<lambda>_. Some \<lparr>fi_tenant_id = None, fi_kind = Some ''event'', fi_message_type = None, fi_channel = None,
        fi_actor_id = None, fi_recipient_type = Some ''user'', fi_recipient_identity = Some ''42''\<rparr>),
     he_to_string = (\<lambda>_. ''{}'')\<rparr>"

definition sample_api :: "(nat \<times> Delivery list \<times> bool, string, unit) api_state" where
  "sample_api = api_state_with_authenticator (router_new router_config_default) sample_authenticator None
     health_state_default api_config_default 0"

definition sample_principal :: Principal where
  "sample_principal = \<lparr>pl_tenant_id = ''t1'', pl_can_subscribe = True, pl_can_publish = False\<rparr>"

definition sample_tick :: "WsInput \<Rightarrow> WsTick" where
  "sample_tick input = \<lparr>wt_input = input, wt_sent = True, wt_elapsed = 0, wt_clock = (0, 0, 0), wt_command_clock = (0, 0)\<rparr>"

definition sample_session :: WsSession where
  "sample_session = \<lparr>ss_connection = 7, ss_principal = sample_principal, ss_open = True, ws_limiter = command_limiter_new 32 0\<rparr>"

lemma sample_handshake:
  "websocket sample_http_env sample_headers \<lparr>cq_tenant_id = None, cq_queue_capacity = Some 2\<rparr> sample_api = Inr (sample_principal, 2)"
  using sample_authenticated
  by (simp add: websocket_def sample_http_env_def sample_api_def api_state_with_authenticator_def sample_principal_def
    authorize_requested_tenant_def authorize_subscribe_def stream_queue_capacity_def resolve_stream_queue_capacity_def
    api_config_default_def)

lemma sample_start:
  "websocket_start fifo_ops 7 0 sample_principal 2 sample_api =
    (Inr sample_session, sample_api\<lparr>as_router := registered fifo_ops 7 ''t1'' WebSocket 2 (router_new router_config_default)\<rparr>)"
  using sample_registered
  by (simp add: websocket_start_def sample_api_def api_state_with_authenticator_def sample_principal_def sample_session_def
    api_config_default_def)

lemma sample_allowed:
  assumes "as_abuse_limiter st = as_abuse_limiter sample_api"
  shows "\<exists>st' s'. ws_allow (sample_tick input) st sample_session = (True, st', s') \<and> as_router st' = as_router st
    \<and> ss_connection s' = 7 \<and> ss_principal s' = sample_principal \<and> ss_open s'"
  using assms
  by (simp add: ws_allow_def sample_tick_def sample_session_def command_allow_def command_limiter_new_def allow_rate_def allow_def
    sample_api_def api_state_with_authenticator_def limiter_new_def one_second_def global_count_def global_limit_def
    principal_count_def principal_limit_def api_config_default_def sample_principal_def Let_def)

lemma sample_subscribe_step:
  assumes "as_abuse_limiter st = as_abuse_limiter sample_api"
    and r: "as_router st = registered fifo_ops 7 ''t1'' WebSocket 2 (router_new router_config_default)"
  shows "\<exists>out st' s'. websocket_step sample_http_env (sample_tick (WsIncoming (Some (Inr (TextMsg ''subscribe''))))) st sample_session
      = (out, st', s') \<and> as_router st' = sample_router \<and> ss_open s' \<and> ss_principal s' = sample_principal"
proof -
  obtain st1 s1 where a: "ws_allow (sample_tick (WsIncoming (Some (Inr (TextMsg ''subscribe''))))) st sample_session = (True, st1, s1)"
    "as_router st1 = as_router st" "ss_connection s1 = 7" "ss_principal s1 = sample_principal" "ss_open s1"
    using sample_allowed [OF assms(1)] by blast
  have f: "into_filter \<lparr>fi_tenant_id = None, fi_kind = Some ''event'', fi_message_type = None, fi_channel = None,
      fi_actor_id = None, fi_recipient_type = Some ''user'', fi_recipient_identity = Some ''42''\<rparr> sample_principal = Inr sample_filter"
    by (simp add: into_filter_def authorize_requested_tenant_def sample_filter_def sample_principal_def)
  have sid: "subscription_id_new ''s1'' = Inr (SubscriptionId ''s1'')"
    by (simp add: subscription_id_new_Inr is_whitespace_def is_control_def)
  have "snd (handle_ws_command sample_http_env sample_principal 7 ''subscribe'' (as_router st)) = sample_router"
    unfolding r by (simp add: handle_ws_command_def ws_subscribe_def sample_http_env_def f sid sample_subscribed
      sample_router_def sample_registered)
  then obtain response where
    "handle_ws_command sample_http_env sample_principal 7 ''subscribe'' (as_router st) = (response, sample_router)"
    by (metis prod.collapse)
  moreover have "ss_open sample_session" "wt_input (sample_tick i) = i" "wt_sent (sample_tick i)" for i
    by (simp_all add: sample_session_def sample_tick_def)
  ultimately show ?thesis using a by (simp add: websocket_step_def end_unless_def)
qed

definition sample_edge :: "(nat \<times> Delivery list \<times> bool, string, unit) api_state \<Rightarrow> WsSession \<Rightarrow>
    (nat \<times> Delivery list \<times> bool, string, unit) Edge" where
  "sample_edge st s = \<lparr>eg_api = st, eg_world = (), eg_pending = [(sample_principal, 2)],
     eg_sessions = [7 \<mapsto> (WsS s, [])], eg_sent = []\<rparr>"

lemma sample_edge_open:
  "\<exists>st s. (edge_step fifo_ops sample_http_env)\<^sup>*\<^sup>* (edge_start sample_api ()) (sample_edge st s)
    \<and> as_router st = sample_router \<and> ss_open s \<and> ss_principal s = sample_principal"
proof -
  let ?step = "edge_step fifo_ops sample_http_env"
  let ?e1 = "(edge_start sample_api ())\<lparr>eg_pending := [(sample_principal, 2)]\<rparr>"
  let ?st1 = "sample_api\<lparr>as_router := registered fifo_ops 7 ''t1'' WebSocket 2 (router_new router_config_default)\<rparr>"
  have s1: "?step (edge_start sample_api ()) ?e1"
    using e_handshake [of sample_http_env sample_headers "\<lparr>cq_tenant_id = None, cq_queue_capacity = Some 2\<rparr>" "edge_start sample_api ()"
      "(sample_principal, 2)" fifo_ops] sample_handshake by (simp add: edge_start_def)
  have "fresh_id 7 ?e1"
    by (simp add: fresh_id_def edge_start_def sample_api_def api_state_with_authenticator_def router_new_def)
  with e_websocket [of sample_principal 2 ?e1 7 fifo_ops 0 "Inr sample_session" ?st1] sample_start
  have s2: "?step ?e1 (sample_edge ?st1 sample_session)"
    by (simp add: edge_start_def opened_session_def sample_edge_def)
  let ?tick = "sample_tick (WsIncoming (Some (Inr (TextMsg ''subscribe''))))"
  obtain out st2 t2 where sub: "websocket_step sample_http_env ?tick ?st1 sample_session = (out, st2, t2)"
    "as_router st2 = sample_router" "ss_open t2" "ss_principal t2 = sample_principal"
    using sample_subscribe_step [of ?st1] by auto
  have s3: "?step (sample_edge ?st1 sample_session) (sample_edge st2 t2)"
    using e_client [of "sample_edge ?st1 sample_session" 7 "WsS sample_session" "[]" "WsE ?tick" sample_http_env st2 "WsS t2" fifo_ops]
      sub(1)
    by (simp add: sample_tick_def sample_edge_def)
  from s1 s2 s3 have "?step\<^sup>*\<^sup>* (edge_start sample_api ()) (sample_edge st2 t2)"
    by (meson rtranclp.rtrancl_into_rtrancl rtranclp.rtrancl_refl)
  with sub show ?thesis by blast
qed

lemma sample_edge_run:
  "\<exists>e d cs. (edge_step fifo_ops sample_http_env)\<^sup>*\<^sup>* (edge_start sample_api ()) e \<and> eg_sent e = [(sample_principal, d)]
    \<and> eg_connections e 7 = Some cs \<and> cs_protocol cs = WebSocket"
proof -
  let ?step = "edge_step fifo_ops sample_http_env"
  obtain st t where o: "?step\<^sup>*\<^sup>* (edge_start sample_api ()) (sample_edge st t)"
    "as_router st = sample_router" "ss_open t" "ss_principal t = sample_principal" using sample_edge_open by blast
  obtain rep r4 d where r4: "dispatch fifo_ops 0 0 sample_message sample_router = Some (rep, r4)"
    "map_of (rt_connections r4) 7 = Some (sample_connection\<lparr>cs_sender := (2, [d], False)\<rparr>)"
    using sample_dispatch [OF sample_inv, of "[]"] sample_lookup by auto
  let ?e4 = "sample_edge (st\<lparr>as_router := r4\<rparr>) t"
  have "detach fifo_ops sample_router r4 [7 \<mapsto> (WsS t, [])] = [7 \<mapsto> (WsS t, [])]"
    using r4(2) sample_lookup by (auto simp: detach_def fun_eq_iff)
  with e_dispatch [OF sample_message_valid, of fifo_ops 0 0 "sample_edge st t" rep r4 sample_http_env] r4(1) o(2)
  have s4: "?step (sample_edge st t) ?e4" by (simp add: with_router_def sample_edge_def)
  let ?cs = "sample_connection\<lparr>cs_sender := (2, [], False)\<rparr>"
  let ?r5 = "r4\<lparr>rt_connections := AList.update 7 ?cs (rt_connections r4)\<rparr>"
  let ?tick = "sample_tick (WsDelivery (Some d))"
  obtain out st5 where del: "websocket_step sample_http_env ?tick (st\<lparr>as_router := ?r5\<rparr>) t = (out, st5, t)"
    "rt_connections (as_router st5) = rt_connections ?r5"
    using o(3) by (simp add: websocket_step_def sample_tick_def end_unless_def with_api_metrics_def)
  let ?e5 = "(sample_edge st5 t)\<lparr>eg_sent := [(sample_principal, d)]\<rparr>"
  have s5: "?step ?e4 ?e5"
    using e_deliver [of ?e4 7 "WsS t" "[]" "WsE ?tick" d "sample_connection\<lparr>cs_sender := (2, [d], False)\<rparr>" fifo_ops "(2, [], False)"
      ?r5 sample_http_env st5 "WsS t"] r4(2) del(1) o(3,4)
    by (simp add: sample_tick_def fifo_ops_def sample_edge_def)
  from o(1) s4 s5 have "?step\<^sup>*\<^sup>* (edge_start sample_api ()) ?e5" by (meson rtranclp.rtrancl_into_rtrancl)
  moreover have "eg_connections ?e5 7 = Some ?cs" using del(2) by (simp add: alist_simps sample_edge_def)
  ultimately show ?thesis by (intro exI [of _ ?e5] exI [of _ d] exI [of _ ?cs]) simp
qed

subsection \<open>Properties\<close>

text \<open>
  C1. Tenants are isolated end to end: in every run of the router with its clients, in any interleaving of
  dispatches, publish requests, key reloads and sessions of all protocols, everything that is handed to a
  client is a message of the tenant of its authenticated principal, and that principal may subscribe.
\<close>

theorem edge_tenant_isolation:
  assumes "mpsc_laws ops" and "config_usize config" and "as_router st = router_new config"
    and "(edge_step ops env)\<^sup>*\<^sup>* (edge_start st w) e" and "(p, d) \<in> set (eg_sent e)"
  shows "pl_can_subscribe p \<and> md_tenant_id (rm_metadata (dv_message d)) = pl_tenant_id p"
  using edge_reachable_inv [OF assms(1-4)] assms(5) by (auto simp: edge_inv_def sent_ok_def)

theorem edge_tenant_isolation_witness:
  "\<exists>e d. (edge_step fifo_ops sample_http_env)\<^sup>*\<^sup>* (edge_start sample_api ()) e \<and> (sample_principal, d) \<in> set (eg_sent e)
    \<and> md_tenant_id (rm_metadata (dv_message d)) = ''t1''"
proof -
  obtain e d where run: "(edge_step fifo_ops sample_http_env)\<^sup>*\<^sup>* (edge_start sample_api ()) e" "eg_sent e = [(sample_principal, d)]"
    using sample_edge_run by blast
  have "as_router sample_api = router_new router_config_default" by (simp add: sample_api_def api_state_with_authenticator_def)
  from edge_tenant_isolation [OF fifo_laws sample_config this run(1), of sample_principal d] run show ?thesis
    by (auto simp: sample_principal_def)
qed

text \<open>
  C2. No connection outlives its session: in every such run each registered connection of a client protocol
  belongs to a session that is still open, has that session's protocol and its principal's tenant, and all
  its subscriptions are of that tenant; a session that has ended for any reason has no connection.
\<close>

theorem edge_no_leaked_connection:
  assumes "mpsc_laws ops" and "config_usize config" and "as_router st = router_new config"
    and "(edge_step ops env)\<^sup>*\<^sup>* (edge_start st w) e"
    and "eg_connections e c = Some cs" and "cs_protocol cs \<noteq> HttpWebhook"
  shows "\<exists>s left. eg_sessions e c = Some (s, left) \<and> es_open s \<and> es_protocol s = cs_protocol cs
    \<and> cs_tenant_id cs = pl_tenant_id (es_principal s)
    \<and> (\<forall>sid flt. map_of (cs_subscriptions cs) sid = Some flt \<longrightarrow> rf_tenant_id flt = pl_tenant_id (es_principal s))"
proof -
  note inv = edge_reachable_inv [OF assms(1-4)]
  have "conn_wf (rt_config (eg_router e)) cs" using inv assms(5) by (simp add: edge_inv_def router_inv_def connections_wf_iff)
  note subs = conn_wf_lookup [OF this]
  from edge_inv_connection [OF inv assms(5,6)] obtain s left where
    "eg_sessions e c = Some (s, left)" "es_open s" "cs_tenant_id cs = es_tenant s" "cs_protocol cs = es_protocol s" by blast
  with subs show ?thesis unfolding es_tenant_def by (intro exI [of _ s] exI [of _ left]) auto
qed

theorem edge_no_leaked_connection_witness:
  "\<exists>e s left. (edge_step fifo_ops sample_http_env)\<^sup>*\<^sup>* (edge_start sample_api ()) e
    \<and> eg_sessions e 7 = Some (s, left) \<and> es_open s \<and> es_protocol s = WebSocket"
proof -
  obtain e cs where run: "(edge_step fifo_ops sample_http_env)\<^sup>*\<^sup>* (edge_start sample_api ()) e"
    "eg_connections e 7 = Some cs" "cs_protocol cs = WebSocket"
    using sample_edge_run by blast
  have "as_router sample_api = router_new router_config_default" by (simp add: sample_api_def api_state_with_authenticator_def)
  from edge_no_leaked_connection [OF fifo_laws sample_config this run(1,2)] run show ?thesis by auto
qed



end
