(* ===== verification/Load_Generator.thy ===== *)
theory Load_Generator
  imports Api_Http Api_Grpc Net_Addr
begin

text \<open>
  The load generator (\<open>tools/router-load/src/main.rs\<close>): its arguments and their validation, the recorder of
  latencies, the webhook receiver, and the WebSocket and gRPC listeners. The HDR histogram and the HTTP clients
  belong to other crates: the histogram is the record \<open>hdr_ops\<close> with the laws \<open>hdr_laws\<close>, the answers of the servers are arguments. Instants are
  numbers of microseconds. Publishing and the verdict are in \<open>Load_Run\<close>, the event-stream reader in \<open>Load_Sse\<close>.
\<close>

subsection \<open>Arguments\<close>

definition max_messages :: u64 where
  "max_messages = 10000000"

definition max_connections :: nat where
  "max_connections = 100000"

definition max_in_flight_limit :: nat where
  "max_in_flight_limit = 1024"

definition max_sse_buffer :: nat where
  "max_sse_buffer = 1048576"

definition max_latency_us :: u64 where
  "max_latency_us = 3600000000"

record LoadArgs =
  la_http_base :: string
  la_websocket_url :: string
  la_grpc_endpoint :: string
  la_bearer_token :: "string option"
  la_tenant :: string
  la_channel :: string
  la_messages :: u64
  la_rate_per_second :: "32 word"
  la_publish_workers :: nat
  la_max_in_flight :: nat
  la_websocket_connections :: nat
  la_sse_connections :: nat
  la_grpc_connections :: nat
  la_expected_webhooks_per_message :: u64
  la_webhook_listen :: "SocketAddr option"
  la_webhook_fail_every :: u64
  la_slow_reader_delay_ms :: u64
  la_publish_timeout_secs :: u64
  la_drain_timeout_secs :: u64
  la_output :: string

definition load_args_default :: LoadArgs where
  "load_args_default =
    \<lparr>la_http_base = ''http://127.0.0.1:8080'', la_websocket_url = ''ws://127.0.0.1:8080/v1/ws'',
     la_grpc_endpoint = ''http://127.0.0.1:9090'', la_bearer_token = None, la_tenant = ''tenant-load'',
     la_channel = ''load'', la_messages = 10000, la_rate_per_second = 1000, la_publish_workers = 4,
     la_max_in_flight = 128, la_websocket_connections = 1, la_sse_connections = 1, la_grpc_connections = 1,
     la_expected_webhooks_per_message = 0, la_webhook_listen = None, la_webhook_fail_every = 0,
     la_slow_reader_delay_ms = 0, la_publish_timeout_secs = 30, la_drain_timeout_secs = 30,
     la_output = ''artifacts/load-report.json''\<rparr>"

definition usize_sat_add :: "nat \<Rightarrow> nat \<Rightarrow> nat" where
  "usize_sat_add a b = min (a + b) usize_max"

definition validate_args :: "LoadArgs \<Rightarrow> string + unit" where
  "validate_args args =
    (let connections = usize_sat_add (usize_sat_add (la_websocket_connections args) (la_sse_connections args))
       (la_grpc_connections args)
     in if la_messages args = 0 \<or> la_messages args > max_messages then Inl ''messages must be within 1..=10000000''
        else if la_rate_per_second args = 0 \<or> la_publish_workers args = 0
          then Inl ''rate-per-second and publish-workers must be positive''
        else if \<not> (1 \<le> la_publish_timeout_secs args \<and> la_publish_timeout_secs args \<le> 300)
            \<or> \<not> (1 \<le> la_drain_timeout_secs args \<and> la_drain_timeout_secs args \<le> 3600)
          then Inl ''publish-timeout-secs must be 1..=300 and drain-timeout-secs must be 1..=3600''
        else if la_max_in_flight args = 0 \<or> la_max_in_flight args > max_in_flight_limit
          then Inl ''max-in-flight must be within 1..=1024''
        else if connections > max_connections then Inl ''total connections must not exceed 100000''
        else Inr ())"

subsection \<open>The recorder\<close>

datatype LoadProtocol = LoadWebSocket | LoadSse | LoadGrpc | LoadWebhook

text \<open>
  \<open>hdrhistogram::Histogram<u64>\<close>: a histogram with a highest trackable value; recording fails above it. A
  quantile is given in thousandths.
\<close>

record 'h hdr_ops =
  hd_new_with_max :: "u64 \<Rightarrow> nat \<Rightarrow> string + 'h"
  hd_record :: "u64 \<Rightarrow> 'h \<Rightarrow> string + 'h"
  hd_len :: "'h \<Rightarrow> u64"
  hd_is_empty :: "'h \<Rightarrow> bool"
  hd_high :: "'h \<Rightarrow> u64"
  hd_max :: "'h \<Rightarrow> u64"
  hd_value_at_quantile :: "'h \<Rightarrow> nat \<Rightarrow> u64"

definition hdr_laws :: "'h hdr_ops \<Rightarrow> bool" where
  "hdr_laws ops \<longleftrightarrow>
    (\<forall>high digits h. hd_new_with_max ops high digits = Inr h \<longrightarrow> hd_len ops h = 0 \<and> hd_high ops h = high)
    \<and> (\<forall>v h. v \<le> hd_high ops h \<longrightarrow>
        (\<exists>h'. hd_record ops v h = Inr h' \<and> hd_len ops h' = hd_len ops h + 1 \<and> hd_high ops h' = hd_high ops h))
    \<and> (\<forall>h. hd_is_empty ops h \<longleftrightarrow> hd_len ops h = 0)"

record 'h Recorder =
  rd_starts :: "(string \<times> nat) list"
  rd_websocket :: 'h
  rd_sse :: 'h
  rd_grpc :: 'h
  rd_webhook :: 'h

definition recorder_new :: "'h hdr_ops \<Rightarrow> string + 'h Recorder" where
  "recorder_new ops =
    and_then (hd_new_with_max ops max_latency_us 3) (\<lambda>websocket.
    and_then (hd_new_with_max ops max_latency_us 3) (\<lambda>sse.
    and_then (hd_new_with_max ops max_latency_us 3) (\<lambda>grpc.
    and_then (hd_new_with_max ops max_latency_us 3) (\<lambda>webhook.
    Inr \<lparr>rd_starts = [], rd_websocket = websocket, rd_sse = sse, rd_grpc = grpc, rd_webhook = webhook\<rparr>))))"

definition recorder_start :: "string \<Rightarrow> nat \<Rightarrow> 'h Recorder \<Rightarrow> 'h Recorder" where
  "recorder_start message_id now rd = rd\<lparr>rd_starts := AList.update message_id now (rd_starts rd)\<rparr>"

definition recorder_remove_start :: "string \<Rightarrow> 'h Recorder \<Rightarrow> 'h Recorder" where
  "recorder_remove_start message_id rd = rd\<lparr>rd_starts := AList.delete message_id (rd_starts rd)\<rparr>"

definition recorder_histogram :: "LoadProtocol \<Rightarrow> 'h Recorder \<Rightarrow> 'h" where
  "recorder_histogram protocol rd =
    (case protocol of
       LoadWebSocket \<Rightarrow> rd_websocket rd | LoadSse \<Rightarrow> rd_sse rd | LoadGrpc \<Rightarrow> rd_grpc rd | LoadWebhook \<Rightarrow> rd_webhook rd)"

definition with_histogram :: "LoadProtocol \<Rightarrow> 'h \<Rightarrow> 'h Recorder \<Rightarrow> 'h Recorder" where
  "with_histogram protocol h rd =
    (case protocol of
       LoadWebSocket \<Rightarrow> rd\<lparr>rd_websocket := h\<rparr> | LoadSse \<Rightarrow> rd\<lparr>rd_sse := h\<rparr> | LoadGrpc \<Rightarrow> rd\<lparr>rd_grpc := h\<rparr>
     | LoadWebhook \<Rightarrow> rd\<lparr>rd_webhook := h\<rparr>)"

definition recorder_record :: "'h hdr_ops \<Rightarrow> LoadProtocol \<Rightarrow> string \<Rightarrow> nat \<Rightarrow> 'h Recorder \<Rightarrow> 'h Recorder" where
  "recorder_record ops protocol message_id now rd =
    (case map_of (rd_starts rd) message_id of
       None \<Rightarrow> rd
     | Some started \<Rightarrow>
         let micros = now - started;
             latency = min (if micros < 2 ^ 64 then of_nat micros else max_latency_us) max_latency_us
         in (case hd_record ops latency (recorder_histogram protocol rd) of
               Inl _ \<Rightarrow> rd
             | Inr h \<Rightarrow> with_histogram protocol h rd))"

definition recorder_count :: "'h hdr_ops \<Rightarrow> LoadProtocol \<Rightarrow> 'h Recorder \<Rightarrow> u64" where
  "recorder_count ops protocol rd = hd_len ops (recorder_histogram protocol rd)"

record ProtocolReport =
  pt_expected :: u64
  pt_received :: u64
  pt_p50_us :: "u64 option"
  pt_p95_us :: "u64 option"
  pt_p99_us :: "u64 option"
  pt_p999_us :: "u64 option"
  pt_max_us :: "u64 option"

definition percentile :: "'h hdr_ops \<Rightarrow> 'h \<Rightarrow> nat \<Rightarrow> u64 option" where
  "percentile ops h quantile = (if hd_is_empty ops h then None else Some (hd_value_at_quantile ops h quantile))"

definition recorder_report :: "'h hdr_ops \<Rightarrow> LoadProtocol \<Rightarrow> u64 \<Rightarrow> 'h Recorder \<Rightarrow> ProtocolReport" where
  "recorder_report ops protocol expected rd =
    (let h = recorder_histogram protocol rd
     in \<lparr>pt_expected = expected, pt_received = hd_len ops h, pt_p50_us = percentile ops h 500,
         pt_p95_us = percentile ops h 950, pt_p99_us = percentile ops h 990, pt_p999_us = percentile ops h 999,
         pt_max_us = (if hd_is_empty ops h then None else Some (hd_max ops h))\<rparr>)"

subsection \<open>The webhook receiver\<close>

text \<open>\<open>pointer("/message/metadata/message_id").and_then(Value::as_str)\<close>.\<close>

definition message_id_of :: "Json \<Rightarrow> string option" where
  "message_id_of v =
    (case Option.bind (Option.bind (member ''message'' v) (member ''metadata'')) (member ''message_id'') of
       Some (JStr message_id) \<Rightarrow> Some message_id
     | _ \<Rightarrow> None)"

record WebhookReceiver =
  wr_attempts :: u64
  wr_fail_every :: u64

text \<open>The answer's status and the message the receiver records.\<close>

definition webhook_handler :: "Json \<Rightarrow> WebhookReceiver \<Rightarrow> nat \<times> string option \<times> WebhookReceiver" where
  "webhook_handler envelope state =
    (let attempt = wr_attempts state + 1; state = state\<lparr>wr_attempts := attempt\<rparr>
     in if wr_fail_every state > 0 \<and> attempt mod wr_fail_every state = 0 then (503, None, state)
        else (case message_id_of envelope of
            Some message_id \<Rightarrow> (204, Some message_id, state)
          | None \<Rightarrow> (400, None, state)))"

subsection \<open>Listeners\<close>

text \<open>What a listener does: it records a message, and sleeps when readers are to be slow.\<close>

datatype LoadAction = RecordMessage LoadProtocol string | SleepMs u64

definition reader_delay :: "u64 \<Rightarrow> LoadAction list" where
  "reader_delay delay_ms = (if delay_ms > 0 then [SleepMs delay_ms] else [])"

definition record_and_delay :: "LoadArgs \<Rightarrow> LoadProtocol \<Rightarrow> string \<Rightarrow> LoadAction list" where
  "record_and_delay args protocol message_id = RecordMessage protocol message_id # reader_delay (la_slow_reader_delay_ms args)"

text \<open>\<open>HeaderValue::from_str\<close> is \<open>header_value\<close>.\<close>

definition authorization :: "(string \<Rightarrow> string option) \<Rightarrow> string option \<Rightarrow> string + string option" where
  "authorization header_value token =
    (case token of
       None \<Rightarrow> Inr None
     | Some v \<Rightarrow> map_sum id Some (ok_or ''bearer token is not a valid HTTP header value'' (header_value (''Bearer '' @ v))))"

definition websocket_subscribe_json :: "LoadArgs \<Rightarrow> nat \<Rightarrow> Json" where
  "websocket_subscribe_json args index = JObj
    [(''operation'', JStr ''subscribe''), (''subscription_id'', JStr (''load-ws-'' @ show_nat index)),
     (''filter'', JObj [(''tenant_id'', JStr (la_tenant args)), (''channel'', JStr (la_channel args))])]"

text \<open>The frames of the socket in order; the listener ends at an error, or when the socket does.\<close>

fun websocket_frames ::
  "(string \<Rightarrow> Json option) \<Rightarrow> LoadArgs \<Rightarrow> (string + WsMessage) list \<Rightarrow> LoadAction list \<times> (string + unit)" where
  "websocket_frames from_str args [] = ([], Inr ())"
| "websocket_frames from_str args (Inl error # frames) = ([], Inl error)"
| "websocket_frames from_str args (Inr (TextMsg s) # frames) =
    (case from_str s of
       None \<Rightarrow> ([], Inl ''invalid JSON'')
     | Some v \<Rightarrow>
         let now = (case message_id_of v of Some message_id \<Rightarrow> record_and_delay args LoadWebSocket message_id | None \<Rightarrow> [])
         in (case websocket_frames from_str args frames of (later, res) \<Rightarrow> (now @ later, res)))"
| "websocket_frames from_str args (Inr _ # frames) = websocket_frames from_str args frames"

text \<open>
  \<open>client_request\<close> is \<open>into_client_request\<close>; \<open>connect\<close> sends the request with its token and then the command, and
  gives the frames received.
\<close>

definition websocket_listener ::
  "(string \<Rightarrow> string + 'req) \<Rightarrow> (string \<Rightarrow> string option) \<Rightarrow> ('req \<Rightarrow> string option \<Rightarrow> Json \<Rightarrow> string + (string + WsMessage) list)
   \<Rightarrow> (string \<Rightarrow> Json option) \<Rightarrow> LoadArgs \<Rightarrow> nat \<Rightarrow> LoadAction list \<times> (string + unit)" where
  "websocket_listener client_request header_value connect from_str args index =
    (case and_then (client_request (la_websocket_url args)) (\<lambda>request.
        and_then (authorization header_value (la_bearer_token args)) (\<lambda>token.
        connect request token (websocket_subscribe_json args index))) of
       Inl error \<Rightarrow> ([], Inl error)
     | Inr frames \<Rightarrow> websocket_frames from_str args frames)"

definition grpc_subscribe_request :: "LoadArgs \<Rightarrow> nat \<Rightarrow> SubscribeRequest" where
  "grpc_subscribe_request args index =
    \<lparr>sr_subscription_id = ''load-grpc-'' @ show_nat index,
     sr_filter = Some \<lparr>pf_tenant_id = la_tenant args, pf_kind = None, pf_message_type = None,
       pf_channel = Some (la_channel args), pf_actor_id = None, pf_recipient_type = None, pf_recipient_identity = None\<rparr>,
     sr_queue_capacity = None\<rparr>"

text \<open>A received event: every part of a protobuf message may be absent.\<close>

record ReceivedRouted =
  rv_metadata :: "RoutingMetadata option"

datatype ReceivedEvent = MessageReceived "ReceivedRouted option" | OtherReceived

fun grpc_events :: "LoadArgs \<Rightarrow> (string + ReceivedEvent option) list \<Rightarrow> LoadAction list \<times> (string + unit)" where
  "grpc_events args [] = ([], Inr ())"
| "grpc_events args (Inl error # events) = ([], Inl error)"
| "grpc_events args (Inr (Some (MessageReceived message)) # events) =
    (let now = (case map_option md_message_id (Option.bind message rv_metadata) of
           Some message_id \<Rightarrow> record_and_delay args LoadGrpc message_id
         | None \<Rightarrow> [])
     in (case grpc_events args events of (later, res) \<Rightarrow> (now @ later, res)))"
| "grpc_events args (Inr _ # events) = grpc_events args events"

text \<open>\<open>connect\<close> opens the channel; the token travels as metadata, parsed by \<open>parse\<close>; \<open>call\<close> is \<open>subscribe\<close>.\<close>

definition grpc_listener ::
  "(string \<Rightarrow> string + 'ch) \<Rightarrow> (string \<Rightarrow> string option)
   \<Rightarrow> ('ch \<Rightarrow> string option \<Rightarrow> SubscribeRequest \<Rightarrow> string + (string + ReceivedEvent option) list)
   \<Rightarrow> LoadArgs \<Rightarrow> nat \<Rightarrow> LoadAction list \<times> (string + unit)" where
  "grpc_listener connect parse call args index =
    (case and_then (connect (la_grpc_endpoint args)) (\<lambda>channel.
        and_then (case la_bearer_token args of
          None \<Rightarrow> Inr None
        | Some token \<Rightarrow> map_sum id Some (ok_or ''invalid gRPC token'' (parse (''Bearer '' @ token)))) (\<lambda>token.
        call channel token (grpc_subscribe_request args index))) of
       Inl error \<Rightarrow> ([], Inl error)
     | Inr events \<Rightarrow> grpc_events args events)"

end
