(* ===== verification/Load_Run.thy ===== *)
theory Load_Run
  imports Load_Generator Systems
begin

text \<open>
  A run of the load generator (\<open>publish_worker\<close>, \<open>expected_complete\<close> and \<open>main\<close> in
  \<open>tools/router-load/src/main.rs\<close>): the producer that fills the bounded queue, the workers that take items
  from it and publish them, the deliveries that arrive meanwhile, the wait for the remaining ones and the
  report. The tasks run concurrently: one atomic action of any of them is one \<open>LoadEvent\<close>, and
  the pace of the producer is any. How \<open>main\<close> puts these parts together is in \<open>Load_Main\<close>.
\<close>

subsection \<open>Publishing\<close>

definition trim_end_matches :: "char \<Rightarrow> string \<Rightarrow> string" where
  "trim_end_matches c s = rev (dropWhile (\<lambda>x. x = c) (rev s))"

record PublishItem =
  pi_message_id :: string
  pi_sequence :: nat

definition load_message_id :: "string \<Rightarrow> nat \<Rightarrow> string" where
  "load_message_id run_id sequence = ''load-'' @ run_id @ ''-'' @ show_nat sequence"

text \<open>The request a worker sends: its URL, its body and the bearer token.\<close>

definition publish_request :: "LoadArgs \<Rightarrow> PublishItem \<Rightarrow> string \<times> Json \<times> string option" where
  "publish_request args item =
    (trim_end_matches CHR ''/'' (la_http_base args) @ ''/v1/publish'',
     JObj [(''message_id'', JStr (pi_message_id item)), (''tenant_id'', JStr (la_tenant args)),
       (''channel'', JStr (la_channel args)), (''content_type'', JStr ''application/json''),
       (''payload'', JObj [(''sequence'', JInt (int (pi_sequence item)))])],
     la_bearer_token args)"

text \<open>\<open>ln_busy\<close> holds the items that workers are publishing, \<open>ln_closed\<close> says that the sender is dropped.\<close>

record 'h LoadRun =
  ln_recorder :: "'h Recorder"
  ln_next :: nat
  ln_closed :: bool
  ln_queue :: "PublishItem list"
  ln_busy :: "PublishItem list"
  ln_successes :: u64
  ln_failures :: u64

definition load_start :: "'h Recorder \<Rightarrow> 'h LoadRun" where
  "load_start rd = \<lparr>ln_recorder = rd, ln_next = 0, ln_closed = False, ln_queue = [], ln_busy = [],
     ln_successes = 0, ln_failures = 0\<rparr>"

text \<open>The producer: \<open>send\<close> waits while the queue is full; after the last item the sender is dropped.\<close>

definition send_item :: "LoadArgs \<Rightarrow> string \<Rightarrow> 'h LoadRun \<Rightarrow> 'h LoadRun option" where
  "send_item args run_id s =
    (if \<not> ln_closed s \<and> ln_next s < unat (la_messages args) \<and> length (ln_queue s) < la_max_in_flight args
     then Some (s\<lparr>ln_queue := ln_queue s @
         [\<lparr>pi_message_id = load_message_id run_id (ln_next s), pi_sequence = ln_next s\<rparr>], ln_next := Suc (ln_next s)\<rparr>)
     else None)"

definition drop_sender :: "LoadArgs \<Rightarrow> 'h LoadRun \<Rightarrow> 'h LoadRun option" where
  "drop_sender args s =
    (if \<not> ln_closed s \<and> ln_next s = unat (la_messages args) then Some (s\<lparr>ln_closed := True\<rparr>) else None)"

text \<open>A worker: it takes an item and starts its clock; later it has the answer of the server.\<close>

definition take_item :: "LoadArgs \<Rightarrow> nat \<Rightarrow> 'h LoadRun \<Rightarrow> 'h LoadRun option" where
  "take_item args now s =
    (case ln_queue s of
       [] \<Rightarrow> None
     | item # queue \<Rightarrow>
         if length (ln_busy s) < la_publish_workers args
         then Some (s\<lparr>ln_queue := queue, ln_busy := ln_busy s @ [item],
           ln_recorder := recorder_start (pi_message_id item) now (ln_recorder s)\<rparr>)
         else None)"

definition publish_done :: "nat \<Rightarrow> bool \<Rightarrow> 'h LoadRun \<Rightarrow> 'h LoadRun option" where
  "publish_done i ok s =
    (if i < length (ln_busy s) then
       let item = ln_busy s ! i; s = s\<lparr>ln_busy := take i (ln_busy s) @ drop (Suc i) (ln_busy s)\<rparr>
       in if ok then Some (s\<lparr>ln_successes := ln_successes s + 1\<rparr>)
          else Some (s\<lparr>ln_recorder := recorder_remove_start (pi_message_id item) (ln_recorder s),
                       ln_failures := ln_failures s + 1\<rparr>)
     else None)"

datatype LoadEvent =
    SendItem
  | DropSender
  | TakeItem nat
  | PublishDone nat bool
  | Receive LoadProtocol string nat

definition load_apply :: "'h hdr_ops \<Rightarrow> LoadArgs \<Rightarrow> string \<Rightarrow> LoadEvent \<Rightarrow> 'h LoadRun \<Rightarrow> 'h LoadRun option" where
  "load_apply ops args run_id ev s =
    (case ev of
       SendItem \<Rightarrow> send_item args run_id s
     | DropSender \<Rightarrow> drop_sender args s
     | TakeItem now \<Rightarrow> take_item args now s
     | PublishDone i ok \<Rightarrow> publish_done i ok s
     | Receive protocol message_id now \<Rightarrow>
         Some (s\<lparr>ln_recorder := recorder_record ops protocol message_id now (ln_recorder s)\<rparr>))"

fun load_exec :: "'h hdr_ops \<Rightarrow> LoadArgs \<Rightarrow> string \<Rightarrow> LoadEvent list \<Rightarrow> 'h LoadRun \<Rightarrow> 'h LoadRun option" where
  "load_exec ops args run_id [] s = Some s"
| "load_exec ops args run_id (ev # evs) s = Option.bind (load_apply ops args run_id ev s) (load_exec ops args run_id evs)"

inductive load_step :: "'h hdr_ops \<Rightarrow> LoadArgs \<Rightarrow> string \<Rightarrow> 'h LoadRun \<Rightarrow> 'h LoadRun \<Rightarrow> bool" for ops args run_id where
  load_event: "load_apply ops args run_id ev s = Some t \<Longrightarrow> load_step ops args run_id s t"

inductive_cases load_stepE: "load_step ops args run_id s t"

text \<open>The workers have returned: the sender is dropped, the queue is empty and no request is open.\<close>

definition load_finished :: "'h LoadRun \<Rightarrow> bool" where
  "load_finished s \<longleftrightarrow> ln_closed s \<and> ln_queue s = [] \<and> ln_busy s = []"

subsection \<open>The verdict\<close>

definition expected_complete :: "'h hdr_ops \<Rightarrow> 'h Recorder \<Rightarrow> u64 \<Rightarrow> LoadArgs \<Rightarrow> bool" where
  "expected_complete ops rd successful args \<longleftrightarrow>
    recorder_count ops LoadWebSocket rd \<ge> sat_mul successful (of_nat (la_websocket_connections args))
    \<and> recorder_count ops LoadSse rd \<ge> sat_mul successful (of_nat (la_sse_connections args))
    \<and> recorder_count ops LoadGrpc rd \<ge> sat_mul successful (of_nat (la_grpc_connections args))
    \<and> recorder_count ops LoadWebhook rd \<ge> sat_mul successful (la_expected_webhooks_per_message args)"

text \<open>
  The wait for deliveries: poll \<open>k\<close> sees the recorder \<open>rd k\<close> at the millisecond \<open>now k\<close>. The result is the
  number of the last poll, \<open>None\<close> when the fuel does not suffice.
\<close>

fun drain_loop :: "nat \<Rightarrow> 'h hdr_ops \<Rightarrow> LoadArgs \<Rightarrow> u64 \<Rightarrow> nat \<Rightarrow> (nat \<Rightarrow> nat) \<Rightarrow> (nat \<Rightarrow> 'h Recorder) \<Rightarrow> nat \<Rightarrow> nat option" where
  "drain_loop 0 ops args successful deadline now rd k = None"
| "drain_loop (Suc fuel) ops args successful deadline now rd k =
    (if \<not> expected_complete ops (rd k) successful args \<and> now k < deadline
     then drain_loop fuel ops args successful deadline now rd (Suc k) else Some k)"

text \<open>The throughput is a fraction: successful publishes over the elapsed nanoseconds.\<close>

record RunReport =
  rp_schema_version :: nat
  rp_run_id :: string
  rp_started_unix_ms :: nat
  rp_elapsed_ms :: nat
  rp_successful_publishes :: u64
  rp_failed_publishes :: u64
  rp_publish_throughput :: "nat \<times> nat"
  rp_logical_cpus :: nat
  rp_os :: string
  rp_arch :: string
  rp_args :: LoadArgs
  rp_websocket :: ProtocolReport
  rp_sse :: ProtocolReport
  rp_grpc :: ProtocolReport
  rp_webhook :: ProtocolReport

record LoadHost =
  lh_logical_cpus :: nat
  lh_os :: string
  lh_arch :: string

text \<open>\<open>None\<close> is the panic of \<open>u32::try_from(successful).expect(..)\<close>.\<close>

definition run_report ::
  "'h hdr_ops \<Rightarrow> LoadHost \<Rightarrow> LoadArgs \<Rightarrow> string \<Rightarrow> nat \<Rightarrow> nat \<Rightarrow> u64 \<Rightarrow> u64 \<Rightarrow> 'h Recorder \<Rightarrow> RunReport option" where
  "run_report ops host args run_id started_unix_ms elapsed_nanos successful failed rd =
    (if unat successful < 2 ^ 32 then
       Some \<lparr>rp_schema_version = 1, rp_run_id = run_id, rp_started_unix_ms = started_unix_ms,
         rp_elapsed_ms = elapsed_nanos div 1000000, rp_successful_publishes = successful, rp_failed_publishes = failed,
         rp_publish_throughput = (unat successful, elapsed_nanos), rp_logical_cpus = lh_logical_cpus host,
         rp_os = lh_os host, rp_arch = lh_arch host, rp_args = args,
         rp_websocket = recorder_report ops LoadWebSocket (sat_mul successful (of_nat (la_websocket_connections args))) rd,
         rp_sse = recorder_report ops LoadSse (sat_mul successful (of_nat (la_sse_connections args))) rd,
         rp_grpc = recorder_report ops LoadGrpc (sat_mul successful (of_nat (la_grpc_connections args))) rd,
         rp_webhook = recorder_report ops LoadWebhook (sat_mul successful (la_expected_webhooks_per_message args)) rd\<rparr>
     else None)"

definition load_verdict :: "'h hdr_ops \<Rightarrow> LoadArgs \<Rightarrow> 'h LoadRun \<Rightarrow> string + unit" where
  "load_verdict ops args s =
    (if ln_failures s > 0 \<or> \<not> expected_complete ops (ln_recorder s) (ln_successes s) args
     then Inl (''load run failed: '' @ show_nat (unat (ln_failures s)) @ '' publish failures or incomplete protocol delivery'')
     else Inr ())"

text \<open>Before publishing, after one second: a listener that has ended is an error.\<close>

datatype ListenerState = Running | Panicked | Ended "string + unit"

fun check_listeners :: "ListenerState list \<Rightarrow> string + unit" where
  "check_listeners [] = Inr ()"
| "check_listeners (Running # ls) = check_listeners ls"
| "check_listeners (Panicked # ls) = Inl ''listener task panicked''"
| "check_listeners (Ended res # ls) = and_then res (\<lambda>_. Inl ''a listener exited before publishing started'')"

lemma check_listeners_Inr: "check_listeners ls = Inr () \<longleftrightarrow> (\<forall>l\<in>set ls. l = Running)"
  by (induction ls rule: check_listeners.induct) (auto simp: result_simps)

subsection \<open>Accounting\<close>

definition counts_ok :: "LoadArgs \<Rightarrow> 'h LoadRun \<Rightarrow> bool" where
  "counts_ok args s \<longleftrightarrow>
    ln_next s \<le> unat (la_messages args)
    \<and> unat (ln_successes s) + unat (ln_failures s) + length (ln_queue s) + length (ln_busy s) = ln_next s
    \<and> length (ln_queue s) \<le> la_max_in_flight args \<and> length (ln_busy s) \<le> la_publish_workers args
    \<and> (ln_closed s \<longrightarrow> ln_next s = unat (la_messages args))"

text \<open>Of the first \<open>n\<close> messages of the run: items, each sequence number once, and started clocks.\<close>

definition items_ok :: "string \<Rightarrow> nat \<Rightarrow> PublishItem list \<Rightarrow> bool" where
  "items_ok run_id n items \<longleftrightarrow> distinct (map pi_sequence items)
    \<and> (\<forall>item\<in>set items. pi_sequence item < n \<and> pi_message_id item = load_message_id run_id (pi_sequence item))"

definition starts_ok :: "string \<Rightarrow> nat \<Rightarrow> 'h Recorder \<Rightarrow> bool" where
  "starts_ok run_id n rd \<longleftrightarrow>
    (\<forall>message_id started. map_of (rd_starts rd) message_id = Some started \<longrightarrow>
      (\<exists>sequence < n. message_id = load_message_id run_id sequence))"

definition load_inv :: "LoadArgs \<Rightarrow> string \<Rightarrow> 'h LoadRun \<Rightarrow> bool" where
  "load_inv args run_id s \<longleftrightarrow> counts_ok args s \<and> items_ok run_id (ln_next s) (ln_busy s @ ln_queue s)
    \<and> starts_ok run_id (ln_next s) (ln_recorder s)"

lemma load_message_id_inj: "load_message_id run_id a = load_message_id run_id b \<longleftrightarrow> a = b"
  by (auto simp: load_message_id_def dest: show_nat_inj)

lemma record_starts [simp]: "rd_starts (recorder_record ops protocol message_id now rd) = rd_starts rd"
  by (simp add: recorder_record_def with_histogram_def Let_def split: option.split sum.split LoadProtocol.split)

lemma unat_Suc: "unat w < n \<Longrightarrow> n \<le> unat (m :: u64) \<Longrightarrow> unat (w + 1 :: u64) = Suc (unat w)"
  using unsigned_less [of m, where ?'a = nat] by (simp add: unat_word_ariths)

lemma items_ok_snoc:
  "items_ok run_id n items \<Longrightarrow>
    items_ok run_id (Suc n) (items @ [\<lparr>pi_message_id = load_message_id run_id n, pi_sequence = n\<rparr>])"
  by (auto simp: items_ok_def less_Suc_eq)

lemma items_ok_remove: "items_ok run_id n (xs @ x # ys) \<Longrightarrow> items_ok run_id n (xs @ ys)"
  by (auto simp: items_ok_def)

lemma items_ok_member:
  "items_ok run_id n (xs @ x # ys) \<Longrightarrow> \<exists>sequence < n. pi_message_id x = load_message_id run_id sequence"
  by (auto simp: items_ok_def)

lemma starts_ok_Suc: "starts_ok run_id n rd \<Longrightarrow> starts_ok run_id (Suc n) rd"
  unfolding starts_ok_def using less_SucI by blast

lemma send_item_inv: "load_inv args run_id s \<Longrightarrow> send_item args run_id s = Some t \<Longrightarrow> load_inv args run_id t"
  using items_ok_snoc [of run_id "ln_next s" "ln_busy s @ ln_queue s"]
  by (auto simp: load_inv_def counts_ok_def send_item_def intro: starts_ok_Suc split: if_splits)

lemma drop_sender_inv: "load_inv args run_id s \<Longrightarrow> drop_sender args s = Some t \<Longrightarrow> load_inv args run_id t"
  by (auto simp: load_inv_def counts_ok_def drop_sender_def split: if_splits)

lemma take_item_inv: "load_inv args run_id s \<Longrightarrow> take_item args now s = Some t \<Longrightarrow> load_inv args run_id t"
  by (auto simp: load_inv_def counts_ok_def starts_ok_def take_item_def recorder_start_def alist_simps
      split: list.splits if_splits intro: items_ok_member)

lemma publish_done_inv:
  assumes inv: "load_inv args run_id s" and "publish_done i ok s = Some t"
  shows "load_inv args run_id t"
proof -
  have i: "i < length (ln_busy s)" using assms(2) by (auto simp: publish_done_def split: if_splits)
  have "ln_busy s @ ln_queue s = take i (ln_busy s) @ ln_busy s ! i # drop (Suc i) (ln_busy s) @ ln_queue s"
    by (metis append.assoc append_Cons id_take_nth_drop [OF i])
  with inv items_ok_remove have "items_ok run_id (ln_next s) ((take i (ln_busy s) @ drop (Suc i) (ln_busy s)) @ ln_queue s)"
    by (fastforce simp: load_inv_def)
  moreover have "unat (ln_successes s) + unat (ln_failures s) < ln_next s" "ln_next s \<le> unat (la_messages args)"
    using inv i by (auto simp: load_inv_def counts_ok_def)
  then have "unat (ln_successes s + 1) = Suc (unat (ln_successes s))" "unat (ln_failures s + 1) = Suc (unat (ln_failures s))"
    using unat_Suc [of _ "ln_next s"] by auto
  ultimately show ?thesis using inv assms(2) i
    by (auto simp: load_inv_def counts_ok_def starts_ok_def publish_done_def recorder_remove_start_def alist_simps Let_def
        split: if_splits)
qed

interpretation ln: step_invariant "load_step ops args run_id" "load_inv args run_id" for ops args run_id
proof
  fix s t assume inv: "load_inv args run_id s" and "load_step ops args run_id s t"
  then obtain ev where "load_apply ops args run_id ev s = Some t" by (auto elim: load_stepE)
  with inv show "load_inv args run_id t"
    by (auto simp: load_apply_def split: LoadEvent.splits
        intro: send_item_inv drop_sender_inv take_item_inv publish_done_inv) (auto simp: load_inv_def counts_ok_def starts_ok_def)
qed

lemma load_start_inv: "rd_starts rd = [] \<Longrightarrow> load_inv args run_id (load_start rd)"
  by (simp add: load_inv_def counts_ok_def items_ok_def starts_ok_def load_start_def)

lemma recorder_new_starts: "recorder_new ops = Inr rd \<Longrightarrow> rd_starts rd = []"
  by (auto simp: recorder_new_def result_simps)

lemma load_reachable_inv:
  "recorder_new ops = Inr rd \<Longrightarrow> (load_step ops args run_id)\<^sup>*\<^sup>* (load_start rd) s \<Longrightarrow> load_inv args run_id s"
  using ln.inv_reachable load_start_inv recorder_new_starts by blast

lemma validated:
  assumes "validate_args args = Inr ()"
  shows "0 < unat (la_messages args)" "unat (la_messages args) \<le> 10000000" "0 < la_publish_workers args"
    "0 < la_max_in_flight args" "la_max_in_flight args \<le> 1024"
    "la_websocket_connections args + la_sse_connections args + la_grpc_connections args \<le> 100000"
proof -
  show "0 < unat (la_messages args)" "unat (la_messages args) \<le> 10000000"
    using assms by (auto simp: validate_args_def Let_def max_messages_def word_le_nat_alt not_less unat_gt_0 split: if_splits)
  show "0 < la_publish_workers args" "0 < la_max_in_flight args" "la_max_in_flight args \<le> 1024"
    "la_websocket_connections args + la_sse_connections args + la_grpc_connections args \<le> 100000"
    using assms by (auto simp: validate_args_def Let_def max_in_flight_limit_def max_connections_def usize_sat_add_def
        usize_max_def split: if_splits)
qed

subsection \<open>Progress\<close>

definition load_work :: "LoadArgs \<Rightarrow> 'h LoadRun \<Rightarrow> nat" where
  "load_work args s = 3 * (unat (la_messages args) - ln_next s) + 2 * length (ln_queue s) + length (ln_busy s)
    + (if ln_closed s then 0 else 1)"

definition is_receive :: "LoadEvent \<Rightarrow> bool" where
  "is_receive ev \<longleftrightarrow> (case ev of Receive _ _ _ \<Rightarrow> True | _ \<Rightarrow> False)"

lemma load_work_decreases:
  assumes "load_apply ops args run_id ev s = Some t"
  shows "load_work args t + (if is_receive ev then 0 else 1) = load_work args s"
proof (cases ev)
  case (PublishDone i ok)
  with assms show ?thesis
    by (auto simp: load_work_def load_apply_def is_receive_def publish_done_def Let_def split: if_splits)
qed (use assms in \<open>auto simp: load_work_def load_apply_def is_receive_def send_item_def drop_sender_def take_item_def
  split: if_splits list.splits\<close>)

lemma load_enabled:
  assumes "load_inv args run_id s" and "\<not> load_finished s" and "0 < la_publish_workers args" "0 < la_max_in_flight args"
  shows "\<exists>ev t. \<not> is_receive ev \<and> load_apply ops args run_id ev s = Some t"
proof (cases "ln_busy s")
  case (Cons item busy)
  then show ?thesis by (intro exI [of _ "PublishDone 0 True"]) (simp add: is_receive_def load_apply_def publish_done_def)
next
  case Nil
  show ?thesis
  proof (cases "ln_queue s")
    case (Cons item queue)
    with Nil assms(3) show ?thesis by (intro exI [of _ "TakeItem 0"]) (simp add: is_receive_def load_apply_def take_item_def)
  next
    case empty: Nil
    with Nil assms(2) have unclosed: "\<not> ln_closed s" by (simp add: load_finished_def)
    show ?thesis
    proof (cases "ln_next s < unat (la_messages args)")
      case True
      with empty unclosed assms(4) show ?thesis by (intro exI [of _ SendItem]) (simp add: is_receive_def load_apply_def send_item_def)
    next
      case False
      with assms(1) have "ln_next s = unat (la_messages args)" by (simp add: load_inv_def counts_ok_def)
      with unclosed show ?thesis by (intro exI [of _ DropSender]) (simp add: is_receive_def load_apply_def drop_sender_def)
    qed
  qed
qed

lemma load_exec_reaches: "load_exec ops args run_id evs s = Some t \<Longrightarrow> (load_step ops args run_id)\<^sup>*\<^sup>* s t"
proof (induction evs arbitrary: s)
  case (Cons ev evs)
  then obtain u where "load_apply ops args run_id ev s = Some u" "load_exec ops args run_id evs u = Some t"
    by (auto simp: bind_eq_Some_conv)
  with Cons.IH show ?case by (meson converse_rtranclp_into_rtranclp load_event)
qed simp

lemma load_exec_work:
  "load_exec ops args run_id evs s = Some t \<Longrightarrow>
    load_work args t + length (filter (\<lambda>ev. \<not> is_receive ev) evs) = load_work args s"
proof (induction evs arbitrary: s)
  case (Cons ev evs)
  then obtain u where "load_apply ops args run_id ev s = Some u" "load_exec ops args run_id evs u = Some t"
    by (auto simp: bind_eq_Some_conv)
  with Cons.IH [of u] load_work_decreases [of ops args run_id ev s u] show ?case by (auto split: if_splits)
qed simp

text \<open>Some run from any state that satisfies the invariant ends; the workers return.\<close>

lemma load_can_finish:
  assumes "load_inv args run_id s" and "0 < la_publish_workers args" "0 < la_max_in_flight args"
  shows "\<exists>evs t. load_exec ops args run_id evs s = Some t \<and> load_finished t"
  using assms(1)
proof (induction "load_work args s" arbitrary: s rule: less_induct)
  case less
  show ?case
  proof (cases "load_finished s")
    case True
    then show ?thesis by (intro exI [of _ "[]"]) simp
  next
    case False
    obtain ev u where ev: "\<not> is_receive ev" "load_apply ops args run_id ev s = Some u"
      using load_enabled [OF less.prems False assms(2,3)] by blast
    have "load_inv args run_id u" using ln.inv_step [OF less.prems load_event [OF ev(2)]] .
    moreover have "load_work args u < load_work args s" using load_work_decreases [OF ev(2)] ev(1) by simp
    ultimately obtain evs t where "load_exec ops args run_id evs u = Some t" "load_finished t" using less.hyps by blast
    with ev show ?thesis by (intro exI [of _ "ev # evs"]) auto
  qed
qed

subsection \<open>The verdict\<close>

lemma sat_mul_small: "unat a * n < 2 ^ 64 \<Longrightarrow> unat (sat_mul a (of_nat n :: u64)) = unat a * n \<or> a = 0"
proof -
  assume small: "unat a * n < 2 ^ 64"
  show ?thesis
  proof (cases "a = 0")
    case False
    then have "0 < unat a" by (simp add: unat_gt_0)
    with small have "n < 2 ^ 64" by (cases "unat a") auto
    then have "unat (of_nat n :: u64) = n" by (simp add: unat_of_nat)
    with small show ?thesis by (simp add: unat_sat_mul)
  qed simp
qed

text \<open>
  The wait ends: polls are at least 100 ms apart, so ten polls for each second of the timeout, and one more, are
  enough fuel. It ends with everything received, or after the deadline.
\<close>

lemma drain_loop_ends:
  assumes "\<forall>k. now k + 100 \<le> now (Suc k)" and "deadline \<le> now k + 100 * fuel"
  shows "\<exists>j. drain_loop (Suc fuel) ops args successful deadline now rd k = Some j \<and> j \<le> k + fuel
    \<and> (expected_complete ops (rd j) successful args \<or> deadline \<le> now j)"
  using assms(2)
proof (induction fuel arbitrary: k)
  case 0
  then show ?case by simp
next
  case (Suc fuel)
  show ?case
  proof (cases "\<not> expected_complete ops (rd k) successful args \<and> now k < deadline")
    case True
    have "deadline \<le> now (Suc k) + 100 * fuel" using Suc.prems assms(1) [rule_format, of k] by simp
    from Suc.IH [OF this] True show ?thesis by auto
  qed (use Suc.prems in auto)
qed

lemma load_verdict_Inr:
  "load_verdict ops args s = Inr () \<longleftrightarrow>
    ln_failures s = 0 \<and> expected_complete ops (ln_recorder s) (ln_successes s) args"
  by (auto simp: load_verdict_def word_gt_0)

subsection \<open>A histogram and a run\<close>

definition list_hdr :: "(u64 \<times> u64 list) hdr_ops" where
  "list_hdr =
    \<lparr>hd_new_with_max = (\<lambda>high digits. Inr (high, [])),
     hd_record = (\<lambda>v (high, vs). if v \<le> high then Inr (high, v # vs) else Inl ''value out of range''),
     hd_len = (\<lambda>(high, vs). of_nat (length vs)),
     hd_is_empty = (\<lambda>(high, vs). (of_nat (length vs) :: u64) = 0),
     hd_high = fst,
     hd_max = (\<lambda>(high, vs). fold max vs 0),
     hd_value_at_quantile = (\<lambda>(high, vs) quantile. sort vs ! (length vs * quantile div 1000))\<rparr>"

lemma list_hdr_laws: "hdr_laws list_hdr"
  by (auto simp: hdr_laws_def list_hdr_def)

definition sample_load_args :: LoadArgs where
  "sample_load_args = load_args_default\<lparr>la_messages := 2, la_sse_connections := 0, la_grpc_connections := 0\<rparr>"

definition sample_recorder :: "(u64 \<times> u64 list) Recorder" where
  "sample_recorder = \<lparr>rd_starts = [], rd_websocket = (max_latency_us, []), rd_sse = (max_latency_us, []),
     rd_grpc = (max_latency_us, []), rd_webhook = (max_latency_us, [])\<rparr>"

lemma sample_args_valid: "validate_args sample_load_args = Inr ()"
  by (simp add: validate_args_def sample_load_args_def load_args_default_def max_messages_def max_in_flight_limit_def
      max_connections_def usize_sat_add_def usize_max_def Let_def)

lemma sample_recorder_new: "recorder_new list_hdr = Inr sample_recorder"
  by (simp add: recorder_new_def list_hdr_def sample_recorder_def)

text \<open>Both messages are published; the first is received twice, the second never.\<close>

definition sample_load_events :: "LoadEvent list" where
  "sample_load_events =
    [SendItem, SendItem, DropSender, TakeItem 0, TakeItem 0, PublishDone 0 True, PublishDone 0 True,
     Receive LoadWebSocket (load_message_id ''r'' 0) 5, Receive LoadWebSocket (load_message_id ''r'' 0) 9]"

definition sample_load_end :: "(u64 \<times> u64 list) LoadRun" where
  "sample_load_end = \<lparr>ln_recorder = sample_recorder
      \<lparr>rd_starts := [(load_message_id ''r'' 0, 0), (load_message_id ''r'' 1, 0)], rd_websocket := (max_latency_us, [9, 5])\<rparr>,
     ln_next = 2, ln_closed = True, ln_queue = [], ln_busy = [], ln_successes = 2, ln_failures = 0\<rparr>"

lemma sample_load_exec:
  "load_exec list_hdr sample_load_args ''r'' sample_load_events (load_start sample_recorder) = Some sample_load_end"
  by (simp add: sample_load_events_def load_start_def load_apply_def send_item_def drop_sender_def take_item_def
      publish_done_def recorder_start_def recorder_record_def recorder_histogram_def with_histogram_def list_hdr_def
      sample_recorder_def sample_load_end_def sample_load_args_def load_args_default_def max_latency_us_def
      load_message_id_inj Let_def)

lemma sample_load_verdict: "load_finished sample_load_end" "load_verdict list_hdr sample_load_args sample_load_end = Inr ()"
  by (simp_all add: load_finished_def sample_load_end_def load_verdict_Inr expected_complete_def recorder_count_def
      recorder_histogram_def list_hdr_def sample_recorder_def sample_load_args_def load_args_default_def sat_mul_def)

subsection \<open>Properties\<close>



text \<open>
  A load run that passes has published everything. When the workers have returned and the verdict is
  success, no publish failed, every message was published, and each of the WebSocket, SSE and gRPC histograms
  holds at least one latency for every message and connection; no product wraps around or saturates.
\<close>

theorem load_verdict_sound:
  assumes "validate_args args = Inr ()" and "recorder_new ops = Inr rd"
    and "(load_step ops args run_id)\<^sup>*\<^sup>* (load_start rd) s" and "load_finished s"
    and "load_verdict ops args s = Inr ()"
  shows "ln_failures s = 0 \<and> ln_successes s = la_messages args
    \<and> unat (la_messages args) * la_websocket_connections args \<le> unat (recorder_count ops LoadWebSocket (ln_recorder s))
    \<and> unat (la_messages args) * la_sse_connections args \<le> unat (recorder_count ops LoadSse (ln_recorder s))
    \<and> unat (la_messages args) * la_grpc_connections args \<le> unat (recorder_count ops LoadGrpc (ln_recorder s))"
proof -
  note inv = load_reachable_inv [OF assms(2,3)] and v = validated [OF assms(1)]
  have f: "ln_failures s = 0" and e: "expected_complete ops (ln_recorder s) (ln_successes s) args"
    using assms(5) by (simp_all add: load_verdict_Inr)
  have "unat (ln_successes s) = unat (la_messages args)"
    using inv f assms(4) by (simp add: load_inv_def counts_ok_def load_finished_def)
  then have m: "ln_successes s = la_messages args" by (simp add: word_unat_eq_iff)
  have small: "unat (sat_mul (la_messages args) (of_nat n :: u64)) = unat (la_messages args) * n" if "n \<le> 100000" for n
  proof -
    have "unat (la_messages args) * n \<le> 10000000 * 100000" using v(2) that by (rule mult_le_mono)
    then show ?thesis using sat_mul_small [of "la_messages args" n] v(1) by auto
  qed
  have "la_websocket_connections args \<le> 100000" "la_sse_connections args \<le> 100000" "la_grpc_connections args \<le> 100000"
    using v(6) by simp_all
  with e f m small show ?thesis by (simp add: expected_complete_def word_le_nat_alt)
qed

theorem load_verdict_sound_witness:
  "load_verdict list_hdr sample_load_args sample_load_end = Inr ()
    \<and> unat (la_messages sample_load_args) * la_websocket_connections sample_load_args
      \<le> unat (recorder_count list_hdr LoadWebSocket (ln_recorder sample_load_end))"
  using load_verdict_sound [OF sample_args_valid sample_recorder_new load_exec_reaches [OF sample_load_exec] sample_load_verdict]
    sample_load_verdict(2) by blast

text \<open>
  C40. The verdict counts deliveries and does not identify them: there is a run that passes although a message
  that was published successfully was never received by any listener. A second delivery of another message makes
  up for it.
\<close>

theorem load_gap_unnoticed:
  "\<exists>evs s message_id. load_exec list_hdr sample_load_args ''r'' evs (load_start sample_recorder) = Some s
    \<and> load_finished s \<and> load_verdict list_hdr sample_load_args s = Inr ()
    \<and> ln_failures s = 0 \<and> message_id \<in> fst ` set (rd_starts (ln_recorder s))
    \<and> \<not> (\<exists>protocol now. Receive protocol message_id now \<in> set evs)"
proof (intro exI conjI)
  show "load_exec list_hdr sample_load_args ''r'' sample_load_events (load_start sample_recorder) = Some sample_load_end"
    by (rule sample_load_exec)
  show "load_finished sample_load_end" "load_verdict list_hdr sample_load_args sample_load_end = Inr ()"
    by (rule sample_load_verdict)+
  show "ln_failures sample_load_end = 0" "load_message_id ''r'' 1 \<in> fst ` set (rd_starts (ln_recorder sample_load_end))"
    by (simp_all add: sample_load_end_def)
  show "\<not> (\<exists>protocol now. Receive protocol (load_message_id ''r'' 1) now \<in> set sample_load_events)"
    by (simp add: sample_load_events_def load_message_id_inj)
qed

end
