(* ===== verification/Load_Sse.thy ===== *)
theory Load_Sse
  imports Load_Run
begin

text \<open>
  The event-stream reader of the load generator (\<open>sse_listener\<close> in \<open>tools/router-load/src/main.rs\<close>) and its
  agreement with the router's stream of server-sent events (\<open>sse\<close> in \<open>router-api/src/http.rs\<close>). The reader
  does not depend on how the network cuts the bytes into chunks; what the router writes for a delivery is
  recorded under the id of its message. Writing an event as text is the HTTP library's, parsing and printing
  JSON \<open>serde_json\<close>'s: both are arguments, with the documented format as a hypothesis.
\<close>

subsection \<open>The reader\<close>

definition sse_request :: "LoadArgs \<Rightarrow> string \<times> (string \<times> string) list \<times> string option" where
  "sse_request args =
    (trim_end_matches CHR ''/'' (la_http_base args) @ ''/v1/events'',
     [(''tenant_id'', la_tenant args), (''channel'', la_channel args)], la_bearer_token args)"

text \<open>A complete line, without its newline: the actions and the data collected afterwards.\<close>

definition sse_line :: "(string \<Rightarrow> Json option) \<Rightarrow> LoadArgs \<Rightarrow> string \<Rightarrow> string \<Rightarrow> string + LoadAction list \<times> string" where
  "sse_line from_slice args line data =
    (let line = (if line \<noteq> [] \<and> last line = CHR 0x0D then butlast line else line)
     in if line = [] then
          if data \<noteq> [] then
            and_then (ok_or ''invalid JSON'' (from_slice data)) (\<lambda>v.
            Inr (case message_id_of v of Some message_id \<Rightarrow> record_and_delay args LoadSse message_id | None \<Rightarrow> [], []))
          else Inr ([], data)
        else (case strip_prefix ''data:'' line of
            Some v \<Rightarrow>
              let data = (if data \<noteq> [] then data @ [newline] else data)
              in Inr ([], data @ (case strip_prefix '' '' v of Some w \<Rightarrow> w | None \<Rightarrow> v))
          | None \<Rightarrow> Inr ([], data)))"

text \<open>The inner loop: every complete line of the buffer; what is left of buffer and data, or the error.\<close>

function sse_drain ::
  "(string \<Rightarrow> Json option) \<Rightarrow> LoadArgs \<Rightarrow> string \<Rightarrow> string \<Rightarrow> LoadAction list \<times> (string + string \<times> string)" where
  "sse_drain from_slice args buffer data =
    (case position (\<lambda>b. b = newline) buffer of
       None \<Rightarrow> ([], Inr (buffer, data))
     | Some p \<Rightarrow>
         (case sse_line from_slice args (take p buffer) data of
            Inl error \<Rightarrow> ([], Inl error)
          | Inr (now, data) \<Rightarrow>
              (case sse_drain from_slice args (drop (Suc p) buffer) data of (later, res) \<Rightarrow> (now @ later, res))))"
  by pat_completeness auto
termination
  by (relation "measure (\<lambda>(from_slice, args, buffer, data). length buffer)") (auto simp: position_Some)

declare sse_drain.simps [simp del]

text \<open>The outer loop: the chunks in order, to the first error or the end of the stream.\<close>

fun sse_chunks ::
  "(string \<Rightarrow> Json option) \<Rightarrow> LoadArgs \<Rightarrow> (string + string) list \<Rightarrow> string \<Rightarrow> string \<Rightarrow> LoadAction list \<times> (string + unit)" where
  "sse_chunks from_slice args [] buffer data = ([], Inr ())"
| "sse_chunks from_slice args (Inl error # chunks) buffer data = ([], Inl error)"
| "sse_chunks from_slice args (Inr chunk # chunks) buffer data =
    (let buffer = buffer @ chunk
     in if length buffer > max_sse_buffer then ([], Inl ''SSE frame buffer exceeded 1048576 bytes'')
        else (case sse_drain from_slice args buffer data of
            (now, Inl error) \<Rightarrow> (now, Inl error)
          | (now, Inr (buffer, data)) \<Rightarrow>
              (case sse_chunks from_slice args chunks buffer data of (later, res) \<Rightarrow> (now @ later, res))))"

text \<open>\<open>get\<close> sends the request and turns an error status into an error.\<close>

definition sse_listener ::
  "(string \<times> (string \<times> string) list \<times> string option \<Rightarrow> string + (string + string) list) \<Rightarrow> (string \<Rightarrow> Json option)
   \<Rightarrow> LoadArgs \<Rightarrow> LoadAction list \<times> (string + unit)" where
  "sse_listener get from_slice args =
    (case get (sse_request args) of
       Inl error \<Rightarrow> ([], Inl error)
     | Inr chunks \<Rightarrow> sse_chunks from_slice args chunks [] [])"

subsection \<open>Chunks do not matter\<close>

lemma position_None: "position p xs = None \<longleftrightarrow> (\<forall>x\<in>set xs. \<not> p x)"
  by (induction xs) auto

lemma position_append_Some: "position p xs = Some i \<Longrightarrow> position p (xs @ ys) = Some i"
  by (induction xs arbitrary: i) (auto split: if_splits)

lemma position_snoc: "\<forall>x\<in>set xs. \<not> p x \<Longrightarrow> p y \<Longrightarrow> position p (xs @ y # ys) = Some (length xs)"
  by (induction xs) auto

lemma sse_drain_open: "newline \<notin> set buffer \<Longrightarrow> sse_drain f args buffer data = ([], Inr (buffer, data))"
proof -
  assume "newline \<notin> set buffer"
  then have "position (\<lambda>b. b = newline) buffer = None" by (auto simp: position_None)
  then show ?thesis by (simp add: sse_drain.simps [of f args buffer])
qed

lemma sse_drain_line:
  assumes "newline \<notin> set line"
  shows "sse_drain f args (line @ newline # buffer) data =
    (case sse_line f args line data of
       Inl error \<Rightarrow> ([], Inl error)
     | Inr (now, data) \<Rightarrow> (case sse_drain f args buffer data of (later, res) \<Rightarrow> (now @ later, res)))"
proof -
  have "position (\<lambda>b. b = newline) (line @ newline # buffer) = Some (length line)"
    using assms by (intro position_snoc) auto
  moreover have "drop (Suc (length line)) (line @ newline # buffer) = buffer" by simp
  ultimately show ?thesis 
    by (subst sse_drain.simps, simp only: option.case append_take_drop_id take_append take_all_iff order_refl)
      (simp split: sum.split)
qed

lemma split_newline: "newline \<in> set buffer \<Longrightarrow> \<exists>line rest. buffer = line @ newline # rest \<and> newline \<notin> set line"
  by (rule split_list_first)

lemma sse_drain_append:
  "sse_drain f args (buffer @ extra) data =
    (case sse_drain f args buffer data of
       (now, Inl error) \<Rightarrow> (now, Inl error)
     | (now, Inr (buffer, data)) \<Rightarrow> (case sse_drain f args (buffer @ extra) data of (later, res) \<Rightarrow> (now @ later, res)))"
proof (induction "length buffer" arbitrary: buffer data rule: less_induct)
  case less
  show ?case
  proof (cases "newline \<in> set buffer")
    case False
    then show ?thesis by (simp add: sse_drain_open)
  next
    case True
    then obtain line rest where b: "buffer = line @ newline # rest" "newline \<notin> set line" using split_newline by blast
    then have "length rest < length buffer" by simp
    note IH = less.hyps [OF this]
    from b(2) show ?thesis
      unfolding b(1) append.assoc append_Cons
      by (simp add: sse_drain_line) (auto simp: IH split: sum.splits prod.splits)
  qed
qed

text \<open>What is left is the end of the buffer, after its last newline.\<close>

lemma sse_drain_rest:
  "sse_drain f args buffer data = (now, Inr (buffer', data')) \<Longrightarrow> newline \<notin> set buffer' \<and> (\<exists>front. buffer = front @ buffer')"
proof (induction "length buffer" arbitrary: buffer data now rule: less_induct)
  case less
  show ?case
  proof (cases "newline \<in> set buffer")
    case False
    with less.prems show ?thesis by (simp add: sse_drain_open)
  next
    case True
    then obtain line rest where b: "buffer = line @ newline # rest" "newline \<notin> set line" using split_newline by blast
    with less.prems obtain now1 data1 where "sse_drain f args rest data1 = (now1, Inr (buffer', data'))"
      by (auto simp: sse_drain_line split: sum.splits prod.splits)
    moreover have "length rest < length buffer" by (simp add: b(1))
    ultimately have "newline \<notin> set buffer'" "\<exists>front. rest = front @ buffer'" using less.hyps by blast+
    moreover from this(2) obtain front where "buffer = (line @ newline # front) @ buffer'" using b(1) by auto
    ultimately show ?thesis by blast
  qed
qed

text \<open>No line of the text is longer than \<open>limit\<close>.\<close>

definition lines_short :: "nat \<Rightarrow> string \<Rightarrow> bool" where
  "lines_short limit s \<longleftrightarrow> (\<forall>xs ys zs. s = xs @ ys @ zs \<and> newline \<notin> set ys \<longrightarrow> length ys \<le> limit)"

lemma lines_short_suffix: "lines_short limit (xs @ ys) \<Longrightarrow> lines_short limit ys"
  unfolding lines_short_def by (metis append.assoc)

lemma lines_short_front: "lines_short limit (xs @ ys) \<Longrightarrow> newline \<notin> set xs \<Longrightarrow> length xs \<le> limit"
  unfolding lines_short_def by (metis append_Nil)

lemma sse_chunks_concat:
  assumes "lines_short limit (buffer @ concat chunks)" and "\<forall>chunk\<in>set chunks. length chunk + limit \<le> max_sse_buffer"
    and "newline \<notin> set buffer" and "sse_drain f args (buffer @ concat chunks) data = (actions, Inr rest)"
  shows "sse_chunks f args (map Inr chunks) buffer data = (actions, Inr ())"
  using assms
proof (induction chunks arbitrary: buffer data actions)
  case Nil
  then show ?case by (simp add: sse_drain_open)
next
  case (Cons chunk chunks)
  have fits: "\<not> length (buffer @ chunk) > max_sse_buffer"
    using lines_short_front [OF Cons.prems(1,3)] Cons.prems(2) by simp
  have whole: "sse_drain f args ((buffer @ chunk) @ concat chunks) data = (actions, Inr rest)" using Cons.prems(4) by simp
  then obtain now buffer' data' later where
    first: "sse_drain f args (buffer @ chunk) data = (now, Inr (buffer', data'))" and
    later: "sse_drain f args (buffer' @ concat chunks) data' = (later, Inr rest)" "actions = now @ later"
    unfolding sse_drain_append [of f args "buffer @ chunk"] by (auto split: prod.splits sum.splits)
  obtain front where "buffer @ chunk = front @ buffer'" using sse_drain_rest [OF first] by blast
  then have "buffer @ concat (chunk # chunks) = front @ buffer' @ concat chunks" by (metis append.assoc concat.simps(2))
  with Cons.prems(1) have "lines_short limit (buffer' @ concat chunks)" by (metis lines_short_suffix)
  with Cons.IH [OF _ _ conjunct1 [OF sse_drain_rest [OF first]] later(1)] Cons.prems(2)
  have "sse_chunks f args (map Inr chunks) buffer' data' = (later, Inr ())" by simp
  with fits first later(2) show ?case by simp
qed

subsection \<open>Frames\<close>

definition sse_frame :: "string list \<Rightarrow> string" where
  "sse_frame ls = concat (map (\<lambda>l. l @ [newline]) ls) @ [newline]"

definition event_lines :: "SseEvent \<Rightarrow> string list" where
  "event_lines ev = [''id: '' @ ev_id ev, ''event: '' @ ev_event ev, ''data: '' @ ev_data ev]"

text \<open>No line feed and no carriage return.\<close>

definition one_line :: "string \<Rightarrow> bool" where
  "one_line s \<longleftrightarrow> newline \<notin> set s \<and> CHR 0x0D \<notin> set s"

lemma one_line_simps [simp]:
  "one_line []" "one_line (c # s) \<longleftrightarrow> c \<noteq> newline \<and> c \<noteq> CHR 0x0D \<and> one_line s" "one_line (s @ t) \<longleftrightarrow> one_line s \<and> one_line t"
  by (auto simp: one_line_def)

lemma sse_line_field:
  assumes "one_line line" "line \<noteq> []"
  shows "sse_line f args line data =
    (case strip_prefix ''data:'' line of
       Some v \<Rightarrow> Inr ([], (if data \<noteq> [] then data @ [newline] else data) @ (case strip_prefix '' '' v of Some w \<Rightarrow> w | None \<Rightarrow> v))
     | None \<Rightarrow> Inr ([], data))"
proof -
  have "last line \<noteq> CHR 0x0D" using assms last_in_set [OF assms(2)] by (metis one_line_def)
  with assms(2) show ?thesis by (simp add: sse_line_def Let_def split: option.split)
qed

lemma sse_drain_comment:
  assumes "one_line comment"
  shows "sse_drain f args (sse_frame [CHR '':'' # comment] @ buffer) [] = sse_drain f args buffer []"
proof -
  have "newline \<notin> set (CHR '':'' # comment)" using assms by (simp add: one_line_def)
  from sse_drain_line [OF this, of f args "newline # buffer" "[]"] sse_drain_line [of "[]" f args buffer "[]"] show ?thesis
    using assms by (simp add: sse_frame_def sse_line_field one_line_def strip_prefix_def) (simp add: sse_line_def split: prod.splits)
qed

lemma sse_drain_event:
  assumes clean: "one_line (ev_id ev)" "one_line (ev_event ev)" "one_line (ev_data ev)" "ev_data ev \<noteq> []"
    and "f (ev_data ev) = Some v"
  shows "sse_drain f args (sse_frame (event_lines ev) @ buffer) [] =
    (case sse_drain f args buffer [] of (later, res) \<Rightarrow>
      ((case message_id_of v of Some message_id \<Rightarrow> record_and_delay args LoadSse message_id | None \<Rightarrow> []) @ later, res))"
proof -
  let ?i = "''id: '' @ ev_id ev" and ?e = "''event: '' @ ev_event ev" and ?d = "''data: '' @ ev_data ev"
  have lines: "one_line ?i" "one_line ?e" "one_line ?d" using clean by simp_all
  then have nl: "newline \<notin> set ?i" "newline \<notin> set ?e" "newline \<notin> set ?d" by (simp_all add: one_line_def)
  have steps: "sse_line f args ?i [] = Inr ([], [])" "sse_line f args ?e [] = Inr ([], [])"
    "sse_line f args ?d [] = Inr ([], ev_data ev)"
    using lines by (simp_all add: sse_line_field strip_prefix_def)
  have last: "sse_line f args [] (ev_data ev) =
      Inr (case message_id_of v of Some message_id \<Rightarrow> record_and_delay args LoadSse message_id | None \<Rightarrow> [], [])"
    using assms(4,5) by (simp add: sse_line_def)
  have "sse_frame (event_lines ev) @ buffer = ?i @ newline # ?e @ newline # ?d @ newline # [] @ newline # buffer"
    by (simp add: sse_frame_def event_lines_def)
  then show ?thesis
    by (simp only: sse_drain_line [OF nl(1)] sse_drain_line [OF nl(2)] sse_drain_line [OF nl(3)]
        sse_drain_line [of "[]"] steps last sum.case prod.case set_simps empty_iff not_False_eq_True list.set)
      (simp split: prod.splits)
qed

subsection \<open>What the router writes\<close>

lemma utf8_next_bytes:
  "utf8_next b s = Some (n, bs, r) \<Longrightarrow> (of_char b < (128 :: nat) \<and> n = of_char b \<and> bs = [b]) \<or> (\<forall>x\<in>set bs. 128 \<le> (of_char x :: nat))"
  by (auto simp: utf8_next_def in_range_def Let_def split: if_splits list.splits)

text \<open>A byte below 128 is always a character of its own.\<close>

lemma ascii_in_chars: "b \<in> set s \<Longrightarrow> of_char b < (128 :: nat) \<Longrightarrow> of_char b \<in> set (chars s)"
proof (induction s rule: str_chars.induct)
  case (2 c s)
  show ?case
  proof (cases "utf8_next c s")
    case None
    with 2 show ?thesis by (auto simp: chars_def)
  next
    case (Some x)
    obtain n bs r where x: "x = (n, bs, r)" by (cases x)
    with Some utf8_next_split [of c s n bs r] have "c # s = bs @ r" by simp
    then have "b \<in> set bs \<or> b \<in> set r" using "2.prems"(1) by (metis Un_iff set_append)
    moreover have "n = of_char b" if "b \<in> set bs"
      using utf8_next_bytes [of c s n bs r] Some x that "2.prems"(2) by fastforce
    moreover have "of_char b \<in> set (chars r)" if "b \<in> set r"
      using "2.IH"(2) [OF Some [unfolded x] refl refl that "2.prems"(2)] .
    moreover have "chars (c # s) = n # chars r" by (simp add: chars_def Some x)
    ultimately show ?thesis by (metis list.set_intros)
  qed
qed simp

lemma identifier_one_line: "identifier_ok n s \<Longrightarrow> one_line s"
  using ascii_in_chars [of newline s] ascii_in_chars [of "CHR 0x0D" s]
  by (fastforce simp: identifier_ok_def one_line_def is_control_def)

lemma identifier_nonempty: "identifier_ok n s \<Longrightarrow> s \<noteq> []"
  by (auto simp: identifier_ok_def chars_def)

text \<open>The HTTP library refuses ids and names with line breaks by a panic: a valid message never causes it.\<close>

lemma sse_event_one_line:
  assumes "message_valid (dv_message d)"
  shows "one_line (ev_id (sse_event env d))" "one_line (ev_event (sse_event env d))"
  using assms identifier_one_line
  by (auto simp: message_valid_def metadata_valid_def opt_identifier_ok_def sse_event_def Let_def split: option.splits)

lemma message_id_of_delivery: "message_id_of (delivery_json from_slice base64 d) = Some (md_message_id (rm_metadata (dv_message d)))"
  by (simp add: message_id_of_def delivery_json_def metadata_members)

text \<open>The JSON text of a delivery: one line of UTF-8 that reads back as the value.\<close>

definition json_text_ok :: "JsonEnv \<Rightarrow> (string \<Rightarrow> Json option) \<Rightarrow> Delivery \<Rightarrow> bool" where
  "json_text_ok env from_slice d \<longleftrightarrow>
    (let v = delivery_json (jv_from_slice env) (jv_base64 env) d; s = jv_to_vec env v
     in from_slice s = Some v \<and> utf8_valid s \<and> one_line s \<and> s \<noteq> [])"

lemma sse_event_data:
  "json_text_ok (he_json env) from_slice d \<Longrightarrow>
    ev_data (sse_event env d) = jv_to_vec (he_json env) (delivery_json (jv_from_slice (he_json env)) (jv_base64 (he_json env)) d)"
  by (simp add: sse_event_def delivery_text_def encode_delivery_json_def json_text_ok_def Let_def from_utf8_lossy_valid)

text \<open>A stream: deliveries, and between them keep-alive comments.\<close>

definition stream_text :: "(SseEvent \<Rightarrow> string) \<Rightarrow> string \<Rightarrow> ('jwk, 'key) HttpApiEnv \<Rightarrow> Delivery option list \<Rightarrow> string" where
  "stream_text encode keep_alive env items =
    concat (map (\<lambda>item. case item of Some d \<Rightarrow> encode (sse_event env d) | None \<Rightarrow> keep_alive) items)"

definition recorded :: "LoadArgs \<Rightarrow> Delivery option list \<Rightarrow> LoadAction list" where
  "recorded args items = concat (map (\<lambda>item. case item of
     Some d \<Rightarrow> record_and_delay args LoadSse (md_message_id (rm_metadata (dv_message d))) | None \<Rightarrow> []) items)"

lemma stream_simps:
  "stream_text encode keep_alive env [] = []"
  "stream_text encode keep_alive env (None # items) = keep_alive @ stream_text encode keep_alive env items"
  "stream_text encode keep_alive env (Some d # items) = encode (sse_event env d) @ stream_text encode keep_alive env items"
  by (simp_all add: stream_text_def)

lemma recorded_simps:
  "recorded args [] = []"
  "recorded args (None # items) = recorded args items"
  "recorded args (Some d # items) =
    record_and_delay args LoadSse (md_message_id (rm_metadata (dv_message d))) @ recorded args items"
  by (simp_all add: recorded_def)

lemma sse_drain_stream:
  assumes "\<forall>ev. encode ev = sse_frame (event_lines ev)" and "keep_alive = sse_frame [CHR '':'' # comment]" "one_line comment"
    and "\<forall>d. Some d \<in> set items \<longrightarrow> message_valid (dv_message d) \<and> json_text_ok (he_json env) from_slice d"
  shows "sse_drain from_slice args (stream_text encode keep_alive env items) [] = (recorded args items, Inr ([], []))"
  using assms(4)
proof (induction items)
  case Nil
  then show ?case by (simp add: stream_simps recorded_simps sse_drain_open)
next
  case (Cons item items)
  then have IH: "sse_drain from_slice args (stream_text encode keep_alive env items) [] = (recorded args items, Inr ([], []))"
    by simp
  show ?case
  proof (cases item)
    case None
    with IH sse_drain_comment [OF assms(3)] show ?thesis by (simp add: stream_simps recorded_simps assms(2))
  next
    case (Some d)
    with Cons.prems have d: "message_valid (dv_message d)" "json_text_ok (he_json env) from_slice d" by auto
    note line = sse_event_one_line [OF d(1), of env] and data = sse_event_data [OF d(2)]
    from d(2) have "one_line (ev_data (sse_event env d))" "ev_data (sse_event env d) \<noteq> []"
      "from_slice (ev_data (sse_event env d)) = Some (delivery_json (jv_from_slice (he_json env)) (jv_base64 (he_json env)) d)"
      unfolding data by (simp_all add: json_text_ok_def Let_def)
    from sse_drain_event [of "sse_event env d" from_slice, OF line this] Some IH assms(1) [rule_format, of "sse_event env d"] show ?thesis
      by (simp add: stream_simps recorded_simps message_id_of_delivery)
  qed
qed

text \<open>
  C38. What the router streams, the load generator records: for any sequence of valid deliveries with keep-alive
  comments between them, written as events of the event-stream format and cut into chunks in any way, the
  listener records exactly the ids of the messages, in order, and ends without an error. Hypotheses: the HTTP
  library writes an event as its three fields and a comment as a comment line, JSON text is one line of UTF-8 that
  reads back as the value, and no chunk together with the longest line exceeds the buffer.
\<close>

theorem sse_stream_recorded:
  assumes "\<forall>ev. encode ev = sse_frame (event_lines ev)" and "keep_alive = sse_frame [CHR '':'' # comment]" "one_line comment"
    and "\<forall>d. Some d \<in> set items \<longrightarrow> message_valid (dv_message d) \<and> json_text_ok (he_json env) from_slice d"
    and "concat chunks = stream_text encode keep_alive env items" and "lines_short limit (concat chunks)"
    and "\<forall>chunk\<in>set chunks. length chunk + limit \<le> max_sse_buffer" and "get (sse_request args) = Inr (map Inr chunks)"
  shows "sse_listener get from_slice args = (recorded args items, Inr ())"
proof -
  have "sse_drain from_slice args (concat chunks) [] = (recorded args items, Inr ([], []))"
    unfolding assms(5) by (rule sse_drain_stream [OF assms(1-4)])
  with sse_chunks_concat [of limit "[]" chunks from_slice args "[]"] assms(6,7) show ?thesis
    by (simp add: sse_listener_def assms(8))
qed

lemma lines_short_length: "lines_short (length s) s"
  by (auto simp: lines_short_def)

definition sample_sse_env :: "(unit, unit) HttpApiEnv" where
  "sample_sse_env = \<lparr>he_auth = undefined, he_json = \<lparr>jv_from_slice = (\<lambda>_. None), jv_base64 = id, jv_to_vec = (\<lambda>_. ''{}'')\<rparr>,
    he_parse_command = (\<lambda>_. Inl Syntax), he_parse_filter = (\<lambda>_. None), he_to_string = (\<lambda>_. ''{}'')\<rparr>"

definition sample_from_slice :: "string \<Rightarrow> Json option" where
  "sample_from_slice s = Some (delivery_json (\<lambda>_. None) id sample_delivery)"

lemma sample_delivery_valid: "message_valid (dv_message sample_delivery)"
  by (simp add: message_valid_def metadata_valid_def sample_delivery_def is_whitespace_def is_control_def)

lemma sample_json_ok: "json_text_ok (he_json sample_sse_env) sample_from_slice sample_delivery"
proof -
  have "utf8_valid ''{}''" by (rule utf8_valid_ascii) simp
  then show ?thesis by (simp add: json_text_ok_def sample_sse_env_def sample_from_slice_def del: utf8_valid.simps)
qed

definition sample_stream :: string where
  "sample_stream = stream_text (\<lambda>ev. sse_frame (event_lines ev)) (sse_frame [CHR '':'' # ''keep-alive'']) sample_sse_env
     [None, Some sample_delivery]"

lemma sample_stream_length: "length sample_stream < 100"
proof -
  have "ev_data (sse_event sample_sse_env sample_delivery) = ''{}''"
    using sse_event_data [OF sample_json_ok] by (simp add: sample_sse_env_def)
  moreover have "ev_id (sse_event sample_sse_env sample_delivery) = ''m''"
    "ev_event (sse_event sample_sse_env sample_delivery) = ''message''"
    by (simp_all add: sse_event_def sample_delivery_def)
  ultimately show ?thesis by (simp add: sample_stream_def stream_simps sse_frame_def event_lines_def)
qed

theorem sse_stream_recorded_witness:
  "message_valid (dv_message sample_delivery)
    \<and> sse_listener (\<lambda>_. Inr (map Inr [take 7 sample_stream, drop 7 sample_stream])) sample_from_slice sample_load_args
      = ([RecordMessage LoadSse ''m''], Inr ())"
proof -
  let ?chunks = "[take 7 sample_stream, drop 7 sample_stream]"
  have c: "concat ?chunks = sample_stream" by simp
  have "sse_listener (\<lambda>_. Inr (map Inr ?chunks)) sample_from_slice sample_load_args =
      (recorded sample_load_args [None, Some sample_delivery], Inr ())"
  proof (rule sse_stream_recorded)
    show "concat ?chunks = stream_text (\<lambda>ev. sse_frame (event_lines ev)) (sse_frame [CHR '':'' # ''keep-alive'']) sample_sse_env
        [None, Some sample_delivery]" using c by (simp only: sample_stream_def)
    show "lines_short (length sample_stream) (concat ?chunks)" unfolding c by (rule lines_short_length)
    show "\<forall>chunk\<in>set ?chunks. length chunk + length sample_stream \<le> max_sse_buffer"
      using sample_stream_length by (auto simp: max_sse_buffer_def)
    show "\<forall>d. Some d \<in> set [None, Some sample_delivery] \<longrightarrow>
        message_valid (dv_message d) \<and> json_text_ok (he_json sample_sse_env) sample_from_slice d"
      using sample_delivery_valid sample_json_ok by simp
    show "one_line ''keep-alive''" by simp
  qed (rule refl allI)+
  moreover have "recorded sample_load_args [None, Some sample_delivery] = [RecordMessage LoadSse ''m'']"
    by (simp add: recorded_simps record_and_delay_def reader_delay_def sample_load_args_def load_args_default_def
        sample_delivery_def)
  ultimately show ?thesis using sample_delivery_valid by simp
qed

end
