(* ===== verification/Load_Main.thy ===== *)
theory Load_Main
  imports Load_Sse
begin

text \<open>
  The entry point of the load generator (\<open>main\<close> in \<open>tools/router-load/src/main.rs\<close>): the listeners it spawns, and
  the phases of a run one after the other, up to the verdict. What the outside world does is the record
  \<open>LoadWorld\<close>: whether sockets bind and files can be written, the state of each listener after the first second, the
  actions of producer, workers and listeners while messages are published, and the deliveries that arrive between
  two polls of the final wait. Aborting the listeners has no effect on the result.
\<close>

datatype ListenerTask = WebhookTask SocketAddr | WebSocketTask nat | SseTask nat | GrpcTask nat

definition load_listeners :: "LoadArgs \<Rightarrow> ListenerTask list" where
  "load_listeners args =
    (case la_webhook_listen args of Some address \<Rightarrow> [WebhookTask address] | None \<Rightarrow> [])
    @ map WebSocketTask [0..<la_websocket_connections args]
    @ map SseTask [0..<la_sse_connections args]
    @ map GrpcTask [0..<la_grpc_connections args]"

record LoadWorld =
  lw_run_id :: string
  lw_started_unix_ms :: nat
  lw_host :: LoadHost
  lw_bind :: "SocketAddr \<Rightarrow> string + unit"
  lw_listener :: "ListenerTask \<Rightarrow> ListenerState"
  lw_events :: "LoadEvent list"
  lw_received :: "nat \<Rightarrow> (LoadProtocol \<times> string \<times> nat) list"
  lw_now_ms :: "nat \<Rightarrow> nat"
  lw_elapsed_nanos :: nat
  lw_write :: "string \<Rightarrow> RunReport \<Rightarrow> string + unit"

definition record_received :: "'h hdr_ops \<Rightarrow> (LoadProtocol \<times> string \<times> nat) list \<Rightarrow> 'h Recorder \<Rightarrow> 'h Recorder" where
  "record_received ops = fold (\<lambda>(protocol, message_id, now). recorder_record ops protocol message_id now)"

primrec recorder_at :: "'h hdr_ops \<Rightarrow> LoadWorld \<Rightarrow> 'h Recorder \<Rightarrow> nat \<Rightarrow> 'h Recorder" where
  "recorder_at ops world rd 0 = rd"
| "recorder_at ops world rd (Suc k) = record_received ops (lw_received world k) (recorder_at ops world rd k)"

text \<open>
  From the end of publishing: the wait with one poll more than the timeout has tenths of a second, the report and the
  verdict. The report is written before the verdict is returned.
\<close>

definition load_conclude :: "'h hdr_ops \<Rightarrow> LoadArgs \<Rightarrow> LoadWorld \<Rightarrow> 'h LoadRun \<Rightarrow> (string + unit) option" where
  "load_conclude ops args world s =
    Option.bind (drain_loop (Suc (10 * unat (la_drain_timeout_secs args))) ops args (ln_successes s)
        (lw_now_ms world 0 + 1000 * unat (la_drain_timeout_secs args)) (lw_now_ms world)
        (recorder_at ops world (ln_recorder s)) 0) (\<lambda>j.
      let s = s\<lparr>ln_recorder := recorder_at ops world (ln_recorder s) (Suc j)\<rparr>
      in Option.bind (run_report ops (lw_host world) args (lw_run_id world) (lw_started_unix_ms world)
             (lw_elapsed_nanos world) (ln_successes s) (ln_failures s) (ln_recorder s)) (\<lambda>report.
         Some (and_then (lw_write world (la_output args) report) (\<lambda>_. load_verdict ops args s))))"

text \<open>\<open>None\<close>: a panic, or publishing is not over with the given events.\<close>

definition load_main :: "'h hdr_ops \<Rightarrow> LoadArgs \<Rightarrow> LoadWorld \<Rightarrow> (string + unit) option" where
  "load_main ops args world =
    (case and_then (validate_args args) (\<lambda>_.
          and_then (recorder_new ops) (\<lambda>rd.
          and_then (case la_webhook_listen args of Some address \<Rightarrow> lw_bind world address | None \<Rightarrow> Inr ()) (\<lambda>_.
          and_then (check_listeners (map (lw_listener world) (load_listeners args))) (\<lambda>_.
          Inr rd)))) of
       Inl e \<Rightarrow> Some (Inl e)
     | Inr rd \<Rightarrow>
         Option.bind (load_exec ops args (lw_run_id world) (lw_events world) (load_start rd)) (\<lambda>s.
         if load_finished s then load_conclude ops args world s else None))"

subsection \<open>The number of listeners\<close>

text \<open>Accepted arguments start no more than 100000 client connections and the webhook receiver, all different tasks.\<close>

lemma load_listeners_bounded:
  assumes "validate_args args = Inr ()"
  shows "length (load_listeners args) \<le> 100001" and "distinct (load_listeners args)"
proof -
  show "length (load_listeners args) \<le> 100001"
    using validated(6) [OF assms] by (simp add: load_listeners_def split: option.split)
  show "distinct (load_listeners args)"
    by (auto simp: load_listeners_def distinct_map inj_on_def split: option.split)
qed

subsection \<open>What a run that ends well shows\<close>

lemma record_received_reaches:
  "(load_step ops args run_id)\<^sup>*\<^sup>* s (s\<lparr>ln_recorder := record_received ops ds (ln_recorder s)\<rparr>)"
proof (induction ds arbitrary: s)
  case Nil
  then show ?case by (simp add: record_received_def)
next
  case (Cons d ds)
  obtain protocol message_id now where d: "d = (protocol, message_id, now)" by (cases d) auto
  let ?s = "s\<lparr>ln_recorder := recorder_record ops protocol message_id now (ln_recorder s)\<rparr>"
  have "load_step ops args run_id s ?s"
    by (rule load_event [of _ _ _ "Receive protocol message_id now"]) (simp add: load_apply_def)
  with Cons [of ?s] show ?case by (simp add: record_received_def d converse_rtranclp_into_rtranclp)
qed

lemma recorder_at_reaches:
  "(load_step ops args run_id)\<^sup>*\<^sup>* s (s\<lparr>ln_recorder := recorder_at ops world (ln_recorder s) k\<rparr>)"
proof (induction k)
  case (Suc k)
  from Suc record_received_reaches [of ops args run_id "s\<lparr>ln_recorder := recorder_at ops world (ln_recorder s) k\<rparr>"]
  show ?case by (simp add: rtranclp_trans)
qed simp

lemma load_main_Inr:
  assumes "load_main ops args world = Some (Inr u)"
  obtains rd s where "validate_args args = Inr ()" "recorder_new ops = Inr rd"
    "(load_step ops args (lw_run_id world))\<^sup>*\<^sup>* (load_start rd) s" "load_finished s" "load_verdict ops args s = Inr ()"
proof -
  obtain rd s j where s: "validate_args args = Inr ()" "recorder_new ops = Inr rd"
    "load_exec ops args (lw_run_id world) (lw_events world) (load_start rd) = Some s" "load_finished s"
    "load_verdict ops args (s\<lparr>ln_recorder := recorder_at ops world (ln_recorder s) (Suc j)\<rparr>) = Inr ()"
    using assms
    by (auto simp: load_main_def load_conclude_def Let_def result_simps bind_eq_Some_conv
      simp del: drain_loop.simps recorder_at.simps split: sum.splits if_splits)
  from load_exec_reaches [OF s(3)] recorder_at_reaches
  have "(load_step ops args (lw_run_id world))\<^sup>*\<^sup>* (load_start rd)
      (s\<lparr>ln_recorder := recorder_at ops world (ln_recorder s) (Suc j)\<rparr>)"
    by (rule rtranclp_trans)
  with s show ?thesis by (intro that [of rd]) (simp_all add: load_finished_def)
qed

text \<open>
  The process ends with success only when every message was published without a failure and each histogram has
  the number of deliveries that the connections of its protocol should have had.
\<close>

theorem load_main_sound:
  assumes "load_main ops args world = Some (Inr u)"
  shows "\<exists>rd s. recorder_new ops = Inr rd \<and> (load_step ops args (lw_run_id world))\<^sup>*\<^sup>* (load_start rd) s
    \<and> ln_failures s = 0 \<and> ln_successes s = la_messages args
    \<and> unat (la_messages args) * la_websocket_connections args \<le> unat (recorder_count ops LoadWebSocket (ln_recorder s))
    \<and> unat (la_messages args) * la_sse_connections args \<le> unat (recorder_count ops LoadSse (ln_recorder s))
    \<and> unat (la_messages args) * la_grpc_connections args \<le> unat (recorder_count ops LoadGrpc (ln_recorder s))"
  using assms
proof (rule load_main_Inr)
  fix rd s
  assume s: "validate_args args = Inr ()" "recorder_new ops = Inr rd"
    "(load_step ops args (lw_run_id world))\<^sup>*\<^sup>* (load_start rd) s" "load_finished s" "load_verdict ops args s = Inr ()"
  from load_verdict_sound [OF s] s(2,3) show ?thesis by blast
qed

text \<open>After publishing it always ends: the wait has enough fuel and the report does not panic.\<close>

theorem load_conclude_returns:
  assumes "validate_args args = Inr ()" and "recorder_new ops = Inr rd"
    and "(load_step ops args (lw_run_id world))\<^sup>*\<^sup>* (load_start rd) s"
    and "\<forall>k. lw_now_ms world k + 100 \<le> lw_now_ms world (Suc k)"
  shows "\<exists>res. load_conclude ops args world s = Some res"
proof -
  obtain j where "drain_loop (Suc (10 * unat (la_drain_timeout_secs args))) ops args (ln_successes s)
      (lw_now_ms world 0 + 1000 * unat (la_drain_timeout_secs args)) (lw_now_ms world)
      (recorder_at ops world (ln_recorder s)) 0 = Some j"
    using drain_loop_ends [OF assms(4), of "lw_now_ms world 0 + 1000 * unat (la_drain_timeout_secs args)" 0
        "10 * unat (la_drain_timeout_secs args)" ops args "ln_successes s"
        "recorder_at ops world (ln_recorder s)"]
    by (auto simp del: drain_loop.simps)
  moreover have "unat (ln_successes s) < 2 ^ 32"
    using load_reachable_inv [OF assms(2,3)] validated(2) [OF assms(1)] by (simp add: load_inv_def counts_ok_def)
  ultimately show ?thesis by (simp add: load_conclude_def run_report_def Let_def del: drain_loop.simps)
qed

end
