(* ===== verification/Spec2Isabelle.thy ===== *)
theory Spec2Isabelle
  imports Daemon_Main Edge_Props Load_Main
begin

text \<open>
  \<^bold>\<open>A verification of the Kafka edge router.\<close>

  The program consumes records from Kafka, decodes each into a routed message and fans it out to the live
  connections whose filters match: WebSocket, server-sent events, gRPC streams and webhooks. Clients publish into
  Kafka over HTTP and gRPC. One process, \<open>routerd\<close>, runs all of it; a second program, \<open>router-load\<close>, drives it
  under load. This development translates the Rust sources under \<open>src/crates\<close> and \<open>src/tools\<close> into executable
  definitions and proves what they promise. Every definition keeps the name of the function, method or type it
  models, with a prefix or a suffix where a name of HOL or a second function of that name is in the way.

  \<^bold>\<open>How the parts interact.\<close> \<open>main\<close> loads and validates the configuration, builds the components and spawns the
  tasks. The Kafka consumer decodes a record, calls \<open>dispatch\<close> on the router, waits for the pre-commit sinks and then
  commits the offset. \<open>dispatch\<close> looks up the compiled index and puts a delivery into the bounded queue of each
  matching connection. A client session authenticates, registers a connection with a first subscription, and moves
  deliveries from its queue to the client until it ends, when its guard unregisters the connection. A webhook
  destination is a connection as well: in the volatile mode a worker posts what arrives in the queue; in the durable
  mode the sink turns the queued deliveries into commands in Kafka before the source offset is committed, and a
  worker consumes the commands. Readiness follows the health of Kafka, and the metrics endpoint prints what all of
  them counted.

  \<^bold>\<open>Conventions.\<close> \<open>Result<T, E>\<close> is \<open>'e + 'a\<close> with \<open>and_then\<close>, \<open>map_err\<close> and \<open>bail_if\<close>; an \<open>Option\<close> is an \<open>option\<close>.
  A \<open>str\<close> is the list of its UTF-8 bytes. A hash map is an association list read by \<open>map_of\<close>; theorems never
  depend on its order. \<open>u64\<close>, \<open>u32\<close> and \<open>i64\<close> are words or integers with the wrap-around or saturation of the
  source; a \<open>usize\<close> that counts elements in memory is a natural number, and the bound of the machine is the
  hypothesis \<open>config_usize\<close> where it matters. State is passed explicitly: an operation returns its
  result and the new state. Concurrency is interleaving: an operation that holds a lock, or one atomic access, is one
  step. Clock readings, random identifiers and answers of the network are arguments or inputs of a step.

  \<^bold>\<open>Foundations.\<close>
  \<^item> \<open>Prelude\<close>: results, saturating arithmetic, laws of association lists, the rule collections
    \<open>result_simps\<close>, \<open>alist_simps\<close> and \<open>validate_simps\<close>.
  \<^item> \<open>Rust_Str\<close>, \<open>Net_Addr\<close>: what the sources use of the standard library: UTF-8, \<open>trim\<close>, character classes;
    internet addresses, their classes and the parser of socket addresses.
  \<^item> \<open>Systems\<close>: the locales \<open>step_invariant\<close> and \<open>run_invariant\<close>, which turn preservation by each operation into a fact
    about all reachable states. \<open>Rate_Window\<close>: the locale \<open>fixed_window\<close>, the contract of a rate limiter.

  \<^bold>\<open>Routing\<close> (\<open>router-core\<close>).
  \<^item> \<open>Identifiers\<close> (\<open>ids.rs\<close>, \<open>error.rs\<close>, \<open>protocol.rs\<close>), \<open>Message\<close> (\<open>message.rs\<close>), \<open>Publish\<close> (\<open>publisher.rs\<close>),
    \<open>Wire\<close> (\<open>wire.rs\<close>): the data, their validation and the JSON envelope, which loses nothing of a delivery.
  \<^item> \<open>Route\<close> (\<open>route.rs\<close>): the reference matcher, the compiled keys, and that the lookups of \<open>candidates\<close> find
    exactly what the matcher accepts. \<open>Route_Index\<close>: the index as a relation, with the locale \<open>subscription_index\<close>.
  \<^item> \<open>Metrics\<close>, \<open>Metrics_Render\<close> (\<open>metrics.rs\<close>): counters, gauges, histograms, the snapshot and its text. The reference
    is a reader of the text: each series is there once, with the value of the snapshot.
  \<^item> \<open>Router\<close> (\<open>router.rs\<close>): the record \<open>Router\<close> and each of its methods. \<open>Router_Inv\<close> has the invariant (the index is
    exact, no limit exceeded, the gauges are the cardinalities), \<open>Router_Dispatch\<close> the closed form of the fan-out loop,
    \<open>Router_Props\<close> the properties of all reachable states: what a dispatch does to every connection, bounded queues
    of one tenant, eviction of slow consumers, complete removal.

  \<^bold>\<open>Kafka\<close> (\<open>router-kafka\<close>).
  \<^item> \<open>Kafka_Decoder\<close>, \<open>Kafka_Publisher\<close>, \<open>Kafka_Health\<close>, \<open>Ingestor\<close>: the decoder and exactly what it accepts, the
    publisher and its round trip with the decoder, the health signal, and the loop, in which commits never skip a
    record. The locale \<open>pre_commit_sink\<close> is the contract of the trait of that name.

  \<^bold>\<open>Webhooks\<close> (\<open>router-webhook\<close>).
  \<^item> \<open>Webhook_Security\<close> (\<open>security.rs\<close>): the egress checks; a client connects only to checked addresses.
  \<^item> \<open>Webhook_Worker\<close>, \<open>Webhook_Manager\<close> (\<open>config.rs\<close>, \<open>manager.rs\<close>): the volatile delivery loop with its attempts,
    backoff and counters; starting all or none of the workers, and their supervision.
  \<^item> \<open>Durable_Sink\<close>, \<open>Durable_Worker\<close> (\<open>durable.rs\<close>): both ends of the durable mode. \<open>Durable_Protocol\<close> is the abstract
    specification of a delivery, an inductive relation on journals of effects; \<open>Durable_Props\<close> shows that \<open>process\<close>
    refines it and lifts its promises to runs of the worker; \<open>Durable_Pipeline\<close> composes router, consumer and sink: an
    offset is committed only when every matching destination has its command.

  \<^bold>\<open>Protocol adapters\<close> (\<open>router-api\<close>).
  \<^item> \<open>Api_Error\<close>, \<open>Api_State\<close>, \<open>Api_Auth\<close>, \<open>Api_Publish\<close> (\<open>error.rs\<close>, \<open>publish.rs\<close>, \<open>state.rs\<close>, \<open>auth.rs\<close>): error
    mapping, limits, health gates, rate limits that hold over every second, the five authentication modes with
    the tenant decided by the credential alone, and the gated publish endpoints.
  \<^item> \<open>Api_Stream\<close>, \<open>Api_Http\<close>, \<open>Api_Grpc\<close> (\<open>http.rs\<close>, \<open>grpc.rs\<close>): the sessions as step functions, the locale
    \<open>client_session\<close> and its three interpretations; health, status and metrics endpoints.
  \<^item> \<open>Edge_System\<close>, \<open>Edge_Props\<close>: the router with any number of clients in any interleaving. Whatever a client is
    sent belongs to its tenant, every client connection has an open session, and the metrics are exact.

  \<^bold>\<open>The daemon\<close> (\<open>routerd\<close>).
  \<^item> \<open>Daemon_Config\<close> (\<open>config.rs\<close>): what a configuration that loads guarantees to the other parts.
  \<^item> \<open>Daemon_Health\<close> (\<open>readiness.rs\<close>): the hysteresis against its specification, and the races between readiness,
    its mirror in the gRPC health service and shutdown.
  \<^item> \<open>Daemon_Main\<close> (\<open>main.rs\<close>, \<open>telemetry.rs\<close>): start-up in order and all or nothing, telemetry that never stops it,
    the refresh of the key set, the bounded drain and the exit status.

  \<^bold>\<open>The load generator\<close> (\<open>tools/router-load\<close>).
  \<^item> \<open>Load_Generator\<close>, \<open>Load_Run\<close>, \<open>Load_Sse\<close>, \<open>Load_Main\<close>: arguments, recorder and listeners; a run as interleaved
    events that accounts for every message and ends; the event-stream reader, the inverse of the router's event stream;
    and the entry point, whose success means that everything was published and the expected number received.

  \<^bold>\<open>Code outside the repository\<close> is a parameter. The tokio queue is \<open>mpsc_ops\<close> with the documented laws \<open>mpsc_laws\<close>
  and, for the receiving end, \<open>recv_laws\<close>; a bounded first-in-first-out queue satisfies them (\<open>fifo_laws\<close>,
  \<open>fifo_recv_laws\<close>). The JWT crate and the file system are \<open>AuthEnv\<close> with \<open>jwt_laws\<close>; the HDR histogram is \<open>hdr_ops\<close>
  with \<open>hdr_laws\<close>; the HTTP exchange, DNS, URL and MIME parsers, HMAC, base64, serde, rdkafka, the OpenTelemetry
  SDK, sockets and clocks are fields of \<open>HttpEnv\<close>, \<open>DurableEnv\<close>, \<open>SinkEnv\<close>, \<open>PublishEnv\<close>, \<open>HttpApiEnv\<close> and \<open>MainEnv\<close>
  without laws unless a theorem names one.

  \<^bold>\<open>Termination and fuel.\<close> Loops over data are structural recursions or have a decreasing measure (the retry loops:
  the attempts left, the event-stream reader: the length of the buffer). Service loops, which run until they are
  told to stop, are folds over the sequence of their events, and the theorems hold for every such sequence. One loop
  has fuel, the wait of the load generator for its last deliveries: a poll comes at least 100 milliseconds
  after the previous one, so one poll more than the timeout has tenths of a second is enough (\<open>drain_loop_ends\<close>). A wait
  that may never complete, a receive on the empty queue of an open channel, is the value \<open>None\<close>, and that it does
  not happen is proved where it matters.

  \<^bold>\<open>Not modelled.\<close> The route table, the body limit and the serving loops of axum and tonic, and the generated protocol
  code with its build script: they are other crates' behaviour, and the handlers they call are modelled. The
  deserialisation of configuration and requests (serde, config, clap). The internals of tracing and OpenTelemetry, log
  lines other than those of the end of the daemon, and span parents, which have no effect on routing. Weak memory: every
  counter of the metrics is independent, and a snapshot is read at one moment. Task spawning and cancellation inside
  tokio: a session or worker that is dropped ends between two of its steps. Of the load generator the pace of the
  producer and the JSON text of the report. Test code and failure injection.
\<close>

end
